(* ===== verification/Nyx_Prelude.thy ===== *)
theory Nyx_Prelude
  imports Main "HOL-Library.Word" "HOL-Library.Signed_Division" "HOL-Library.Monad_Syntax"
begin

text \<open>
  Shared vocabulary of the nyx-modules development: pointers, the error codes the modules
  return, C integer arithmetic whose undefined cases are values, checked array access, and
  the contract that every module operation guarded by a device handle obeys.
\<close>

section \<open>Pointers and error codes\<close>

text \<open>
  A device handle or a callback is only compared with others and with NULL, so an address
  is enough; 0 is NULL.
\<close>

type_synonym ptr = nat

abbreviation (input) NULL :: ptr where
  "NULL \<equiv> 0"

type_synonym u8 = "8 word"
type_synonym u16 = "16 word"
type_synonym u32 = "32 word"

text \<open>The codes of \<open>nyx_error_t\<close> that the modules name.\<close>

datatype nyx_error =
    NYX_ERROR_NONE
  | NYX_ERROR_GENERIC
  | NYX_ERROR_NOT_IMPLEMENTED
  | NYX_ERROR_NOT_FOUND
  | NYX_ERROR_INVALID_HANDLE
  | NYX_ERROR_INVALID_VALUE
  | NYX_ERROR_INVALID_OPERATION
  | NYX_ERROR_INVALID_FILE_ACCESS
  | NYX_ERROR_OUT_OF_MEMORY
  | NYX_ERROR_VALUE_OUT_OF_RANGE
  | NYX_ERROR_DEVICE_UNAVAILABLE

section \<open>C arithmetic and arrays: undefined behaviour is \<open>None\<close>\<close>

named_theorems c_ub \<open>when a checked C operation is defined\<close>

definition INT_MAX :: int where
  "INT_MAX = 2147483647"

definition INT_MIN :: int where
  "INT_MIN = - 2147483648"

definition in_i32 :: "int \<Rightarrow> bool" where
  "in_i32 v \<longleftrightarrow> INT_MIN \<le> v \<and> v \<le> INT_MAX"

text \<open>The result of a signed 32-bit operation: defined when it is representable.\<close>

definition i32 :: "int \<Rightarrow> int option" where
  "i32 v = (if in_i32 v then Some v else None)"

lemma i32_Some [c_ub]: "in_i32 v \<Longrightarrow> i32 v = Some v"
  by (simp add: i32_def)

lemma i32_eq_Some_iff: "i32 v = Some w \<longleftrightarrow> in_i32 v \<and> w = v"
  by (auto simp: i32_def)

lemma in_i32_small: "\<bar>v\<bar> \<le> 2147483647 \<Longrightarrow> in_i32 v"
  by (auto simp: in_i32_def INT_MIN_def INT_MAX_def)

text \<open>\<open>a % b\<close> and \<open>a / b\<close> truncate towards zero; a zero divisor traps.\<close>

definition c_mod :: "int \<Rightarrow> int \<Rightarrow> int option" where
  "c_mod a b = (if b = 0 then None else Some (a smod b))"

definition c_div :: "int \<Rightarrow> int \<Rightarrow> int option" where
  "c_div a b = (if b = 0 then None else i32 (a sdiv b))"

lemma smod_nonneg: "0 \<le> a \<Longrightarrow> 0 < b \<Longrightarrow> a smod b = a mod b" for a b :: int
  by (cases "a = 0") (simp_all add: signed_modulo_int_def)

lemma sdiv_nonneg: "0 \<le> a \<Longrightarrow> 0 < b \<Longrightarrow> a sdiv b = a div b" for a b :: int
  by (cases "a = 0") (simp_all add: signed_divide_int_def)

lemma c_mod_nonneg [c_ub]: "0 \<le> a \<Longrightarrow> 0 < b \<Longrightarrow> c_mod a b = Some (a mod b)"
  by (simp add: c_mod_def smod_nonneg)

text \<open>Array access by a C index.\<close>

definition arr_get :: "'a list \<Rightarrow> int \<Rightarrow> 'a option" where
  "arr_get a i = (if 0 \<le> i \<and> i < int (length a) then Some (a ! nat i) else None)"

definition arr_set :: "'a list \<Rightarrow> int \<Rightarrow> 'a \<Rightarrow> 'a list option" where
  "arr_set a i v = (if 0 \<le> i \<and> i < int (length a) then Some (a[nat i := v]) else None)"

lemma arr_get_Some [c_ub]: "0 \<le> i \<Longrightarrow> i < int (length a) \<Longrightarrow> arr_get a i = Some (a ! nat i)"
  by (simp add: arr_get_def)

lemma arr_set_Some [c_ub]: "0 \<le> i \<Longrightarrow> i < int (length a) \<Longrightarrow> arr_set a i v = Some (a[nat i := v])"
  by (simp add: arr_set_def)

lemma arr_get_nat: "arr_get a (int k) = (if k < length a then Some (a ! k) else None)"
  by (simp add: arr_get_def)

lemma arr_set_nat: "arr_set a (int k) v = (if k < length a then Some (a[k := v]) else None)"
  by (simp add: arr_set_def)

lemma arr_set_length: "arr_set a i v = Some a' \<Longrightarrow> length a' = length a"
  by (auto simp: arr_set_def split: if_splits)

text \<open>Reading the option monad.\<close>

lemma bind_eq_SomeE:
  assumes "Option.bind m f = Some r"
  obtains v where "m = Some v" and "f v = Some r"
  using assms by (cases m) auto

text \<open>An optional value as a list.\<close>

definition option_list :: "'a option \<Rightarrow> 'a list" where
  "option_list x = (case x of None \<Rightarrow> [] | Some v \<Rightarrow> [v])"

lemma option_list_simps [simp]: "option_list None = []" "option_list (Some v) = [v]"
  by (simp_all add: option_list_def)

section \<open>Operations guarded by a device handle\<close>

text \<open>
  The interface nyx-lib sees: an operation takes a handle, compares it with the module's own
  device and refuses it when it differs. \<open>dev\<close> reads the module's device from its state.
\<close>

locale handle_guarded =
  fixes dev :: "'s \<Rightarrow> ptr"
    and op :: "'i \<Rightarrow> ptr \<Rightarrow> 's \<Rightarrow> nyx_error \<times> 'o \<times> 's"
    and out0 :: "'i \<Rightarrow> 'o"
  assumes refused: "h \<noteq> dev s \<Longrightarrow> op i h s = (NYX_ERROR_INVALID_HANDLE, out0 i, s)"
    and same_dev: "dev (snd (snd (op i h s))) = dev s"
begin

fun run :: "('i \<times> ptr) list \<Rightarrow> 's \<Rightarrow> 's" where
  "run [] s = s"
| "run ((i, h) # cs) s = run cs (snd (snd (op i h s)))"

lemma run_dev: "dev (run cs s) = dev s"
  by (induction cs s rule: run.induct) (simp_all add: same_dev)

text \<open>Calls with foreign handles cannot be told apart from no calls at all.\<close>

lemma run_filter: "run cs s = run (filter (\<lambda>c. snd c = dev s) cs) s"
proof (induction cs s rule: run.induct)
  case (2 i h cs s)
  show ?case
  proof (cases "h = dev s")
    case True
    with "2.IH" show ?thesis by (simp add: same_dev)
  next
    case False
    with "2.IH" show ?thesis by (simp add: refused)
  qed
qed simp

end

end
