(* ===== verification/Coord_Buffer.thy ===== *)
theory Coord_Buffer
  imports Nyx_Prelude
begin

text \<open>
  The per-finger coordinate history of touchpanel_gestures.c: a circular buffer of
  \<open>coord_t\<close>. The abstraction \<open>hist\<close> reads the ring as the list of the recorded
  coordinates, oldest first; every operation refines a list operation on it.
\<close>

section \<open>Data\<close>

text \<open>\<open>time_stamp_t\<close>: a struct timespec.\<close>

record time_stamp =
  ts_sec :: int
  ts_nsec :: int

text \<open>\<open>coord_t\<close>.\<close>

record coord =
  co_x :: int
  co_y :: int
  co_timeStamp :: time_stamp

text \<open>\<open>coord_buf_t\<close>; the array is \<open>None\<close> while \<open>pCoords\<close> is NULL.\<close>

record coord_buf =
  pCoords :: "coord list option"
  cb_head :: int
  cb_tail :: int
  numItems :: int
  cb_size :: int

section \<open>Operations\<close>

text \<open>
  \<open>mem\<close> is what malloc returns: NULL, or an uninitialised array of \<open>bufSize\<close> coordinates.
\<close>

definition create_coord_buffer ::
  "coord list option \<Rightarrow> coord_buf option \<Rightarrow> int \<Rightarrow> int \<times> coord_buf option" where
  "create_coord_buffer mem pCoordBuf bufSize =
     (case pCoordBuf of
        None \<Rightarrow> (-1, None)
      | Some b \<Rightarrow>
          (case mem of
             None \<Rightarrow> (-1, Some (b\<lparr>pCoords := None\<rparr>))
           | Some a \<Rightarrow>
               (0, Some (b\<lparr>pCoords := Some a, cb_size := bufSize, cb_head := 0, cb_tail := 0,
                           numItems := 0\<rparr>))))"

definition reset_coord_buffer :: "coord_buf \<Rightarrow> coord_buf" where
  "reset_coord_buffer b = b\<lparr>cb_head := 0, cb_tail := 0, numItems := 0\<rparr>"

text \<open>Reading and writing \<open>pCoords[i]\<close>.\<close>

definition coord_at :: "coord_buf \<Rightarrow> int \<Rightarrow> coord option" where
  "coord_at b i = Option.bind (pCoords b) (\<lambda>a. arr_get a i)"

definition coord_put :: "coord_buf \<Rightarrow> int \<Rightarrow> coord \<Rightarrow> coord_buf option" where
  "coord_put b i c =
     Option.bind (pCoords b) (\<lambda>a.
     Option.bind (arr_set a i c) (\<lambda>a'. Some (b\<lparr>pCoords := Some a'\<rparr>)))"

text \<open>
  The position filter of \<open>update_coord_buffer\<close>: the new value moves one unit towards the
  previous one.
\<close>

definition nudge :: "int \<Rightarrow> int \<Rightarrow> int" where
  "nudge v prev = (if v < prev then v + 1 else if prev < v then v - 1 else v)"

definition update_coord_buffer ::
  "int \<Rightarrow> coord_buf \<Rightarrow> int \<Rightarrow> int \<Rightarrow> time_stamp \<Rightarrow> coord_buf option" where
  "update_coord_buffer positionFilter b xCoord yCoord pTime = do {
     head' \<leftarrow> (if cb_head b = cb_tail b \<and> numItems b = cb_size b
               then do { h \<leftarrow> i32 (cb_head b + 1); c_mod h (cb_size b) }
               else Some (cb_head b));
     let index = cb_tail b;
     (x', y') \<leftarrow> (if positionFilter \<noteq> 0 \<and> numItems b \<noteq> 0
                 then do {
                   p \<leftarrow> coord_at b (if index \<noteq> 0 then index - 1 else cb_size b - 1);
                   Some (nudge xCoord (co_x p), nudge yCoord (co_y p)) }
                 else Some (xCoord, yCoord));
     b' \<leftarrow> coord_put b index \<lparr>co_x = x', co_y = y', co_timeStamp = pTime\<rparr>;
     t \<leftarrow> i32 (cb_tail b + 1);
     tail' \<leftarrow> c_mod t (cb_size b);
     Some (b'\<lparr>cb_head := head',
              numItems := (if numItems b < cb_size b then numItems b + 1 else numItems b),
              cb_tail := tail'\<rparr>) }"

definition get_last_coords :: "coord_buf \<Rightarrow> coord option" where
  "get_last_coords b = do {
     s \<leftarrow> i32 (cb_head b + numItems b);
     s1 \<leftarrow> i32 (s - 1);
     previndex \<leftarrow> c_mod s1 (cb_size b);
     coord_at b previndex }"

section \<open>The history a buffer stands for\<close>

definition cb_wf :: "coord_buf \<Rightarrow> bool" where
  "cb_wf b \<longleftrightarrow>
     (case pCoords b of None \<Rightarrow> False | Some a \<Rightarrow> int (length a) = cb_size b) \<and>
     0 < cb_size b \<and> cb_size b < 2 ^ 30 \<and>
     0 \<le> cb_head b \<and> cb_head b < cb_size b \<and>
     0 \<le> numItems b \<and> numItems b \<le> cb_size b \<and>
     cb_tail b = (cb_head b + numItems b) mod cb_size b"

text \<open>The \<open>m\<close> slots of a ring of size \<open>N\<close> that start at \<open>h\<close>.\<close>

definition ring_list :: "'a list \<Rightarrow> int \<Rightarrow> int \<Rightarrow> nat \<Rightarrow> 'a list" where
  "ring_list a h N m = map (\<lambda>k. a ! nat ((h + int k) mod N)) [0..<m]"

definition hist :: "coord_buf \<Rightarrow> coord list" where
  "hist b =
     (case pCoords b of
        None \<Rightarrow> []
      | Some a \<Rightarrow> ring_list a (cb_head b) (cb_size b) (nat (numItems b)))"

text \<open>What the filter makes of a new coordinate, given the history so far.\<close>

definition filtered :: "int \<Rightarrow> coord list \<Rightarrow> coord \<Rightarrow> coord" where
  "filtered positionFilter h c =
     (if positionFilter \<noteq> 0 \<and> h \<noteq> []
      then c\<lparr>co_x := nudge (co_x c) (co_x (last h)), co_y := nudge (co_y c) (co_y (last h))\<rparr>
      else c)"

text \<open>The last \<open>n\<close> elements.\<close>

definition keep_last :: "nat \<Rightarrow> 'a list \<Rightarrow> 'a list" where
  "keep_last n xs = drop (length xs - n) xs"

lemma keep_last_short [simp]: "length xs \<le> n \<Longrightarrow> keep_last n xs = xs"
  by (simp add: keep_last_def)

lemma length_keep_last [simp]: "length (keep_last n xs) = min n (length xs)"
  by (auto simp: keep_last_def min_def)

lemma last_keep_last [simp]: "0 < n \<Longrightarrow> keep_last n (xs @ [x]) \<noteq> [] \<and> last (keep_last n (xs @ [x])) = x"
  by (auto simp: keep_last_def last_drop)

lemma keep_last_append: "keep_last n (keep_last n zs @ ys) = keep_last n (zs @ ys)"
proof (cases "length zs \<le> n")
  case False
  then have "length zs - n + length ys - length ys = length zs - n" by simp
  with False show ?thesis
    by (auto simp: keep_last_def drop_append add.commute)
qed simp

lemma set_keep_last: "set (keep_last n xs) \<subseteq> set xs"
  by (simp add: keep_last_def set_drop_subset)

section \<open>Refinement of the list\<close>

lemma length_ring_list [simp]: "length (ring_list a h N m) = m"
  by (simp add: ring_list_def)

lemma ring_slot_inj:
  fixes h i j N :: int
  assumes "0 \<le> i" "i < N" "0 \<le> j" "j < N" "(h + i) mod N = (h + j) mod N"
  shows "i = j"
proof -
  from assms(5) have "N dvd (i - j)"
    by (simp add: mod_eq_dvd_iff)
  then obtain q where q: "i - j = N * q" by (elim dvdE)
  from assms have "\<bar>N * q\<bar> < N" by (simp flip: q)
  with assms have "q = 0"
    by (simp add: abs_mult mult_less_cancel_left1)
  with q show ?thesis by simp
qed

lemma ring_list_snoc:
  assumes "0 < N" "int m < N" "int (length a) = N"
  shows "ring_list (a[nat ((h + int m) mod N) := c]) h N (Suc m) = ring_list a h N m @ [c]"
proof -
  let ?t = "nat ((h + int m) mod N)"
  have t: "?t < length a"
    using assms pos_mod_bound [of N "h + int m"] by linarith
  have "a[?t := c] ! nat ((h + int k) mod N) = a ! nat ((h + int k) mod N)" if "k < m" for k
  proof -
    have "(h + int k) mod N \<noteq> (h + int m) mod N"
      using ring_slot_inj [of "int k" N "int m" h] assms that by auto
    then have "nat ((h + int k) mod N) \<noteq> ?t"
      using assms by (simp add: eq_nat_nat_iff)
    then show ?thesis by simp
  qed
  with t show ?thesis by (auto simp: ring_list_def)
qed

lemma ring_list_tl:
  "ring_list a ((h + 1) mod N) N m = tl (ring_list a h N (Suc m))"
proof (rule nth_equalityI)
  fix i assume "i < length (ring_list a ((h + 1) mod N) N m)"
  then have i: "i < m" by simp
  have "((h + 1) mod N + int i) mod N = (h + int (Suc i)) mod N"
    by (simp add: mod_add_left_eq) (simp add: ac_simps mod_add_right_eq)
  with i show "ring_list a ((h + 1) mod N) N m ! i = tl (ring_list a h N (Suc m)) ! i"
    by (simp add: ring_list_def nth_tl del: upt_Suc)
qed simp

lemma cb_wf_array: "cb_wf b \<Longrightarrow> \<exists>a. pCoords b = Some a \<and> int (length a) = cb_size b"
  by (auto simp: cb_wf_def split: option.splits)

lemma length_hist: "cb_wf b \<Longrightarrow> length (hist b) = nat (numItems b)"
  by (auto simp: cb_wf_def hist_def split: option.splits)

lemma hist_empty_iff: "cb_wf b \<Longrightarrow> hist b = [] \<longleftrightarrow> numItems b = 0"
  using length_hist [of b] by (auto simp: cb_wf_def)

lemma create_coord_buffer_wf:
  assumes "int (length a) = n" "0 < n" "n < 2 ^ 30"
    and "create_coord_buffer (Some a) (Some b) n = (r, Some b')"
  shows "r = 0 \<and> cb_wf b' \<and> hist b' = [] \<and> cb_size b' = n"
  using assms by (auto simp: create_coord_buffer_def cb_wf_def hist_def ring_list_def)

lemma reset_coord_buffer_wf:
  "cb_wf b \<Longrightarrow> cb_wf (reset_coord_buffer b)"
  by (auto simp: reset_coord_buffer_def cb_wf_def split: option.splits)

lemma reset_coord_buffer_hist [simp]: "hist (reset_coord_buffer b) = []"
  by (simp add: reset_coord_buffer_def hist_def ring_list_def split: option.splits)

lemma reset_coord_buffer_size [simp]: "cb_size (reset_coord_buffer b) = cb_size b"
  by (simp add: reset_coord_buffer_def)

text \<open>The slot the filter and \<open>get_last_coords\<close> read is the newest element.\<close>

lemma coord_at_last:
  assumes "cb_wf b" "hist b \<noteq> []"
  shows "coord_at b ((cb_head b + numItems b - 1) mod cb_size b) = Some (last (hist b))"
proof -
  from assms(1) obtain a where a: "pCoords b = Some a" "int (length a) = cb_size b"
    using cb_wf_array by blast
  have pos: "0 < numItems b" "0 < cb_size b"
    using assms hist_empty_iff [OF assms(1)] by (auto simp: cb_wf_def)
  have "last (hist b) = hist b ! (nat (numItems b) - 1)"
    using assms length_hist [OF assms(1)] by (simp add: last_conv_nth)
  also have "\<dots> = a ! nat ((cb_head b + numItems b - 1) mod cb_size b)"
    using pos by (simp add: hist_def a ring_list_def add_diff_eq del: upt_Suc)
  finally show ?thesis
    using a pos by (simp add: coord_at_def arr_get_def)
qed

lemma get_last_coords_hist:
  assumes "cb_wf b" "hist b \<noteq> []"
  shows "get_last_coords b = Some (last (hist b))"
proof -
  have n: "0 < numItems b"
    using assms hist_empty_iff [OF assms(1)] by (auto simp: cb_wf_def)
  then have "i32 (cb_head b + numItems b) = Some (cb_head b + numItems b)"
    and "i32 (cb_head b + numItems b - 1) = Some (cb_head b + numItems b - 1)"
    and "c_mod (cb_head b + numItems b - 1) (cb_size b)
         = Some ((cb_head b + numItems b - 1) mod cb_size b)"
    using assms(1) by (auto intro!: c_ub in_i32_small simp: cb_wf_def)
  with coord_at_last [OF assms] show ?thesis
    by (simp add: get_last_coords_def)
qed

text \<open>Reading the last coordinates of an empty buffer is out of bounds.\<close>

lemma get_last_coords_empty:
  assumes "cb_wf b" "1 < cb_size b"
  shows "get_last_coords (reset_coord_buffer b) = None"
proof -
  from assms(2) have "(-1 :: int) smod cb_size b = -1"
    by (simp add: signed_modulo_int_def)
  with assms show ?thesis
    by (auto simp: get_last_coords_def reset_coord_buffer_def c_mod_def coord_at_def arr_get_def
        i32_def in_i32_def INT_MIN_def INT_MAX_def split: option.splits)
qed

text \<open>The coordinate that \<open>update_coord_buffer\<close> stores.\<close>

lemma filter_step:
  assumes "cb_wf b"
  shows "(if pf \<noteq> 0 \<and> numItems b \<noteq> 0
          then Option.bind (coord_at b (if cb_tail b \<noteq> 0 then cb_tail b - 1 else cb_size b - 1))
                 (\<lambda>p. Some (nudge xc (co_x p), nudge yc (co_y p)))
          else Some (xc, yc))
         = (let c = filtered pf (hist b) \<lparr>co_x = xc, co_y = yc, co_timeStamp = t\<rparr>
            in Some (co_x c, co_y c))"
proof (cases "pf \<noteq> 0 \<and> numItems b \<noteq> 0")
  case True
  then have ne: "hist b \<noteq> []" using hist_empty_iff [OF assms] by simp
  have N: "0 < cb_size b" and tl: "cb_tail b = (cb_head b + numItems b) mod cb_size b"
    using assms by (auto simp: cb_wf_def)
  have "(cb_head b + numItems b - 1) mod cb_size b = (cb_tail b - 1) mod cb_size b"
    by (simp add: tl mod_diff_left_eq)
  also have "\<dots> = (if cb_tail b \<noteq> 0 then cb_tail b - 1 else cb_size b - 1)"
    using N pos_mod_bound [OF N, of "cb_head b + numItems b"]
      pos_mod_sign [OF N, of "cb_head b + numItems b"]
    by (auto simp: tl zmod_minus1)
  finally show ?thesis
    using True ne coord_at_last [OF assms ne] by (simp add: filtered_def)
next
  case False
  then show ?thesis using hist_empty_iff [OF assms] by (auto simp: filtered_def)
qed

lemma update_coord_buffer_eq:
  fixes pf xc yc :: int and t :: time_stamp
  assumes wf: "cb_wf b" and a: "pCoords b = Some a"
  defines "c \<equiv> filtered pf (hist b) \<lparr>co_x = xc, co_y = yc, co_timeStamp = t\<rparr>"
  shows "update_coord_buffer pf b xc yc t =
     Some (b\<lparr>pCoords := Some (a[nat (cb_tail b) := c]),
             cb_head := (if numItems b = cb_size b then (cb_head b + 1) mod cb_size b else cb_head b),
             numItems := (if numItems b < cb_size b then numItems b + 1 else numItems b),
             cb_tail := (cb_tail b + 1) mod cb_size b\<rparr>)"
proof -
  have bnd: "0 < cb_size b" "cb_size b < 2 ^ 30" "0 \<le> cb_head b" "cb_head b < cb_size b"
    "0 \<le> cb_tail b" "cb_tail b < cb_size b"
    and len: "int (length a) = cb_size b"
    and tl: "cb_tail b = (cb_head b + numItems b) mod cb_size b"
    using wf a by (auto simp: cb_wf_def)
  have full: "cb_head b = cb_tail b \<and> numItems b = cb_size b \<longleftrightarrow> numItems b = cb_size b"
    using bnd by (auto simp: tl)
  have arith: "i32 (cb_head b + 1) = Some (cb_head b + 1)"
    "i32 (cb_tail b + 1) = Some (cb_tail b + 1)"
    "c_mod (cb_head b + 1) (cb_size b) = Some ((cb_head b + 1) mod cb_size b)"
    "c_mod (cb_tail b + 1) (cb_size b) = Some ((cb_tail b + 1) mod cb_size b)"
    using bnd by (auto intro!: c_ub in_i32_small)
  have head: "(if cb_head b = cb_tail b \<and> numItems b = cb_size b
      then Option.bind (i32 (cb_head b + 1)) (\<lambda>h. c_mod h (cb_size b)) else Some (cb_head b))
      = Some (if numItems b = cb_size b then (cb_head b + 1) mod cb_size b else cb_head b)"
    using arith full by simp
  have put: "coord_put b (cb_tail b) c = Some (b\<lparr>pCoords := Some (a[nat (cb_tail b) := c])\<rparr>)"
    using a len bnd by (simp add: coord_put_def arr_set_def)
  have "co_timeStamp c = t" by (simp add: c_def filtered_def)
  then have c_eq: "\<lparr>co_x = co_x c, co_y = co_y c, co_timeStamp = t\<rparr> = c"
    by (cases c) simp
  show ?thesis
    unfolding update_coord_buffer_def Let_def
    by (subst head, subst filter_step [OF wf, of pf xc yc t])
      (simp add: Let_def c_eq put arith flip: c_def split del: if_split)
qed

lemma update_coord_buffer_refines:
  fixes pf xc yc :: int and t :: time_stamp
  assumes wf: "cb_wf b"
  defines "c \<equiv> filtered pf (hist b) \<lparr>co_x = xc, co_y = yc, co_timeStamp = t\<rparr>"
  shows "\<exists>b'. update_coord_buffer pf b xc yc t = Some b' \<and> cb_wf b' \<and> cb_size b' = cb_size b \<and>
           hist b' = keep_last (nat (cb_size b)) (hist b @ [c])"
proof -
  obtain a where a: "pCoords b = Some a" "int (length a) = cb_size b"
    using cb_wf_array [OF wf] by blast
  let ?N = "cb_size b" and ?h = "cb_head b" and ?m = "numItems b"
  note upd = update_coord_buffer_eq [OF wf a(1), of pf xc yc t, folded c_def]
  have bnd: "0 < ?N" "?N < 2 ^ 30" "0 \<le> ?h" "?h < ?N" "0 \<le> ?m" "?m \<le> ?N"
    and tl: "cb_tail b = (?h + ?m) mod ?N"
    using wf by (auto simp: cb_wf_def)
  show ?thesis
  proof (cases "?m = ?N")
    case True
    have tail': "cb_tail b = ?h" using True bnd by (simp add: tl)
    let ?h' = "(?h + 1) mod ?N"
    have slot: "nat ?h = nat ((?h' + int (nat ?N - 1)) mod ?N)"
      using bnd by (simp add: mod_add_left_eq)
    have "ring_list (a[nat ?h := c]) ?h' ?N (Suc (nat ?N - 1))
          = ring_list a ?h' ?N (nat ?N - 1) @ [c]"
      by (subst slot, rule ring_list_snoc) (use bnd a in auto)
    moreover have "ring_list a ?h' ?N (nat ?N - 1) = tl (hist b)"
      using a bnd True by (simp add: hist_def ring_list_tl)
    moreover have "keep_last (nat ?N) (hist b @ [c]) = tl (hist b) @ [c]"
      using length_hist [OF wf] True bnd by (cases "hist b") (auto simp: keep_last_def)
    ultimately show ?thesis
      using a bnd True by (simp add: upd hist_def tail' cb_wf_def)
  next
    case False
    have slot: "nat (cb_tail b) = nat ((?h + int (nat ?m)) mod ?N)"
      using bnd by (simp add: tl)
    have "ring_list (a[nat (cb_tail b) := c]) ?h ?N (Suc (nat ?m)) = hist b @ [c]"
      unfolding slot using a bnd False by (subst ring_list_snoc) (auto simp: hist_def)
    moreover have "keep_last (nat ?N) (hist b @ [c]) = hist b @ [c]"
      using length_hist [OF wf] False bnd by simp
    ultimately show ?thesis
      using a bnd False
      by (simp add: upd hist_def cb_wf_def tl mod_add_left_eq add.assoc
          Suc_nat_eq_nat_zadd1 add.commute [of 1])
  qed
qed

section \<open>The interface the finger tracker uses\<close>

text \<open>
  A bounded history: \<open>push\<close> records an element, possibly adjusted by what is already there,
  and forgets the oldest ones beyond the capacity; \<open>latest\<close> reads the newest one.
\<close>

locale bounded_history =
  fixes reset :: "'b \<Rightarrow> 'b"
    and push :: "'c \<Rightarrow> 'b \<Rightarrow> 'b option"
    and latest :: "'b \<Rightarrow> 'c option"
    and contents :: "'b \<Rightarrow> 'c list"
    and capacity :: "'b \<Rightarrow> nat"
    and inv :: "'b \<Rightarrow> bool"
    and adjust :: "'c list \<Rightarrow> 'c \<Rightarrow> 'c"
  assumes capacity_pos: "inv b \<Longrightarrow> 0 < capacity b"
    and reset_inv: "inv b \<Longrightarrow> inv (reset b)"
    and reset_capacity: "capacity (reset b) = capacity b"
    and reset_contents: "contents (reset b) = []"
    and push_defined: "inv b \<Longrightarrow> \<exists>b'. push c b = Some b'"
    and push_inv: "inv b \<Longrightarrow> push c b = Some b' \<Longrightarrow> inv b'"
    and push_capacity: "inv b \<Longrightarrow> push c b = Some b' \<Longrightarrow> capacity b' = capacity b"
    and push_contents: "inv b \<Longrightarrow> push c b = Some b' \<Longrightarrow>
          contents b' = keep_last (capacity b) (contents b @ [adjust (contents b) c])"
    and latest_contents: "inv b \<Longrightarrow> contents b \<noteq> [] \<Longrightarrow> latest b = Some (last (contents b))"
begin

lemma push_latest:
  assumes "inv b" "push c b = Some b'"
  shows "contents b' \<noteq> []" "latest b' = Some (adjust (contents b) c)"
  using assms capacity_pos [OF assms(1)]
  by (simp_all add: latest_contents push_inv push_contents)

lemma restart:
  assumes "inv b"
  shows "\<exists>b'. push c (reset b) = Some b' \<and> inv b' \<and> capacity b' = capacity b \<and>
           contents b' = [adjust [] c]"
proof -
  obtain b' where b': "push c (reset b) = Some b'"
    using push_defined [OF reset_inv [OF assms]] by blast
  have "0 < capacity b" using capacity_pos [OF assms] .
  then have "Suc 0 \<le> capacity b" by simp
  with assms b' show ?thesis
    using push_contents [OF reset_inv b'] push_inv [OF reset_inv b']
      push_capacity [OF reset_inv b']
    by (simp add: reset_contents reset_capacity)
qed

fun push_all :: "'c list \<Rightarrow> 'b \<Rightarrow> 'b option" where
  "push_all [] b = Some b"
| "push_all (c # cs) b = Option.bind (push c b) (push_all cs)"

lemma push_all_defined: "inv b \<Longrightarrow> \<exists>b'. push_all cs b = Some b' \<and> inv b'"
proof (induction cs arbitrary: b)
  case (Cons c cs)
  then obtain b1 where b1: "push c b = Some b1" using push_defined by blast
  with Cons.prems have "inv b1" by (rule push_inv)
  with Cons.IH b1 show ?case by fastforce
qed simp

end

locale exact_history = bounded_history +
  assumes adjust_id: "adjust h c = c"
begin

lemma push_all_contents:
  assumes "inv b" "push_all cs b = Some b'" "length (contents b) \<le> capacity b"
  shows "contents b' = keep_last (capacity b) (contents b @ cs)"
  using assms
proof (induction cs arbitrary: b)
  case (Cons c cs)
  from Cons.prems(2) obtain b1 where b1: "push c b = Some b1" "push_all cs b1 = Some b'"
    by (auto elim: bind_eq_SomeE)
  have inv1: "inv b1" and cap1: "capacity b1 = capacity b"
    using Cons.prems(1) b1(1) by (simp_all add: push_inv push_capacity)
  have c1: "contents b1 = keep_last (capacity b) (contents b @ [c])"
    using Cons.prems(1) b1(1) by (simp add: push_contents adjust_id)
  have "contents b' = keep_last (capacity b) (contents b1 @ cs)"
    using Cons.IH [OF inv1 b1(2)] cap1 c1 by simp
  then show ?case
    by (simp add: c1 keep_last_append)
qed simp

end

interpretation cb: bounded_history
  reset_coord_buffer
  "\<lambda>c b. update_coord_buffer pf b (co_x c) (co_y c) (co_timeStamp c)"
  get_last_coords hist "\<lambda>b. nat (cb_size b)" cb_wf "filtered pf"
  for pf
proof (unfold_locales, goal_cases)
  case (1 b) then show ?case by (simp add: cb_wf_def)
next
  case (2 b) then show ?case by (rule reset_coord_buffer_wf)
next
  case (5 b c)
  then show ?case using update_coord_buffer_refines by blast
next
  case (6 b c b')
  then show ?case
    using update_coord_buffer_refines [OF 6(1), of pf "co_x c" "co_y c" "co_timeStamp c"] by simp
next
  case (7 b c b')
  then show ?case
    using update_coord_buffer_refines [OF 7(1), of pf "co_x c" "co_y c" "co_timeStamp c"] by simp
next
  case (8 b c b')
  then show ?case
    using update_coord_buffer_refines [OF 8(1), of pf "co_x c" "co_y c" "co_timeStamp c"]
    by (cases c) auto
next
  case (9 b) then show ?case by (rule get_last_coords_hist)
qed simp_all

interpretation cb_exact: exact_history
  reset_coord_buffer
  "\<lambda>c b. update_coord_buffer 0 b (co_x c) (co_y c) (co_timeStamp c)"
  get_last_coords hist "\<lambda>b. nat (cb_size b)" cb_wf "filtered 0"
  by unfold_locales (simp add: filtered_def)

text \<open>A sequence of updates.\<close>

fun record_all :: "int \<Rightarrow> coord list \<Rightarrow> coord_buf \<Rightarrow> coord_buf option" where
  "record_all positionFilter [] b = Some b"
| "record_all positionFilter (c # cs) b = do {
     b' \<leftarrow> update_coord_buffer positionFilter b (co_x c) (co_y c) (co_timeStamp c);
     record_all positionFilter cs b' }"

lemma record_all_push_all:
  "record_all pf cs b =
     bounded_history.push_all
       (\<lambda>c b. update_coord_buffer pf b (co_x c) (co_y c) (co_timeStamp c)) cs b"
proof (induction cs arbitrary: b)
  case (Cons c cs)
  then have "record_all pf cs = bounded_history.push_all
       (\<lambda>c b. update_coord_buffer pf b (co_x c) (co_y c) (co_timeStamp c)) cs" by (rule ext)
  then show ?case by simp
qed simp

lemmas record_all_defined = cb.push_all_defined [folded record_all_push_all]
lemmas record_all_contents = cb_exact.push_all_contents [folded record_all_push_all]

end
