(* ===== verification/Touch_Event.thy ===== *)
theory Touch_Event
  imports Coord_Buffer
begin

text \<open>
  Raw input events (\<open>input_event_t\<close> of touchpanel_gestures.h) and touchpanel_common.c, which
  fills them in. The numbers of the Linux input interface (linux/input.h) are platform
  constants, as \<open>INT_MAX\<close> is.
\<close>

section \<open>The Linux input interface\<close>

definition EV_SYN :: u16 where "EV_SYN = 0"
definition EV_KEY :: u16 where "EV_KEY = 1"
definition EV_REL :: u16 where "EV_REL = 2"
definition EV_ABS :: u16 where "EV_ABS = 3"
definition EV_FINGERID :: u16 where "EV_FINGERID = 7"
definition ABS_X :: u16 where "ABS_X = 0"
definition ABS_Y :: u16 where "ABS_Y = 1"
definition REL_WHEEL :: u16 where "REL_WHEEL = 8"
definition BTN_LEFT :: u16 where "BTN_LEFT = 0x110"
definition BTN_MIDDLE :: u16 where "BTN_MIDDLE = 0x112"
definition BTN_SIDE :: u16 where "BTN_SIDE = 0x113"
definition BTN_EXTRA :: u16 where "BTN_EXTRA = 0x114"
definition BTN_FORWARD :: u16 where "BTN_FORWARD = 0x115"
definition BTN_BACK :: u16 where "BTN_BACK = 0x116"
definition BTN_TASK :: u16 where "BTN_TASK = 0x117"
definition BTN_TOUCH :: u16 where "BTN_TOUCH = 0x14a"

lemmas input_codes =
  EV_SYN_def EV_KEY_def EV_REL_def EV_ABS_def EV_FINGERID_def ABS_X_def ABS_Y_def REL_WHEEL_def
  BTN_LEFT_def BTN_MIDDLE_def BTN_SIDE_def BTN_EXTRA_def BTN_FORWARD_def BTN_BACK_def
  BTN_TASK_def BTN_TOUCH_def

section \<open>Events\<close>

text \<open>\<open>input_event_t\<close>; the two time words are those of its struct timeval.\<close>

record input_event =
  ev_sec :: int
  ev_usec :: int
  ev_type :: u16
  ev_code :: u16
  ev_value :: int

text \<open>
  \<open>set_event_params\<close>: both pointers may be NULL. The time words move from the event to
  \<open>pTime\<close>, whose second word (\<open>tv_nsec\<close>) receives the event's second word divided by 1000.
\<close>

definition set_event_params ::
  "input_event option \<Rightarrow> time_stamp option \<Rightarrow> u16 \<Rightarrow> u16 \<Rightarrow> int \<Rightarrow>
   input_event option \<times> time_stamp option" where
  "set_event_params pEvent pTime type code value =
     (case (pEvent, pTime) of
        (Some e, Some t) \<Rightarrow>
          (Some (e\<lparr>ev_type := type, ev_code := code, ev_value := value\<rparr>),
           Some (t\<lparr>ts_sec := ev_sec e, ts_nsec := ev_usec e sdiv 1000\<rparr>))
      | _ \<Rightarrow> (pEvent, pTime))"

text \<open>
  \<open>set_event_params(&events[n++], &t, ...)\<close>: a write outside the array is undefined.
\<close>

definition emit ::
  "input_event list \<Rightarrow> nat \<Rightarrow> time_stamp \<Rightarrow> u16 \<Rightarrow> u16 \<Rightarrow> int \<Rightarrow>
   (input_event list \<times> nat \<times> time_stamp) option" where
  "emit events n t type code value =
     (if n < length events
      then (case set_event_params (Some (events ! n)) (Some t) type code value of
              (Some e, Some t') \<Rightarrow> Some (events[n := e], Suc n, t')
            | _ \<Rightarrow> None)
      else None)"

text \<open>What of an event a consumer reads: everything but its time.\<close>

definition payload :: "input_event \<Rightarrow> u16 \<times> u16 \<times> int" where
  "payload e = (ev_type e, ev_code e, ev_value e)"

definition event_time :: "input_event \<Rightarrow> int \<times> int" where
  "event_time e = (ev_sec e, ev_usec e)"

lemma emit_eq:
  "n < length events \<Longrightarrow> emit events n t type code value =
     Some (events[n := (events ! n)\<lparr>ev_type := type, ev_code := code, ev_value := value\<rparr>], Suc n,
           t\<lparr>ts_sec := ev_sec (events ! n), ts_nsec := ev_usec (events ! n) sdiv 1000\<rparr>)"
  by (simp add: emit_def set_event_params_def)

text \<open>
  Writing the payloads \<open>ps\<close> from slot \<open>n\<close> on: they follow what was there before, and the
  array's length and every time word stay as they are.
\<close>

definition writes ::
  "input_event list \<Rightarrow> nat \<Rightarrow> input_event list \<Rightarrow> nat \<Rightarrow> (u16 \<times> u16 \<times> int) list \<Rightarrow> bool" where
  "writes events n events' n' ps \<longleftrightarrow>
     length events' = length events \<and> n' = n + length ps \<and>
     map payload (take n' events') = map payload (take n events) @ ps \<and>
     map event_time events' = map event_time events"

lemma writes_refl [simp]: "writes events n events n []"
  by (simp add: writes_def)

lemma writes_trans:
  "writes e0 n0 e1 n1 ps \<Longrightarrow> writes e1 n1 e2 n2 qs \<Longrightarrow> writes e0 n0 e2 n2 (ps @ qs)"
  by (auto simp: writes_def add.assoc [symmetric])

lemma writes_length: "writes e0 n0 e1 n1 ps \<Longrightarrow> length e1 = length e0 \<and> n1 = n0 + length ps"
  by (simp add: writes_def)

lemma writes_payloads:
  "writes e0 n0 e1 n1 ps \<Longrightarrow> map payload (take n1 e1) = map payload (take n0 e0) @ ps"
  unfolding writes_def by blast

lemma writes_payloads_0: "writes e0 0 e1 n1 ps \<Longrightarrow> map payload (take n1 e1) = ps"
  by (drule writes_payloads) simp

lemma writes_prefix:
  assumes "writes e0 n0 e1 n1 ps" "n0 \<le> length e0"
  shows "map payload (take n0 e1) = map payload (take n0 e0)"
proof -
  have w: "map payload (take n1 e1) = map payload (take n0 e0) @ ps" and n: "n0 \<le> n1"
    using assms(1) by (auto simp: writes_def)
  have "map payload (take n0 e1) = take n0 (map payload (take n1 e1))"
    using n by (simp add: take_map min_absorb1)
  also have "\<dots> = map payload (take n0 e0)"
    using assms(2) by (simp add: w min_absorb2)
  finally show ?thesis .
qed

lemma emit_writes:
  assumes "n < length events"
  obtains events' t' where "emit events n t type code value = Some (events', Suc n, t')"
    "writes events n events' (Suc n) [(type, code, value)]"
proof -
  let ?e = "(events ! n)\<lparr>ev_type := type, ev_code := code, ev_value := value\<rparr>"
  have "writes events n (events[n := ?e]) (Suc n) [(type, code, value)]"
    using assms
    by (simp add: writes_def take_Suc_conv_app_nth payload_def map_update event_time_def
        list_update_same_conv)
  with emit_eq [OF assms] show ?thesis by (rule that)
qed

end
