(* ===== verification/Gestures.thy ===== *)
theory Gestures
  imports Touch_Event
begin

text \<open>
  touchpanel_gestures.c: tracking fingers from one scan of the panel to the next and turning
  the changes into input events. A result \<open>None\<close> is undefined behaviour of the C code: a
  signed overflow, an access outside an array, a NULL or dangling pointer.
\<close>

section \<open>Data\<close>

datatype gesture_state =
    UNUSED
  | START_STATE
  | FINGER_DOWN_STATE
  | FINGER_DOWN_AFTER_QUICK_LAUNCH

record gesture_state_data =
  gs_state :: gesture_state
  gs_startX :: int
  gs_startY :: int
  insideTapRadius :: bool
  startTime :: time_stamp

text \<open>
  \<open>finger_t\<close>. Its \<open>events\<close> pointer is always the array the caller passes, which is an
  argument here.
\<close>

record finger =
  coords :: coord_buf
  f_timestamp :: time_stamp
  f_id :: u32
  f_state :: gesture_state_data
  minDist :: int
  minDistId :: int
  lastWeight :: int
  f_numEvents :: nat

text \<open>\<open>general_settings_t\<close>.\<close>

record general_settings =
  coordBufSize :: int
  fingerDownThreshold :: int
  positionFilter :: int

text \<open>
  The file's static variables. The fingers are here values in lists; \<open>sFingers_freed\<close> stands for
  a pointer \<open>sFingers\<close> to a list node that \<open>deinit_gesture_state_machine\<close> freed. Gesture_Memory has the
  same operations with nodes, blocks and pointers, and Gesture_Memory_Safety shows that
  they agree with these, the flag included.
\<close>

record gsm =
  sFingers :: "finger list"
  sFingers_freed :: bool
  availableFingers :: "finger list"
  curFingerId :: u32
  spGeneralSettings :: "general_settings option"

definition gsm_start :: gsm where
  "gsm_start = \<lparr>sFingers = [], sFingers_freed = False, availableFingers = [], curFingerId = 0,
     spGeneralSettings = None\<rparr>"

section \<open>Starting and stopping\<close>

text \<open>
  One round of the loop of \<open>init_gesture_state_machine\<close>: \<open>fmem\<close> is what the malloc of the
  finger returns (NULL, or a struct of unknown contents), \<open>cmem\<close> what the malloc of its
  coordinates returns. The result of \<open>create_coord_buffer\<close> is not looked at.
\<close>

definition init_finger ::
  "finger option \<Rightarrow> coord list option \<Rightarrow> int \<Rightarrow> finger option" where
  "init_finger fmem cmem bufSize =
     (case fmem of
        None \<Rightarrow> None
      | Some f \<Rightarrow>
          (case create_coord_buffer cmem (Some (coords f)) bufSize of
             (_, Some b) \<Rightarrow> Some (f\<lparr>coords := b, f_state := (f_state f)\<lparr>gs_state := UNUSED\<rparr>\<rparr>)
           | (_, None) \<Rightarrow> None))"

fun init_fingers ::
  "(nat \<Rightarrow> finger option) \<Rightarrow> (nat \<Rightarrow> coord list option) \<Rightarrow> int \<Rightarrow> nat \<Rightarrow> finger list option" where
  "init_fingers fmem cmem bufSize 0 = Some []"
| "init_fingers fmem cmem bufSize (Suc i) = do {
     fs \<leftarrow> init_fingers fmem cmem bufSize i;
     f \<leftarrow> init_finger (fmem i) (cmem i) bufSize;
     Some (fs @ [f]) }"

definition init_gesture_state_machine ::
  "(nat \<Rightarrow> finger option) \<Rightarrow> (nat \<Rightarrow> coord list option) \<Rightarrow> general_settings \<Rightarrow> int \<Rightarrow> gsm \<Rightarrow>
   gsm option" where
  "init_gesture_state_machine fmem cmem pGeneralSettings maxFingers s = do {
     n \<leftarrow> i32 (maxFingers * 2);
     fs \<leftarrow> init_fingers fmem cmem (coordBufSize pGeneralSettings) (nat n);
     Some (s\<lparr>spGeneralSettings := Some pGeneralSettings,
             availableFingers := availableFingers s @ fs\<rparr>) }"

text \<open>
  Both lists are freed. The queue is emptied, but the list is walked with a local variable:
  \<open>sFingers\<close> keeps pointing to its first node.
\<close>

definition deinit_gesture_state_machine :: "gsm \<Rightarrow> gsm option" where
  "deinit_gesture_state_machine s =
     (if sFingers_freed s then None
      else Some (s\<lparr>availableFingers := [], sFingers_freed := (sFingers s \<noteq> [])\<rparr>))"

section \<open>New fingers\<close>

definition reset_state_data :: "gesture_state_data \<Rightarrow> gesture_state_data" where
  "reset_state_data d = d\<lparr>gs_state := START_STATE, insideTapRadius := True\<rparr>"

definition add_new_finger :: "int \<Rightarrow> int \<Rightarrow> int \<Rightarrow> time_stamp \<Rightarrow> gsm \<Rightarrow> gsm option" where
  "add_new_finger x y weight pCurTime s =
     (case availableFingers s of
        [] \<Rightarrow> Some s
      | f # rest \<Rightarrow> do {
          g \<leftarrow> spGeneralSettings s;
          b \<leftarrow> update_coord_buffer (positionFilter g) (reset_coord_buffer (coords f)) x y pCurTime;
          Some (s\<lparr>availableFingers := rest,
                  sFingers := f\<lparr>f_state := reset_state_data (f_state f), f_id := curFingerId s,
                                f_timestamp := pCurTime, minDist := 0, minDistId := 0,
                                lastWeight := weight, coords := b\<rparr> # sFingers s,
                  curFingerId := curFingerId s + 1\<rparr>) })"

section \<open>Matching touches with known fingers\<close>

text \<open>\<open>dx * dx + dy * dy\<close> on ints.\<close>

definition sq_dist :: "int \<Rightarrow> int \<Rightarrow> int \<Rightarrow> int \<Rightarrow> int option" where
  "sq_dist x y xPrev yPrev = do {
     dx \<leftarrow> i32 (x - xPrev);
     dy \<leftarrow> i32 (y - yPrev);
     dx2 \<leftarrow> i32 (dx * dx);
     dy2 \<leftarrow> i32 (dy * dy);
     i32 (dx2 + dy2) }"

text \<open>
  The inner loop: \<open>best\<close> is the local \<open>minDist\<close>, \<open>minId\<close> the position of the list node
  found so far, \<open>i\<close> the position of the next one.
\<close>

fun match_scan ::
  "int list \<Rightarrow> int list \<Rightarrow> nat \<Rightarrow> finger list \<Rightarrow> nat \<Rightarrow> nat option \<Rightarrow> int \<Rightarrow> (nat option \<times> int) option" where
  "match_scan xs ys j [] i minId best = Some (minId, best)"
| "match_scan xs ys j (f # fs) i minId best = do {
     p \<leftarrow> get_last_coords (coords f);
     x \<leftarrow> arr_get xs (int j);
     y \<leftarrow> arr_get ys (int j);
     dist \<leftarrow> sq_dist x y (co_x p) (co_y p);
     if minDist f < dist then match_scan xs ys j fs (Suc i) minId best
     else if dist < best then match_scan xs ys j fs (Suc i) (Some i) dist
     else match_scan xs ys j fs (Suc i) minId best }"

text \<open>The first loop of \<open>gesture_state_machine\<close>, over the indices of the touches.\<close>

fun match_fingers ::
  "int list \<Rightarrow> int list \<Rightarrow> nat list \<Rightarrow> finger list \<Rightarrow> finger list option" where
  "match_fingers xs ys [] fs = Some fs"
| "match_fingers xs ys (j # js) fs = do {
     (minId, best) \<leftarrow> match_scan xs ys j fs 0 None INT_MAX;
     match_fingers xs ys js
       (case minId of
          None \<Rightarrow> fs
        | Some k \<Rightarrow> fs[k := (fs ! k)\<lparr>minDistId := int j, minDist := best\<rparr>]) }"

text \<open>
  The second loop: matched fingers record their touch, which is then taken out of the pool by
  setting its coordinates to 0.
\<close>

definition update_finger ::
  "general_settings option \<Rightarrow> int list \<Rightarrow> time_stamp \<Rightarrow> finger \<Rightarrow> int list \<Rightarrow> int list \<Rightarrow>
   (finger \<times> int list \<times> int list) option" where
  "update_finger settings ws pCurTime f xs ys =
     (if minDist f = INT_MAX then Some (f, xs, ys)
      else do {
        x \<leftarrow> arr_get xs (minDistId f);
        y \<leftarrow> arr_get ys (minDistId f);
        w \<leftarrow> arr_get ws (minDistId f);
        b \<leftarrow> (if lastWeight f sdiv 2 < w
             then do { g \<leftarrow> settings;
                       update_coord_buffer (positionFilter g) (coords f) x y pCurTime }
             else Some (coords f));
        ys' \<leftarrow> arr_set ys (minDistId f) 0;
        xs' \<leftarrow> arr_set xs (minDistId f) 0;
        Some (f\<lparr>coords := b, lastWeight := w, minDist := 0, minDistId := 0\<rparr>, xs', ys') })"

fun update_matched ::
  "general_settings option \<Rightarrow> int list \<Rightarrow> time_stamp \<Rightarrow> finger list \<Rightarrow> int list \<Rightarrow> int list \<Rightarrow>
   (finger list \<times> int list \<times> int list) option" where
  "update_matched settings ws pCurTime [] xs ys = Some ([], xs, ys)"
| "update_matched settings ws pCurTime (f # fs) xs ys = do {
     (f', xs', ys') \<leftarrow> update_finger settings ws pCurTime f xs ys;
     (fs', xs'', ys'') \<leftarrow> update_matched settings ws pCurTime fs xs' ys';
     Some (f' # fs', xs'', ys'') }"

text \<open>
  The third loop: touches that are left over become new fingers. Their time stamps are set
  \<open>timestmpcnt\<close> nanoseconds apart.
\<close>

fun add_unmatched ::
  "int list \<Rightarrow> int list \<Rightarrow> int list \<Rightarrow> time_stamp \<Rightarrow> nat list \<Rightarrow> int \<Rightarrow> gsm \<Rightarrow> gsm option" where
  "add_unmatched xs ys ws pCurTime [] timestmpcnt s = Some s"
| "add_unmatched xs ys ws pCurTime (j # js) timestmpcnt s = do {
     x \<leftarrow> arr_get xs (int j);
     y \<leftarrow> arr_get ys (int j);
     if x = 0 \<and> y = 0 then add_unmatched xs ys ws pCurTime js timestmpcnt s
     else do {
       w \<leftarrow> arr_get ws (int j);
       g \<leftarrow> spGeneralSettings s;
       if w < fingerDownThreshold g then add_unmatched xs ys ws pCurTime js timestmpcnt s
       else do {
         ns \<leftarrow> i32 (ts_nsec pCurTime + timestmpcnt);
         cnt \<leftarrow> i32 (timestmpcnt + 1000000);
         s' \<leftarrow> add_new_finger x y w (pCurTime\<lparr>ts_nsec := ns\<rparr>) s;
         add_unmatched xs ys ws pCurTime js cnt s' } } }"

section \<open>Events\<close>

text \<open>
  \<open>gesture_state_machine_finger\<close>. The local \<open>timestamp\<close> is what \<open>set_event_params\<close> makes of
  it, and that is also what \<open>startTime\<close> records.
\<close>

definition gesture_state_machine_finger ::
  "finger \<Rightarrow> input_event list \<Rightarrow> nat \<Rightarrow> (int \<times> finger \<times> input_event list \<times> nat) option" where
  "gesture_state_machine_finger f events numEvents = do {
     p \<leftarrow> get_last_coords (coords f);
     let x = co_x p; let y = co_y p;
     (ev1, n1, t1) \<leftarrow> emit events numEvents (co_timeStamp p) EV_FINGERID 0 (sint (f_id f));
     (f2, ev2, n2, t2) \<leftarrow>
       (case gs_state (f_state f) of
          START_STATE \<Rightarrow> do {
            (ev, n, t) \<leftarrow> emit ev1 n1 t1 EV_KEY BTN_TOUCH 1;
            Some (f\<lparr>f_state := (f_state f)\<lparr>gs_startX := x, gs_startY := y, startTime := t1,
                                            gs_state := FINGER_DOWN_STATE\<rparr>\<rparr>, ev, n, t) }
        | FINGER_DOWN_STATE \<Rightarrow> Some (f, ev1, n1, t1)
        | FINGER_DOWN_AFTER_QUICK_LAUNCH \<Rightarrow> Some (f, ev1, n1, t1)
        | UNUSED \<Rightarrow> Some (f, ev1, n1, t1));
     (ev3, n3, t3) \<leftarrow> emit ev2 n2 t2 EV_ABS ABS_X x;
     (ev4, n4, t4) \<leftarrow> emit ev3 n3 t3 EV_ABS ABS_Y y;
     if 0 < minDist f then do {
       (ev5, n5, t5) \<leftarrow> emit ev4 n4 t4 EV_KEY BTN_TOUCH 0;
       Some (-1, f2\<lparr>f_numEvents := n5\<rparr>, ev5, n5) }
     else Some (0, f2\<lparr>f_numEvents := n4, minDist := INT_MAX\<rparr>, ev4, n4) }"

text \<open>
  The last loop: a finger whose step returns -1 leaves \<open>sFingers\<close> for the end of the queue
  of free fingers. The result lists the fingers that stay and the ones that leave.
\<close>

fun process_fingers ::
  "finger list \<Rightarrow> input_event list \<Rightarrow> nat \<Rightarrow>
   (finger list \<times> finger list \<times> input_event list \<times> nat) option" where
  "process_fingers [] events numEvents = Some ([], [], events, numEvents)"
| "process_fingers (f # fs) events numEvents = do {
     (r, f', ev1, n1) \<leftarrow> gesture_state_machine_finger f events numEvents;
     (stay, leave, ev2, n2) \<leftarrow> process_fingers fs ev1 n1;
     Some (if r = -1
           then (stay, f'\<lparr>f_state := (f_state f')\<lparr>gs_state := UNUSED\<rparr>\<rparr> # leave, ev2, n2)
           else (f' # stay, leave, ev2, n2)) }"

section \<open>One scan\<close>

text \<open>
  The result also holds the caller's arrays and time stamp, which the code overwrites.
\<close>

definition gesture_state_machine ::
  "int list \<Rightarrow> int list \<Rightarrow> int list \<Rightarrow> nat \<Rightarrow> time_stamp \<Rightarrow> input_event list \<Rightarrow> nat \<Rightarrow> gsm \<Rightarrow>
   (gsm \<times> int list \<times> int list \<times> time_stamp \<times> input_event list \<times> nat) option" where
  "gesture_state_machine pXCoords pYCoords pFingerWeights numFingers pCurTime events numEvents s =
     (if sFingers_freed s then None else do {
        fs1 \<leftarrow> match_fingers pXCoords pYCoords [0..<numFingers] (sFingers s);
        (fs2, xs, ys) \<leftarrow> update_matched (spGeneralSettings s) pFingerWeights pCurTime fs1
                           pXCoords pYCoords;
        s3 \<leftarrow> add_unmatched xs ys pFingerWeights pCurTime
                [0..<numFingers] 0 (s\<lparr>sFingers := fs2\<rparr>);
        (stay, leave, ev, n) \<leftarrow> process_fingers (sFingers s3) events numEvents;
        let s4 = s3\<lparr>sFingers := stay, availableFingers := availableFingers s3 @ leave\<rparr>;
        if 0 < n then do {
          (ev', n', t') \<leftarrow> emit ev n pCurTime EV_SYN 0 0;
          Some (s4, xs, ys, t', ev', n') }
        else Some (s4, xs, ys, pCurTime, ev, n) })"

end
