(* ===== verification/Gesture_Memory.thy ===== *)
theory Gesture_Memory
  imports Gestures
begin

text \<open>
  The memory of the fingers. touchpanel_gestures.c keeps a finger in a block of its own, its
  coordinates in another one, and the fingers that are down in a list of nodes; the model of the other theories
  has the fingers themselves in two lists. Here the operations are modelled with blocks, nodes and
  pointers: following a pointer to what is not allocated, and freeing it, are not defined.
\<close>

section \<open>State\<close>

text \<open>
  A node of a GList has its data, a pointer to a finger, and the next node. A GQueue is the list of
  its data. The contents of the coordinate array in a finger are those of its array block, NULL if
  there is none. Allocating and freeing a list node, by GLib, and the memory of each kind of block
  are taken as GLib and C document them: an address is a key of the map of its kind while it is allocated.
\<close>

record finger_memory =
  gm_sFingers :: ptr
  gm_availableFingers :: "ptr list"
  gm_curFingerId :: u32
  gm_spGeneralSettings :: "general_settings option"
  gm_nodes :: "ptr \<rightharpoonup> ptr \<times> ptr"
  gm_fingers :: "ptr \<rightharpoonup> finger \<times> ptr"
  gm_arrays :: "ptr \<rightharpoonup> coord list"

definition gm_start :: finger_memory where
  "gm_start = \<lparr>gm_sFingers = NULL, gm_availableFingers = [], gm_curFingerId = 0, gm_spGeneralSettings = None,
     gm_nodes = Map.empty, gm_fingers = Map.empty, gm_arrays = Map.empty\<rparr>"

definition set_array :: "coord list option \<Rightarrow> finger \<Rightarrow> finger" where
  "set_array a f = f\<lparr>coords := (coords f)\<lparr>pCoords := a\<rparr>\<rparr>"

definition load_finger :: "finger_memory \<Rightarrow> ptr \<Rightarrow> finger option" where
  "load_finger m p = do {
     (f, a) \<leftarrow> gm_fingers m p;
     if a = NULL then Some (set_array None f)
     else do { cs \<leftarrow> gm_arrays m a; Some (set_array (Some cs) f) } }"

definition store_finger :: "ptr \<Rightarrow> finger \<Rightarrow> finger_memory \<Rightarrow> finger_memory option" where
  "store_finger p f m = do {
     (_, a) \<leftarrow> gm_fingers m p;
     Some (m\<lparr>gm_fingers := (gm_fingers m)(p \<mapsto> (f, a)),
             gm_arrays := (case pCoords (coords f) of None \<Rightarrow> gm_arrays m | Some cs \<Rightarrow> (gm_arrays m)(a \<mapsto> cs))\<rparr>) }"

section \<open>Lists\<close>

text \<open>The nodes of a list, from \<open>l\<close> on.\<close>

partial_function (option) list_nodes :: "(ptr \<rightharpoonup> ptr \<times> ptr) \<Rightarrow> ptr \<Rightarrow> ptr list option" where
  "list_nodes nodes l =
     (if l = NULL then Some []
      else do { (_, next) \<leftarrow> nodes l; ns \<leftarrow> list_nodes nodes next; Some (l # ns) })"

text \<open>\<open>g_list_prepend\<close> writes to the first node; \<open>n\<close> is the new node.\<close>

definition g_list_prepend :: "ptr \<Rightarrow> ptr \<Rightarrow> ptr \<Rightarrow> (ptr \<rightharpoonup> ptr \<times> ptr) \<Rightarrow> (ptr \<times> (ptr \<rightharpoonup> ptr \<times> ptr)) option" where
  "g_list_prepend n l d nodes = (if l \<noteq> NULL \<and> nodes l = None then None else Some (n, nodes(n \<mapsto> (d, l))))"

text \<open>\<open>g_list_remove\<close> frees the first node with the data \<open>d\<close>; \<open>ns\<close> are the nodes from \<open>l\<close> on.\<close>

fun remove_node :: "(ptr \<rightharpoonup> ptr \<times> ptr) \<Rightarrow> ptr \<Rightarrow> ptr list \<Rightarrow> ptr \<Rightarrow> (ptr \<times> (ptr \<rightharpoonup> ptr \<times> ptr)) option" where
  "remove_node nodes l [] d = Some (l, nodes)"
| "remove_node nodes l (n # ns) d = do {
     (d', next) \<leftarrow> nodes n;
     if d' = d then Some (next, nodes(n := None))
     else do {
       (next', nodes') \<leftarrow> remove_node nodes next ns d;
       Some (l, nodes'(n \<mapsto> (d', next'))) } }"

definition g_list_remove :: "ptr \<Rightarrow> ptr \<Rightarrow> (ptr \<rightharpoonup> ptr \<times> ptr) \<Rightarrow> (ptr \<times> (ptr \<rightharpoonup> ptr \<times> ptr)) option" where
  "g_list_remove l d nodes = do { ns \<leftarrow> list_nodes nodes l; remove_node nodes l ns d }"

section \<open>Starting and stopping\<close>

text \<open>\<open>fmem\<close>, \<open>cmem\<close>: the results of malloc, addresses and contents.\<close>

definition mem_init_finger ::
  "(ptr \<times> finger) option \<Rightarrow> (ptr \<times> coord list) option \<Rightarrow> int \<Rightarrow> finger_memory \<Rightarrow> finger_memory option" where
  "mem_init_finger fmem cmem bufSize m = do {
     (p, _) \<leftarrow> fmem;
     f \<leftarrow> init_finger (map_option snd fmem) (map_option snd cmem) bufSize;
     Some (m\<lparr>gm_fingers := (gm_fingers m)(p \<mapsto> (f, case cmem of None \<Rightarrow> NULL | Some (a, _) \<Rightarrow> a)),
             gm_arrays := (case cmem of None \<Rightarrow> gm_arrays m | Some (a, cs) \<Rightarrow> (gm_arrays m)(a \<mapsto> cs)),
             gm_availableFingers := gm_availableFingers m @ [p]\<rparr>) }"

fun mem_init_fingers ::
  "(nat \<Rightarrow> (ptr \<times> finger) option) \<Rightarrow> (nat \<Rightarrow> (ptr \<times> coord list) option) \<Rightarrow> int \<Rightarrow> nat \<Rightarrow> finger_memory \<Rightarrow>
   finger_memory option" where
  "mem_init_fingers fmem cmem bufSize 0 m = Some m"
| "mem_init_fingers fmem cmem bufSize (Suc i) m = do {
     m1 \<leftarrow> mem_init_fingers fmem cmem bufSize i m;
     mem_init_finger (fmem i) (cmem i) bufSize m1 }"

definition mem_init_gesture_state_machine ::
  "(nat \<Rightarrow> (ptr \<times> finger) option) \<Rightarrow> (nat \<Rightarrow> (ptr \<times> coord list) option) \<Rightarrow> general_settings \<Rightarrow> int \<Rightarrow>
   finger_memory \<Rightarrow> finger_memory option" where
  "mem_init_gesture_state_machine fmem cmem pGeneralSettings maxFingers m = do {
     n \<leftarrow> i32 (maxFingers * 2);
     mem_init_fingers fmem cmem (coordBufSize pGeneralSettings) (nat n)
       (m\<lparr>gm_spGeneralSettings := Some pGeneralSettings\<rparr>) }"

definition free_coord_buffer :: "ptr \<Rightarrow> finger_memory \<Rightarrow> finger_memory option" where
  "free_coord_buffer a m =
     (if a = NULL then Some m
      else if gm_arrays m a = None then None
      else Some (m\<lparr>gm_arrays := (gm_arrays m)(a := None)\<rparr>))"

text \<open>The coordinates of a finger are freed, and then the finger.\<close>

definition free_finger_block :: "ptr \<Rightarrow> finger_memory \<Rightarrow> finger_memory option" where
  "free_finger_block p m = do {
     (_, a) \<leftarrow> gm_fingers m p;
     m1 \<leftarrow> free_coord_buffer a m;
     Some (m1\<lparr>gm_fingers := (gm_fingers m1)(p := None)\<rparr>) }"

fun mem_free_queue :: "ptr list \<Rightarrow> finger_memory \<Rightarrow> finger_memory option" where
  "mem_free_queue [] m = Some (m\<lparr>gm_availableFingers := []\<rparr>)"
| "mem_free_queue (p # ps) m = Option.bind (free_finger_block p m) (mem_free_queue ps)"

text \<open>
  \<open>g_list_remove(l, l->data)\<close> frees the first node, and gives the next one. The finger of the node is
  freed just after it in the code; nothing is read in between.
\<close>

partial_function (option) mem_free_list :: "ptr \<Rightarrow> finger_memory \<Rightarrow> finger_memory option" where
  "mem_free_list l m =
     (if l = NULL then Some m
      else do {
        (d, next) \<leftarrow> gm_nodes m l;
        m1 \<leftarrow> (if d = NULL then Some m else free_finger_block d m);
        mem_free_list next (m1\<lparr>gm_nodes := (gm_nodes m1)(l := None)\<rparr>) })"

definition mem_deinit_gesture_state_machine :: "finger_memory \<Rightarrow> finger_memory option" where
  "mem_deinit_gesture_state_machine m = do {
     m1 \<leftarrow> mem_free_queue (gm_availableFingers m) m;
     mem_free_list (gm_sFingers m1) m1 }"

section \<open>One scan\<close>

text \<open>\<open>new\<close>: where a new node is allocated.\<close>

definition mem_add_new_finger ::
  "(finger_memory \<Rightarrow> ptr) \<Rightarrow> int \<Rightarrow> int \<Rightarrow> int \<Rightarrow> time_stamp \<Rightarrow> finger_memory \<Rightarrow> finger_memory option" where
  "mem_add_new_finger new x y weight pCurTime m =
     (case gm_availableFingers m of
        [] \<Rightarrow> Some m
      | p # rest \<Rightarrow> do {
          f \<leftarrow> load_finger m p;
          g \<leftarrow> gm_spGeneralSettings m;
          b \<leftarrow> update_coord_buffer (positionFilter g) (reset_coord_buffer (coords f)) x y pCurTime;
          m1 \<leftarrow> store_finger p (f\<lparr>f_state := reset_state_data (f_state f), f_id := gm_curFingerId m,
                  f_timestamp := pCurTime, minDist := 0, minDistId := 0, lastWeight := weight, coords := b\<rparr>) m;
          (l, nodes) \<leftarrow> g_list_prepend (new m1) (gm_sFingers m1) p (gm_nodes m1);
          Some (m1\<lparr>gm_availableFingers := rest, gm_curFingerId := gm_curFingerId m + 1, gm_sFingers := l, gm_nodes := nodes\<rparr>) })"

fun mem_add_unmatched ::
  "(finger_memory \<Rightarrow> ptr) \<Rightarrow> int list \<Rightarrow> int list \<Rightarrow> int list \<Rightarrow> time_stamp \<Rightarrow> nat list \<Rightarrow> int \<Rightarrow> finger_memory \<Rightarrow>
   finger_memory option" where
  "mem_add_unmatched new xs ys ws pCurTime [] timestmpcnt m = Some m"
| "mem_add_unmatched new xs ys ws pCurTime (j # js) timestmpcnt m = do {
     x \<leftarrow> arr_get xs (int j);
     y \<leftarrow> arr_get ys (int j);
     if x = 0 \<and> y = 0 then mem_add_unmatched new xs ys ws pCurTime js timestmpcnt m
     else do {
       w \<leftarrow> arr_get ws (int j);
       g \<leftarrow> gm_spGeneralSettings m;
       if w < fingerDownThreshold g then mem_add_unmatched new xs ys ws pCurTime js timestmpcnt m
       else do {
         ns \<leftarrow> i32 (ts_nsec pCurTime + timestmpcnt);
         cnt \<leftarrow> i32 (timestmpcnt + 1000000);
         m' \<leftarrow> mem_add_new_finger new x y w (pCurTime\<lparr>ts_nsec := ns\<rparr>) m;
         mem_add_unmatched new xs ys ws pCurTime js cnt m' } } }"

text \<open>The fingers of the nodes, read and written through their pointers.\<close>

fun load_list :: "finger_memory \<Rightarrow> ptr list \<Rightarrow> finger list option" where
  "load_list m [] = Some []"
| "load_list m (n # ns) = do {
     (p, _) \<leftarrow> gm_nodes m n;
     f \<leftarrow> load_finger m p;
     fs \<leftarrow> load_list m ns;
     Some (f # fs) }"

fun store_list :: "ptr list \<Rightarrow> finger list \<Rightarrow> finger_memory \<Rightarrow> finger_memory option" where
  "store_list (n # ns) (f # fs) m = do {
     (p, _) \<leftarrow> gm_nodes m n;
     m1 \<leftarrow> store_finger p f m;
     store_list ns fs m1 }"
| "store_list _ _ m = Some m"

text \<open>The last loop; the next node is read before a node is removed.\<close>

fun mem_process_fingers ::
  "ptr list \<Rightarrow> input_event list \<Rightarrow> nat \<Rightarrow> finger_memory \<Rightarrow> (finger_memory \<times> input_event list \<times> nat) option" where
  "mem_process_fingers [] events numEvents m = Some (m, events, numEvents)"
| "mem_process_fingers (n # ns) events numEvents m = do {
     (p, _) \<leftarrow> gm_nodes m n;
     f \<leftarrow> load_finger m p;
     (r, f', ev1, n1) \<leftarrow> gesture_state_machine_finger f events numEvents;
     m' \<leftarrow> (if r = -1 then do {
              m1 \<leftarrow> store_finger p (f'\<lparr>f_state := (f_state f')\<lparr>gs_state := UNUSED\<rparr>\<rparr>) m;
              (l, nodes) \<leftarrow> g_list_remove (gm_sFingers m1) p (gm_nodes m1);
              Some (m1\<lparr>gm_sFingers := l, gm_nodes := nodes, gm_availableFingers := gm_availableFingers m1 @ [p]\<rparr>) }
            else store_finger p f' m);
     mem_process_fingers ns ev1 n1 m' }"

text \<open>
  The first two loops read and write the fingers of the nodes, and change neither nodes nor queue:
  between reading and writing they are the loops of the model with values.
\<close>

definition mem_gesture_state_machine ::
  "(finger_memory \<Rightarrow> ptr) \<Rightarrow> int list \<Rightarrow> int list \<Rightarrow> int list \<Rightarrow> nat \<Rightarrow> time_stamp \<Rightarrow> input_event list \<Rightarrow> nat \<Rightarrow>
   finger_memory \<Rightarrow> (finger_memory \<times> int list \<times> int list \<times> time_stamp \<times> input_event list \<times> nat) option" where
  "mem_gesture_state_machine new pXCoords pYCoords pFingerWeights numFingers pCurTime events numEvents m = do {
     ns1 \<leftarrow> list_nodes (gm_nodes m) (gm_sFingers m);
     fs \<leftarrow> load_list m ns1;
     fs1 \<leftarrow> match_fingers pXCoords pYCoords [0..<numFingers] fs;
     (fs2, xs, ys) \<leftarrow> update_matched (gm_spGeneralSettings m) pFingerWeights pCurTime fs1 pXCoords pYCoords;
     m1 \<leftarrow> store_list ns1 fs2 m;
     m2 \<leftarrow> mem_add_unmatched new xs ys pFingerWeights pCurTime [0..<numFingers] 0 m1;
     ns2 \<leftarrow> list_nodes (gm_nodes m2) (gm_sFingers m2);
     (m3, ev, n) \<leftarrow> mem_process_fingers ns2 events numEvents m2;
     if 0 < n then do {
       (ev', n', t') \<leftarrow> emit ev n pCurTime EV_SYN 0 0;
       Some (m3, xs, ys, t', ev', n') }
     else Some (m3, xs, ys, pCurTime, ev, n) }"

end
