(* ===== verification/Gesture_Heap.thy ===== *)
theory Gesture_Heap
  imports Gesture_Memory
begin

text \<open>The blocks of the fingers and the list of nodes that leads to them: who owns what, and what each step keeps.\<close>

section \<open>Blocks\<close>

text \<open>Every array belongs to one finger.\<close>

definition pool_ok :: "finger_memory \<Rightarrow> bool" where
  "pool_ok m \<longleftrightarrow> gm_fingers m NULL = None \<and> gm_arrays m NULL = None \<and>
     (\<forall>p f a. gm_fingers m p = Some (f, a) \<and> a \<noteq> NULL \<longrightarrow> gm_arrays m a \<noteq> None) \<and>
     (\<forall>p q f g a. gm_fingers m p = Some (f, a) \<and> gm_fingers m q = Some (g, a) \<and> a \<noteq> NULL \<longrightarrow> p = q) \<and>
     (\<forall>a. gm_arrays m a \<noteq> None \<longrightarrow> (\<exists>p f. gm_fingers m p = Some (f, a)))"

lemma pool_okD:
  assumes "pool_ok m"
  shows "gm_fingers m NULL = None" "gm_arrays m NULL = None"
    and "gm_fingers m p = Some (f, a) \<Longrightarrow> a \<noteq> NULL \<Longrightarrow> gm_arrays m a \<noteq> None"
    and "gm_fingers m p = Some (f, a) \<Longrightarrow> gm_fingers m q = Some (g, a) \<Longrightarrow> a \<noteq> NULL \<Longrightarrow> p = q"
    and "gm_arrays m a \<noteq> None \<Longrightarrow> \<exists>p f. gm_fingers m p = Some (f, a)"
  using assms unfolding pool_ok_def by blast+

lemma pool_okI:
  assumes "gm_fingers m NULL = None" "gm_arrays m NULL = None"
    and "\<And>p f a. gm_fingers m p = Some (f, a) \<Longrightarrow> a \<noteq> NULL \<Longrightarrow> gm_arrays m a \<noteq> None"
    and "\<And>p q f g a. gm_fingers m p = Some (f, a) \<Longrightarrow> gm_fingers m q = Some (g, a) \<Longrightarrow> a \<noteq> NULL \<Longrightarrow> p = q"
    and "\<And>a. gm_arrays m a \<noteq> None \<Longrightarrow> \<exists>p f. gm_fingers m p = Some (f, a)"
  shows "pool_ok m"
  using assms unfolding pool_ok_def by blast

lemma pool_ok_cong: "gm_fingers m' = gm_fingers m \<Longrightarrow> gm_arrays m' = gm_arrays m \<Longrightarrow> pool_ok m' \<longleftrightarrow> pool_ok m"
  by (simp only: pool_ok_def)

lemma load_finger_cong: "gm_fingers m' = gm_fingers m \<Longrightarrow> gm_arrays m' = gm_arrays m \<Longrightarrow> load_finger m' = load_finger m"
  by (simp only: load_finger_def fun_eq_iff simp_thms)

text \<open>All of the memory that is no block.\<close>

definition frame :: "finger_memory \<Rightarrow> ptr \<times> ptr list \<times> u32 \<times> general_settings option \<times> (ptr \<rightharpoonup> ptr \<times> ptr)" where
  "frame m = (gm_sFingers m, gm_availableFingers m, gm_curFingerId m, gm_spGeneralSettings m, gm_nodes m)"

lemma frame_eq: "frame m' = frame m \<longleftrightarrow> gm_sFingers m' = gm_sFingers m \<and> gm_availableFingers m' = gm_availableFingers m \<and>
    gm_curFingerId m' = gm_curFingerId m \<and> gm_spGeneralSettings m' = gm_spGeneralSettings m \<and> gm_nodes m' = gm_nodes m"
  by (auto simp: frame_def)

definition same_array :: "finger \<Rightarrow> finger \<Rightarrow> bool" where
  "same_array f g \<longleftrightarrow> (pCoords (coords f) = None \<longleftrightarrow> pCoords (coords g) = None)"

lemma load_defined:
  assumes "pool_ok m"
  shows "load_finger m p \<noteq> None \<longleftrightarrow> gm_fingers m p \<noteq> None"
  using pool_okD(3) [OF assms] by (fastforce simp: load_finger_def split: if_splits elim!: bind_eq_SomeE)

lemma load_array:
  assumes "load_finger m p = Some f" and "gm_fingers m p = Some (g, a)"
  shows "pCoords (coords f) = (if a = NULL then None else gm_arrays m a)"
  using assms by (auto simp: load_finger_def set_array_def split: if_splits elim!: bind_eq_SomeE)

lemma set_own_array [simp]: "set_array (pCoords (coords f)) f = f"
  by (simp add: set_array_def)

lemma store_ok:
  assumes m: "pool_ok m" and f: "load_finger m p = Some f" and g: "same_array f g"
  obtains m' where "store_finger p g m = Some m'" and "pool_ok m'" and "load_finger m' = (load_finger m)(p \<mapsto> g)"
    and "dom (gm_fingers m') = dom (gm_fingers m)" and "frame m' = frame m"
proof -
  obtain f0 a where p: "gm_fingers m p = Some (f0, a)" using load_defined [OF m, of p] f by auto
  have null: "a = NULL \<longleftrightarrow> pCoords (coords g) = None"
    using load_array [OF f p] pool_okD(3) [OF m p] g by (cases "a = NULL") (auto simp: same_array_def)
  let ?m = "m\<lparr>gm_fingers := (gm_fingers m)(p \<mapsto> (g, a)),
      gm_arrays := (case pCoords (coords g) of None \<Rightarrow> gm_arrays m | Some cs \<Rightarrow> (gm_arrays m)(a \<mapsto> cs))\<rparr>"
  have pool: "pool_ok ?m"
  proof (rule pool_okI)
    show "gm_fingers ?m NULL = None" using pool_okD(1) [OF m] p by (cases "p = NULL") auto
    show "gm_arrays ?m NULL = None" using pool_okD(2) [OF m] null by (auto split: option.split)
    show "gm_arrays ?m b \<noteq> None" if "gm_fingers ?m q = Some (h, b)" "b \<noteq> NULL" for q h b
      using that pool_okD(3) [OF m] p by (auto split: option.split if_splits)
    show "q = r" if "gm_fingers ?m q = Some (h, b)" "gm_fingers ?m r = Some (k, b)" "b \<noteq> NULL" for q r h k b
      using that pool_okD(4) [OF m] p by (auto split: if_splits)
    show "\<exists>q h. gm_fingers ?m q = Some (h, b)" if "gm_arrays ?m b \<noteq> None" for b
    proof (cases "b = a")
      case False
      with that have "gm_arrays m b \<noteq> None" by (auto split: option.splits)
      then obtain q h where "gm_fingers m q = Some (h, b)" using pool_okD(5) [OF m] by blast
      with False p show ?thesis by (intro exI [of _ q]) auto
    qed auto
  qed
  have "load_finger ?m q = ((load_finger m)(p \<mapsto> g)) q" for q
  proof (cases "q = p")
    case True
    have "set_array None g = g" if "pCoords (coords g) = None" using set_own_array [of g] that by simp
    moreover have "set_array (Some cs) g = g" if "pCoords (coords g) = Some cs" for cs using set_own_array [of g] that by simp
    ultimately show ?thesis using True null by (auto simp: load_finger_def split: option.split)
  next
    case False
    then have "fst (q, b) \<noteq> p" for b :: ptr by simp
    moreover have "b \<noteq> a" if "gm_fingers m q = Some (h, b)" "b \<noteq> NULL" for h b
      using pool_okD(4) [OF m p, of q] that False by metis
    ultimately show ?thesis using False
      by (cases "gm_fingers m q") (auto simp: load_finger_def split: option.split)
  qed
  moreover have "store_finger p g m = Some ?m" using p by (simp add: store_finger_def)
  ultimately show ?thesis using pool p by (intro that [of ?m]) (auto simp: frame_eq)
qed

lemma free_block_ok:
  assumes m: "pool_ok m" and p: "p \<in> dom (gm_fingers m)"
  obtains m' where "free_finger_block p m = Some m'" and "pool_ok m'" and "gm_fingers m' = (gm_fingers m)(p := None)"
    and "frame m' = frame m"
proof -
  obtain f a where f: "gm_fingers m p = Some (f, a)" using p by auto
  let ?m = "m\<lparr>gm_arrays := (if a = NULL then gm_arrays m else (gm_arrays m)(a := None)), gm_fingers := (gm_fingers m)(p := None)\<rparr>"
  have "free_finger_block p m = Some ?m"
    using f pool_okD(3) [OF m f] by (cases "a = NULL") (auto simp: free_finger_block_def free_coord_buffer_def)
  moreover have "pool_ok ?m"
  proof (rule pool_okI)
    show "gm_arrays ?m b \<noteq> None" if q: "gm_fingers ?m q = Some (g, b)" "b \<noteq> NULL" for q g b
    proof -
      have "q \<noteq> p" "gm_fingers m q = Some (g, b)" using q(1) by (auto split: if_splits)
      then show ?thesis using pool_okD(3) [OF m, of q g b] pool_okD(4) [OF m f, of q g] q(2) by auto
    qed
    show "\<exists>q g. gm_fingers ?m q = Some (g, b)" if b: "gm_arrays ?m b \<noteq> None" for b
    proof -
      have "gm_arrays m b \<noteq> None" "b \<noteq> a \<or> a = NULL" using b by (auto split: if_splits)
      moreover from this obtain q g where q: "gm_fingers m q = Some (g, b)" using pool_okD(5) [OF m] by blast
      moreover have "q \<noteq> p" using calculation f pool_okD(2) [OF m] by auto
      ultimately show ?thesis by auto
    qed
    show "q = r" if "gm_fingers ?m q = Some (g, b)" "gm_fingers ?m r = Some (h, b)" "b \<noteq> NULL" for q r g h b
      using that pool_okD(4) [OF m] by (auto split: if_splits)
  qed (use pool_okD(1,2) [OF m] in auto)
  ultimately show ?thesis by (intro that [of ?m]) (auto simp: frame_eq)
qed

section \<open>Nodes\<close>

fun list_path :: "(ptr \<rightharpoonup> ptr \<times> ptr) \<Rightarrow> ptr \<Rightarrow> ptr list \<Rightarrow> bool" where
  "list_path nodes l [] \<longleftrightarrow> l = NULL"
| "list_path nodes l (n # ns) \<longleftrightarrow> l = n \<and> n \<noteq> NULL \<and> (\<exists>d next. nodes n = Some (d, next) \<and> list_path nodes next ns)"

definition data_of :: "(ptr \<rightharpoonup> ptr \<times> ptr) \<Rightarrow> ptr \<Rightarrow> ptr" where
  "data_of nodes n = fst (the (nodes n))"

lemma list_nodes_path: "list_path nodes l ns \<Longrightarrow> list_nodes nodes l = Some ns"
  by (induction ns arbitrary: l) (auto simp: list_nodes.simps)

lemma list_nodes_dangling: "l \<noteq> NULL \<Longrightarrow> nodes l = None \<Longrightarrow> list_nodes nodes l = None"
  by (simp add: list_nodes.simps)

lemma list_path_upd [simp]: "n \<notin> set ns \<Longrightarrow> list_path (nodes(n := x)) l ns = list_path nodes l ns"
  by (induction ns arbitrary: l) auto

lemma remove_node_ok:
  assumes "list_path nodes l (d @ n # t)" and "distinct (d @ n # t)" and "\<forall>x \<in> set d. data_of nodes x \<noteq> data_of nodes n"
  obtains l' nodes' where "remove_node nodes l (d @ n # t) (data_of nodes n) = Some (l', nodes')"
    and "list_path nodes' l' (d @ t)" and "dom nodes' = dom nodes - {n}"
    and "\<And>x. x \<noteq> n \<Longrightarrow> data_of nodes' x = data_of nodes x"
proof -
  have "\<exists>l' nodes'. remove_node nodes l (d @ n # t) (data_of nodes n) = Some (l', nodes') \<and>
      list_path nodes' l' (d @ t) \<and> dom nodes' = dom nodes - {n} \<and> (\<forall>x. x \<noteq> n \<longrightarrow> data_of nodes' x = data_of nodes x)"
    using assms
  proof (induction d arbitrary: l)
    case Nil
    then show ?case by (auto simp: data_of_def)
  next
    case (Cons x d)
    from Cons.prems obtain dx nx where x: "nodes x = Some (dx, nx)" "list_path nodes nx (d @ n # t)" "l = x" "x \<noteq> NULL" by auto
    from Cons.IH [OF x(2)] Cons.prems obtain l' nodes' where IH:
      "remove_node nodes nx (d @ n # t) (data_of nodes n) = Some (l', nodes')"
      "list_path nodes' l' (d @ t)" "dom nodes' = dom nodes - {n}" "\<forall>x. x \<noteq> n \<longrightarrow> data_of nodes' x = data_of nodes x" by auto
    have "dx \<noteq> data_of nodes n" using Cons.prems(3) x(1) by (auto simp: data_of_def)
    moreover have "x \<notin> set (d @ t)" "x \<noteq> n" using Cons.prems(2) by auto
    ultimately show ?case using x IH by (auto simp: data_of_def)
  qed
  then show ?thesis using that by blast
qed

section \<open>The whole memory\<close>

text \<open>
  The nodes \<open>ns\<close> lead to the fingers \<open>fs\<close>, the queue to \<open>av\<close>, and there is nothing else.
\<close>

definition shape :: "finger_memory \<Rightarrow> ptr list \<Rightarrow> finger list \<Rightarrow> finger list \<Rightarrow> bool" where
  "shape m ns fs av \<longleftrightarrow> pool_ok m \<and> distinct ns \<and> NULL \<notin> set ns \<and> dom (gm_nodes m) = set ns \<and>
     distinct (map (data_of (gm_nodes m)) ns @ gm_availableFingers m) \<and>
     dom (gm_fingers m) = set (map (data_of (gm_nodes m)) ns @ gm_availableFingers m) \<and>
     map (load_finger m) (map (data_of (gm_nodes m)) ns) = map Some fs \<and>
     map (load_finger m) (gm_availableFingers m) = map Some av"

lemma shapeD:
  assumes "shape m ns fs av"
  shows "pool_ok m" "distinct ns" "NULL \<notin> set ns" "dom (gm_nodes m) = set ns"
    and "distinct (map (data_of (gm_nodes m)) ns @ gm_availableFingers m)"
    and "dom (gm_fingers m) = set (map (data_of (gm_nodes m)) ns @ gm_availableFingers m)"
    and "map (load_finger m) (map (data_of (gm_nodes m)) ns) = map Some fs"
    and "map (load_finger m) (gm_availableFingers m) = map Some av" and "length ns = length fs"
  using assms unfolding shape_def by (auto dest: map_eq_imp_length_eq)

lemma node_data: "n \<in> dom nodes \<Longrightarrow> \<exists>next. nodes n = Some (data_of nodes n, next)"
  by (auto simp: data_of_def)

lemma load_list_ok:
  "set ns \<subseteq> dom (gm_nodes m) \<Longrightarrow> map (load_finger m) (map (data_of (gm_nodes m)) ns) = map Some fs \<Longrightarrow> load_list m ns = Some fs"
proof (induction ns arbitrary: fs)
  case (Cons n ns)
  then obtain next' where "gm_nodes m n = Some (data_of (gm_nodes m) n, next')" using node_data [of n "gm_nodes m"] by auto
  with Cons show ?case by (cases fs) auto
qed simp

text \<open>Writing the finger of a node.\<close>

lemma store_node:
  assumes s: "shape m (ns1 @ n # ns2) (fs1 @ f # fs2) av" and len: "length ns1 = length fs1" and g: "same_array f g"
  obtains m' next' where "gm_nodes m n = Some (data_of (gm_nodes m) n, next')"
    and "load_finger m (data_of (gm_nodes m) n) = Some f" and "store_finger (data_of (gm_nodes m) n) g m = Some m'"
    and "shape m' (ns1 @ n # ns2) (fs1 @ g # fs2) av" and "frame m' = frame m"
proof -
  note D = shapeD [OF s]
  let ?p = "data_of (gm_nodes m) n"
  have "n \<in> dom (gm_nodes m)" using D(4) by simp
  then obtain next' where n: "gm_nodes m n = Some (?p, next')" using node_data by blast
  have split: "map (load_finger m) (map (data_of (gm_nodes m)) ns1) = map Some fs1" "load_finger m ?p = Some f"
    "map (load_finger m) (map (data_of (gm_nodes m)) ns2) = map Some fs2"
    using D(7) len by (simp_all add: append_eq_append_conv)
  obtain m' where m': "store_finger ?p g m = Some m'" "pool_ok m'" "load_finger m' = (load_finger m)(?p \<mapsto> g)"
    "dom (gm_fingers m') = dom (gm_fingers m)" "frame m' = frame m"
    by (rule store_ok [OF D(1) split(2) g])
  have other: "?p \<notin> set (map (data_of (gm_nodes m)) ns1)" "?p \<notin> set (map (data_of (gm_nodes m)) ns2)"
    "?p \<notin> set (gm_availableFingers m)" using D(5) by simp_all
  have upd: "map ((load_finger m)(?p \<mapsto> g)) ps = map (load_finger m) ps" if "?p \<notin> set ps" for ps
    using that by (auto intro!: map_cong)
  have "map (load_finger m') (map (data_of (gm_nodes m)) (ns1 @ n # ns2)) = map Some (fs1 @ g # fs2)"
    "map (load_finger m') (gm_availableFingers m) = map Some av"
    using split D(8) by (simp_all only: m'(3) map_append list.map upd [OF other(1)] upd [OF other(2)] upd [OF other(3)] fun_upd_same)
  then have "shape m' (ns1 @ n # ns2) (fs1 @ g # fs2) av"
    unfolding shape_def using D(2-6) m'(2,4,5) by (simp only: frame_eq simp_thms)
  with that [OF n split(2) m'(1)] m'(5) show ?thesis by blast
qed

lemma store_list_ok:
  assumes "shape m (ns1 @ ns2) (fs1 @ fs2) av" and "length ns1 = length fs1" and "list_all2 same_array fs2 gs"
  obtains m' where "store_list ns2 gs m = Some m'" and "shape m' (ns1 @ ns2) (fs1 @ gs) av" and "frame m' = frame m"
proof -
  have "\<exists>m'. store_list ns2 gs m = Some m' \<and> shape m' (ns1 @ ns2) (fs1 @ gs) av \<and> frame m' = frame m"
    using assms
  proof (induction ns2 arbitrary: ns1 fs1 fs2 gs m)
    case Nil
    then have "fs2 = []" using shapeD(9) [OF Nil.prems(1)] by simp
    with Nil show ?case by simp
  next
    case (Cons n ns)
    then obtain f fs where fs: "fs2 = f # fs" using shapeD(9) [OF Cons.prems(1)] by (cases fs2) auto
    then obtain g gs' where gs: "gs = g # gs'" "same_array f g" "list_all2 same_array fs gs'"
      using Cons.prems(3) by (auto simp: list_all2_Cons1)
    obtain m1 next' where 1: "gm_nodes m n = Some (data_of (gm_nodes m) n, next')"
      "store_finger (data_of (gm_nodes m) n) g m = Some m1" "shape m1 (ns1 @ n # ns) (fs1 @ g # fs) av" "frame m1 = frame m"
      using store_node [OF Cons.prems(1) [unfolded fs] Cons.prems(2) gs(2)] by metis
    from Cons.IH [of m1 "ns1 @ [n]" "fs1 @ [g]" fs gs'] 1(3) Cons.prems(2) gs(3) obtain m2 where
      "store_list ns gs' m1 = Some m2" "shape m2 (ns1 @ n # ns) (fs1 @ g # gs') av" "frame m2 = frame m1" by auto
    with 1 gs(1) show ?case by auto
  qed
  then show ?thesis using that by blast
qed

text \<open>Removing a node, whose finger goes to the queue.\<close>

lemma remove_ok:
  assumes s: "shape m (ns1 @ n # ns2) (fs1 @ f # fs2) av" and len: "length ns1 = length fs1"
    and path: "list_path (gm_nodes m) (gm_sFingers m) (ns1 @ n # ns2)"
  obtains l nodes where "g_list_remove (gm_sFingers m) (data_of (gm_nodes m) n) (gm_nodes m) = Some (l, nodes)"
    and "list_path nodes l (ns1 @ ns2)"
    and "shape (m\<lparr>gm_sFingers := l, gm_nodes := nodes, gm_availableFingers := gm_availableFingers m @ [data_of (gm_nodes m) n]\<rparr>)
      (ns1 @ ns2) (fs1 @ fs2) (av @ [f])"
proof -
  note D = shapeD [OF s]
  have other: "\<forall>x \<in> set ns1. data_of (gm_nodes m) x \<noteq> data_of (gm_nodes m) n"
  proof
    fix x assume "x \<in> set ns1"
    then have "data_of (gm_nodes m) x \<in> set (map (data_of (gm_nodes m)) ns1)" by simp
    with D(5) show "data_of (gm_nodes m) x \<noteq> data_of (gm_nodes m) n" by (simp only: map_append list.map append.simps distinct_append) auto
  qed
  obtain l nodes where r: "remove_node (gm_nodes m) (gm_sFingers m) (ns1 @ n # ns2) (data_of (gm_nodes m) n) = Some (l, nodes)"
    "list_path nodes l (ns1 @ ns2)" "dom nodes = dom (gm_nodes m) - {n}" "\<And>x. x \<noteq> n \<Longrightarrow> data_of nodes x = data_of (gm_nodes m) x"
    by (rule remove_node_ok [OF path D(2) other]) blast
  let ?m = "m\<lparr>gm_sFingers := l, gm_nodes := nodes, gm_availableFingers := gm_availableFingers m @ [data_of (gm_nodes m) n]\<rparr>"
  have n: "n \<notin> set ns1" "n \<notin> set ns2" using D(2) by auto
  then have data: "map (data_of nodes) ns1 = map (data_of (gm_nodes m)) ns1" "map (data_of nodes) ns2 = map (data_of (gm_nodes m)) ns2"
    by (auto intro!: map_cong r(4))
  have split: "map (load_finger m) (map (data_of (gm_nodes m)) ns1) = map Some fs1" "load_finger m (data_of (gm_nodes m) n) = Some f"
    "map (load_finger m) (map (data_of (gm_nodes m)) ns2) = map Some fs2"
    using D(7) len by (simp_all add: append_eq_append_conv)
  have load: "load_finger ?m = load_finger m" by (rule load_finger_cong) simp_all
  have pool: "pool_ok ?m" using D(1) by (simp cong: pool_ok_cong)
  have "shape ?m (ns1 @ ns2) (fs1 @ fs2) (av @ [f])"
    unfolding shape_def load using D(2-6,8) pool split r(3) n
    by (simp add: data)
  with that r(1,2) list_nodes_path [OF path] show ?thesis by (auto simp: g_list_remove_def)
qed

text \<open>A finger of the queue becomes the first one of the list.\<close>

lemma prepend_ok:
  assumes s: "shape m ns fs (f # av)" and path: "list_path (gm_nodes m) (gm_sFingers m) ns" and g: "same_array f g"
    and new: "\<And>m'. gm_nodes m' = gm_nodes m \<Longrightarrow> new m' \<noteq> NULL \<and> gm_nodes m (new m') = None"
  obtains p rest m1 l nodes where "gm_availableFingers m = p # rest" and "load_finger m p = Some f"
    and "store_finger p g m = Some m1" and "frame m1 = frame m"
    and "g_list_prepend (new m1) (gm_sFingers m1) p (gm_nodes m1) = Some (l, nodes)" and "list_path nodes l (l # ns)"
    and "\<And>i. shape (m1\<lparr>gm_availableFingers := rest, gm_curFingerId := i, gm_sFingers := l, gm_nodes := nodes\<rparr>) (l # ns) (g # fs) av"
proof -
  note D = shapeD [OF s]
  obtain p rest where q: "gm_availableFingers m = p # rest" "load_finger m p = Some f" "map (load_finger m) rest = map Some av"
    using D(8) by (cases "gm_availableFingers m") auto
  obtain m1 where m1: "store_finger p g m = Some m1" "pool_ok m1" "load_finger m1 = (load_finger m)(p \<mapsto> g)"
    "dom (gm_fingers m1) = dom (gm_fingers m)" "frame m1 = frame m"
    by (rule store_ok [OF D(1) q(2) g])
  have F: "gm_nodes m1 = gm_nodes m" "gm_sFingers m1 = gm_sFingers m" using m1(5) by (simp_all add: frame_eq)
  let ?l = "new m1"
  have l: "?l \<noteq> NULL" "gm_nodes m ?l = None" "?l \<notin> set ns" using new [OF F(1)] D(4) by auto
  let ?nodes = "(gm_nodes m)(?l \<mapsto> (p, gm_sFingers m))"
  have "gm_sFingers m = NULL \<or> gm_nodes m (gm_sFingers m) \<noteq> None" using path by (cases ns) auto
  then have pre: "g_list_prepend ?l (gm_sFingers m1) p (gm_nodes m1) = Some (?l, ?nodes)" by (auto simp: g_list_prepend_def F)
  have data: "map (data_of ?nodes) ns = map (data_of (gm_nodes m)) ns" "data_of ?nodes ?l = p"
    using l(3) by (auto simp: data_of_def)
  have p: "p \<notin> set (map (data_of (gm_nodes m)) ns)" "p \<notin> set rest" using D(5) q(1) by auto
  have "shape (m1\<lparr>gm_availableFingers := rest, gm_curFingerId := i, gm_sFingers := ?l, gm_nodes := ?nodes\<rparr>) (?l # ns) (g # fs) av"
    (is "shape ?m _ _ _") for i
  proof -
    have "load_finger ?m = load_finger m1" by (rule load_finger_cong) simp_all
    then have load: "load_finger ?m = (load_finger m)(p \<mapsto> g)" using m1(3) by simp
    have pool: "pool_ok ?m" using m1(2) by (simp cong: pool_ok_cong)
    have "map ((load_finger m)(p \<mapsto> g)) (map (data_of (gm_nodes m)) ns) = map Some fs" using D(7) p(1) by (auto simp: list_eq_iff_nth_eq)
    moreover have "map ((load_finger m)(p \<mapsto> g)) rest = map Some av" using q(3) p(2) by (auto simp: list_eq_iff_nth_eq)
    ultimately show ?thesis
      unfolding shape_def load using D(2-6) pool l p m1(4) q(1) by (simp add: data)
  qed
  with that [OF q(1,2) m1(1,5) pre] l path show ?thesis by simp
qed

section \<open>Freeing everything\<close>

lemma free_queue_ok:
  assumes "pool_ok m" and "distinct ps" and "set ps \<subseteq> dom (gm_fingers m)"
  obtains m' where "mem_free_queue ps m = Some m'" and "pool_ok m'" and "dom (gm_fingers m') = dom (gm_fingers m) - set ps"
    and "frame m' = frame (m\<lparr>gm_availableFingers := []\<rparr>)"
proof -
  have "\<exists>m'. mem_free_queue ps m = Some m' \<and> pool_ok m' \<and> dom (gm_fingers m') = dom (gm_fingers m) - set ps \<and>
      frame m' = frame (m\<lparr>gm_availableFingers := []\<rparr>)"
    using assms
  proof (induction ps arbitrary: m)
    case Nil
    then show ?case by (simp add: frame_eq cong: pool_ok_cong)
  next
    case (Cons p ps)
    have "p \<in> dom (gm_fingers m)" using Cons.prems(3) by auto
    then obtain m1 where m1: "free_finger_block p m = Some m1" "pool_ok m1" "gm_fingers m1 = (gm_fingers m)(p := None)" "frame m1 = frame m"
      by (rule free_block_ok [OF Cons.prems(1)])
    have "set ps \<subseteq> dom (gm_fingers m1)" using Cons.prems(2,3) m1(3) by auto
    with Cons.IH [OF m1(2)] Cons.prems(2) obtain m2 where m2: "mem_free_queue ps m1 = Some m2" "pool_ok m2"
      "dom (gm_fingers m2) = dom (gm_fingers m1) - set ps" "frame m2 = frame (m1\<lparr>gm_availableFingers := []\<rparr>)" by auto
    have "dom (gm_fingers m2) = dom (gm_fingers m) - set (p # ps)" unfolding m2(3) m1(3) by auto
    with m1 m2 show ?case by (simp add: frame_eq)
  qed
  then show ?thesis using that by blast
qed

lemma free_list_ok:
  assumes "pool_ok m" and "list_path (gm_nodes m) l ns" and "distinct ns" and "distinct (map (data_of (gm_nodes m)) ns)"
    and "set (map (data_of (gm_nodes m)) ns) \<subseteq> dom (gm_fingers m)"
  obtains m' where "mem_free_list l m = Some m'" and "pool_ok m'"
    and "dom (gm_fingers m') = dom (gm_fingers m) - set (map (data_of (gm_nodes m)) ns)"
    and "dom (gm_nodes m') = dom (gm_nodes m) - set ns"
    and "frame (m'\<lparr>gm_nodes := Map.empty\<rparr>) = frame (m\<lparr>gm_nodes := Map.empty\<rparr>)"
proof -
  have "\<exists>m'. mem_free_list l m = Some m' \<and> pool_ok m' \<and>
      dom (gm_fingers m') = dom (gm_fingers m) - set (map (data_of (gm_nodes m)) ns) \<and>
      dom (gm_nodes m') = dom (gm_nodes m) - set ns \<and> frame (m'\<lparr>gm_nodes := Map.empty\<rparr>) = frame (m\<lparr>gm_nodes := Map.empty\<rparr>)"
    using assms
  proof (induction ns arbitrary: l m)
    case Nil
    then show ?case by (simp add: mem_free_list.simps)
  next
    case (Cons n ns)
    from Cons.prems(2) obtain d next' where n: "gm_nodes m n = Some (d, next')" "list_path (gm_nodes m) next' ns" "l = n" "n \<noteq> NULL"
      by auto
    have d: "data_of (gm_nodes m) n = d" "d \<in> dom (gm_fingers m)" using n(1) Cons.prems(5) by (auto simp: data_of_def)
    have "d \<noteq> NULL" using d(2) pool_okD(1) [OF Cons.prems(1)] by (cases "d = NULL") auto
    obtain m1 where m1: "free_finger_block d m = Some m1" "pool_ok m1" "gm_fingers m1 = (gm_fingers m)(d := None)" "frame m1 = frame m"
      by (rule free_block_ok [OF Cons.prems(1) d(2)])
    let ?m = "m1\<lparr>gm_nodes := (gm_nodes m1)(n := None)\<rparr>"
    have F: "gm_nodes m1 = gm_nodes m" using m1(4) by (simp add: frame_eq)
    have ns: "n \<notin> set ns" "distinct ns" using Cons.prems(3) by auto
    have data: "map (data_of (gm_nodes ?m)) ns = map (data_of (gm_nodes m)) ns" using ns(1) by (auto simp: data_of_def F)
    have pool: "pool_ok ?m" using m1(2) by (simp cong: pool_ok_cong)
    have path: "list_path (gm_nodes ?m) next' ns" using n(2) ns(1) by (simp add: F)
    have "d \<notin> set (map (data_of (gm_nodes m)) ns)" using Cons.prems(4) d(1) by simp
    then have "distinct (map (data_of (gm_nodes ?m)) ns)" "set (map (data_of (gm_nodes ?m)) ns) \<subseteq> dom (gm_fingers ?m)"
      unfolding data using Cons.prems(4,5) m1(3) by (simp, simp add: subset_iff dom_def)
    from Cons.IH [OF pool path ns(2) this] obtain m' where m': "mem_free_list next' ?m = Some m'" "pool_ok m'"
      "dom (gm_fingers m') = dom (gm_fingers ?m) - set (map (data_of (gm_nodes m)) ns)"
      "dom (gm_nodes m') = dom (gm_nodes ?m) - set ns" "frame (m'\<lparr>gm_nodes := Map.empty\<rparr>) = frame (?m\<lparr>gm_nodes := Map.empty\<rparr>)"
      unfolding data by blast
    have "mem_free_list l m = Some m'"
      using n \<open>d \<noteq> NULL\<close> m1(1) m'(1) by (simp add: mem_free_list.simps [of n] F)
    with m' m1 n(3) d(1) F show ?case by (auto simp: frame_eq)
  qed
  then show ?thesis using that by blast
qed

text \<open>No finger, no array.\<close>

lemma empty_pool: "pool_ok m \<Longrightarrow> dom (gm_fingers m) = {} \<Longrightarrow> gm_fingers m = Map.empty \<and> gm_arrays m = Map.empty"
  using pool_okD(5) [of m] by (fastforce simp: fun_eq_iff)

end
