(* ===== verification/Gesture_Scan.thy ===== *)
theory Gesture_Scan
  imports Gesture_Tracking
begin

text \<open>
  A whole scan of the panel: the remaining loops of \<open>gesture_state_machine\<close>, the invariant of
  the tracker's static variables, and the events a scan writes.
\<close>

section \<open>Matched fingers record their touch\<close>

definition touches_ok :: "int list \<Rightarrow> int list \<Rightarrow> int list \<Rightarrow> bool" where
  "touches_ok xs ys ws \<longleftrightarrow>
     length ys = length xs \<and> length ws = length xs \<and>
     (\<forall>v \<in> set xs. panel_coord v) \<and> (\<forall>v \<in> set ys. panel_coord v)"

lemma touches_ok_nth:
  "touches_ok xs ys ws \<Longrightarrow> j < length xs \<Longrightarrow> panel_coord (xs ! j) \<and> panel_coord (ys ! j)"
  by (simp add: touches_ok_def)

lemma touches_ok_clear: "touches_ok xs ys ws \<Longrightarrow> touches_ok (xs[i := 0]) (ys[i := 0]) ws"
  by (auto simp: touches_ok_def panel_coord_def dest!: set_update_subset_insert [THEN subsetD])

text \<open>What the history of a finger becomes when it takes the touch \<open>j\<close>.\<close>

definition absorb_hist ::
  "general_settings \<Rightarrow> int list \<Rightarrow> time_stamp \<Rightarrow> int list \<Rightarrow> int list \<Rightarrow> nat \<Rightarrow> finger \<Rightarrow> coord list" where
  "absorb_hist g ws t xs ys j f =
     (let h = hist (coords f) in
      if lastWeight f sdiv 2 < ws ! j
      then keep_last (nat (cb_size (coords f)))
             (h @ [filtered (positionFilter g) h
                     \<lparr>co_x = xs ! j, co_y = ys ! j, co_timeStamp = t\<rparr>])
      else h)"

definition absorbs ::
  "general_settings \<Rightarrow> int list \<Rightarrow> time_stamp \<Rightarrow> int list \<Rightarrow> int list \<Rightarrow> finger \<Rightarrow> finger \<Rightarrow> bool" where
  "absorbs g ws t xs ys f f' \<longleftrightarrow>
     (if minDist f = INT_MAX then f' = f
      else finger_wf f' \<and> f_id f' = f_id f \<and> f_state f' = f_state f \<and> minDist f' = 0 \<and>
           lastWeight f' = ws ! nat (minDistId f) \<and>
           hist (coords f') = absorb_hist g ws t xs ys (nat (minDistId f)) f)"

lemma filtered_on_panel:
  "on_panel c \<Longrightarrow> (h \<noteq> [] \<Longrightarrow> on_panel (last h)) \<Longrightarrow> on_panel (filtered pf h c)"
  by (auto simp: filtered_def on_panel_def nudge_panel)

lemma update_buffer_finger:
  assumes "cb_wf b" "hist b \<noteq> [] \<Longrightarrow> on_panel (last (hist b))" "panel_coord x" "panel_coord y"
  obtains b' where "update_coord_buffer pf b x y t = Some b'" "cb_wf b'" "hist b' \<noteq> []"
    "on_panel (last (hist b'))" "cb_size b' = cb_size b"
    "hist b' = keep_last (nat (cb_size b))
       (hist b @ [filtered pf (hist b) \<lparr>co_x = x, co_y = y, co_timeStamp = t\<rparr>])"
proof -
  let ?c = "filtered pf (hist b) \<lparr>co_x = x, co_y = y, co_timeStamp = t\<rparr>"
  obtain b' where b': "update_coord_buffer pf b x y t = Some b'" "cb_wf b'" "cb_size b' = cb_size b"
    "hist b' = keep_last (nat (cb_size b)) (hist b @ [?c])"
    using update_coord_buffer_refines [OF assms(1)] by blast
  have "on_panel ?c"
    using assms by (intro filtered_on_panel) (simp_all add: on_panel_def)
  moreover have "0 < nat (cb_size b)" using cb.capacity_pos [OF assms(1)] .
  ultimately show ?thesis using b' by (intro that) simp_all
qed

lemma update_finger_correct:
  assumes f: "finger_wf f" and ok: "touches_ok xs ys ws"
    and m: "minDist f = INT_MAX \<or> (0 \<le> minDistId f \<and> minDistId f < int (length xs))"
  shows "\<exists>f'. absorbs g ws t xs ys f f' \<and>
     update_finger (Some g) ws t f xs ys =
       Some (f', if minDist f = INT_MAX then xs else xs[nat (minDistId f) := 0],
             if minDist f = INT_MAX then ys else ys[nat (minDistId f) := 0])"
proof (cases "minDist f = INT_MAX")
  case True
  then show ?thesis by (simp add: update_finger_def absorbs_def)
next
  case False
  let ?j = "nat (minDistId f)"
  have len: "length ys = length xs" "length ws = length xs" using ok by (auto simp: touches_ok_def)
  have j: "0 \<le> minDistId f" "minDistId f < int (length xs)" using m False by auto
  then have "?j < length xs" by simp
  then have c: "panel_coord (xs ! ?j)" "panel_coord (ys ! ?j)"
    using touches_ok_nth [OF ok] by auto
  have wf: "cb_wf (coords f)" "hist (coords f) \<noteq> [] \<Longrightarrow> on_panel (last (hist (coords f)))"
    using f by (simp_all add: finger_wf_def)
  obtain b where b: "update_coord_buffer (positionFilter g) (coords f) (xs ! ?j) (ys ! ?j) t = Some b"
    "cb_wf b" "hist b \<noteq> []" "on_panel (last (hist b))"
    "hist b = keep_last (nat (cb_size (coords f))) (hist (coords f) @
       [filtered (positionFilter g) (hist (coords f))
          \<lparr>co_x = xs ! ?j, co_y = ys ! ?j, co_timeStamp = t\<rparr>])"
    by (rule update_buffer_finger [OF wf c, of "positionFilter g" t])
  show ?thesis
  proof (cases "lastWeight f sdiv 2 < ws ! ?j")
    case True
    with False b j len f show ?thesis
      by (auto simp: update_finger_def absorbs_def absorb_hist_def finger_wf_def c_ub Let_def)
  next
    case w: False
    with False b j len f show ?thesis
      by (auto simp: update_finger_def absorbs_def absorb_hist_def finger_wf_def c_ub Let_def)
  qed
qed

lemma matching_ConsD:
  assumes "matching xs ys J (f # fs)"
  shows "matching xs ys J fs" "matched_to xs ys J f"
    "g \<in> set fs \<Longrightarrow> minDist f \<noteq> INT_MAX \<Longrightarrow> minDist g \<noteq> INT_MAX \<Longrightarrow> minDistId g \<noteq> minDistId f"
proof -
  note all = assms [unfolded matching_def, THEN conjunct1]
  note inj = assms [unfolded matching_def, THEN conjunct2, rule_format]
  have pair: "minDistId (fs ! k) \<noteq> minDistId (fs ! l)"
    if "k < length fs" "l < length fs" "k \<noteq> l" "minDist (fs ! k) \<noteq> INT_MAX"
      "minDist (fs ! l) \<noteq> INT_MAX" for k l
    using inj [of "Suc k" "Suc l"] that by simp
  show "matching xs ys J fs"
    unfolding matching_def by (intro conjI ballI allI impI; (rule pair; assumption)?)
      (rule bspec [OF all], simp)
  show "matched_to xs ys J f" using all by simp
  assume g: "g \<in> set fs" "minDist f \<noteq> INT_MAX" "minDist g \<noteq> INT_MAX"
  then obtain l where "l < length fs" "g = fs ! l" by (auto simp: in_set_conv_nth)
  with g show "minDistId g \<noteq> minDistId f"
    using inj [of "Suc l" 0] by simp
qed

lemma matching_index:
  "matched_to xs ys {..<n} f \<Longrightarrow>
   minDist f = INT_MAX \<or> (0 \<le> minDistId f \<and> minDistId f < int n)"
  by (auto simp: matched_to_def)

text \<open>The indices the fingers take out of the pool.\<close>

definition taken :: "finger list \<Rightarrow> nat set" where
  "taken fs = (nat \<circ> minDistId) ` {f \<in> set fs. minDist f \<noteq> INT_MAX}"

lemma update_matched_correct:
  assumes "\<forall>f \<in> set fs. finger_wf f" "touches_ok xs ys ws"
    and "matching xs0 ys0 {..<length xs} fs"
    and "\<forall>i \<in> taken fs. xs ! i = xs0 ! i \<and> ys ! i = ys0 ! i"
  shows "\<exists>fs' xs' ys'. update_matched (Some g) ws t fs xs ys = Some (fs', xs', ys') \<and>
     list_all2 (absorbs g ws t xs0 ys0) fs fs' \<and> touches_ok xs' ys' ws \<and> length xs' = length xs \<and>
     (\<forall>i. xs' ! i = (if i \<in> taken fs \<and> i < length xs then 0 else xs ! i)) \<and>
     (\<forall>i. ys' ! i = (if i \<in> taken fs \<and> i < length xs then 0 else ys ! i))"
  using assms
proof (induction fs arbitrary: xs ys)
  case Nil
  then show ?case by (auto simp: taken_def)
next
  case (Cons f fs)
  let ?j = "nat (minDistId f)"
  note m = matching_ConsD [OF Cons.prems(3)]
  have idx: "minDist f = INT_MAX \<or> (0 \<le> minDistId f \<and> minDistId f < int (length xs))"
    using matching_index [OF m(2)] .
  have f: "finger_wf f" and fs: "\<forall>f \<in> set fs. finger_wf f" using Cons.prems(1) by auto
  let ?xs = "if minDist f = INT_MAX then xs else xs[?j := 0]"
  let ?ys = "if minDist f = INT_MAX then ys else ys[?j := 0]"
  obtain f' where f': "absorbs g ws t xs ys f f'"
    and upd: "update_finger (Some g) ws t f xs ys = Some (f', ?xs, ?ys)"
    using update_finger_correct [OF f Cons.prems(2) idx] by blast
  have "absorbs g ws t xs0 ys0 f f'"
    using f' Cons.prems(4)
    by (auto simp: absorbs_def absorb_hist_def taken_def Let_def)
  moreover
  have ok: "touches_ok ?xs ?ys ws" and len: "length ?xs = length xs"
    using Cons.prems(2) touches_ok_clear by auto
  have other: "i \<noteq> ?j" if "i \<in> taken fs" "minDist f \<noteq> INT_MAX" for i
  proof -
    from that(1) obtain h where h: "h \<in> set fs" "minDist h \<noteq> INT_MAX" "i = nat (minDistId h)"
      by (auto simp: taken_def)
    have "matched_to xs0 ys0 {..<length xs} h" using m(1) h(1) by (simp add: matching_def)
    then show ?thesis
      using matching_index m(3) [OF h(1) that(2) h(2)] h idx that(2) by fastforce
  qed
  have tk: "taken (f # fs) = (if minDist f = INT_MAX then taken fs else insert ?j (taken fs))"
    by (auto simp: taken_def)
  have "?xs ! i = xs0 ! i \<and> ?ys ! i = ys0 ! i" if "i \<in> taken fs" for i
    using Cons.prems(4) other [OF that] that
    by (cases "minDist f = INT_MAX") (simp_all add: tk)
  then have "\<forall>i \<in> taken fs. ?xs ! i = xs0 ! i \<and> ?ys ! i = ys0 ! i" by blast
  with Cons.IH [OF fs ok] m(1) len obtain fs' xs' ys' where IH:
    "update_matched (Some g) ws t fs ?xs ?ys = Some (fs', xs', ys')"
    "list_all2 (absorbs g ws t xs0 ys0) fs fs'" "touches_ok xs' ys' ws" "length xs' = length ?xs"
    "\<forall>i. xs' ! i = (if i \<in> taken fs \<and> i < length ?xs then 0 else ?xs ! i)"
    "\<forall>i. ys' ! i = (if i \<in> taken fs \<and> i < length ?xs then 0 else ?ys ! i)"
    by auto
  have "length ys = length xs" using Cons.prems(2) by (simp add: touches_ok_def)
  with IH(5,6) idx have
    "\<forall>i. xs' ! i = (if i \<in> taken (f # fs) \<and> i < length xs then 0 else xs ! i)"
    "\<forall>i. ys' ! i = (if i \<in> taken (f # fs) \<and> i < length xs then 0 else ys ! i)"
    by (auto simp: tk nth_list_update)
  ultimately show ?case using upd IH(1-4) len by simp
qed

section \<open>Touches that are left over become fingers\<close>

definition free_finger :: "finger \<Rightarrow> bool" where
  "free_finger f \<longleftrightarrow> cb_wf (coords f) \<and> gs_state (f_state f) = UNUSED"

definition born :: "finger \<Rightarrow> bool" where
  "born f \<longleftrightarrow> finger_wf f \<and> gs_state (f_state f) = START_STATE \<and> minDist f = 0"

lemma add_new_finger_correct:
  assumes "spGeneralSettings s = Some g" "\<forall>f \<in> set (availableFingers s). free_finger f"
    and "panel_coord x" "panel_coord y" "availableFingers s = f # rest"
  shows "\<exists>f'. add_new_finger x y w t s =
      Some (s\<lparr>availableFingers := rest, sFingers := f' # sFingers s,
              curFingerId := curFingerId s + 1\<rparr>) \<and>
      born f' \<and> f_id f' = curFingerId s \<and> lastWeight f' = w \<and> hist (coords f') = [\<lparr>co_x = x, co_y = y, co_timeStamp = t\<rparr>]"
proof -
  let ?c = "\<lparr>co_x = x, co_y = y, co_timeStamp = t\<rparr>"
  have "cb_wf (coords f)" using assms by (simp add: free_finger_def)
  then obtain b where b: "update_coord_buffer (positionFilter g) (reset_coord_buffer (coords f)) x y t = Some b"
    "cb_wf b" "hist b = [?c]"
    using cb.restart [of "coords f" "positionFilter g" ?c] by (auto simp: filtered_def)
  then show ?thesis
    using assms
    by (auto simp: add_new_finger_def born_def finger_wf_def reset_state_data_def on_panel_def)
qed

text \<open>The touches that the third loop turns into fingers.\<close>

definition fresh_touch :: "general_settings \<Rightarrow> int list \<Rightarrow> int list \<Rightarrow> int list \<Rightarrow> nat \<Rightarrow> bool" where
  "fresh_touch g xs ys ws j \<longleftrightarrow> (xs ! j \<noteq> 0 \<or> ys ! j \<noteq> 0) \<and> fingerDownThreshold g \<le> ws ! j"

text \<open>
  The fingers made of the touches \<open>js\<close>, in the order they are made: ids from \<open>i\<close> on, the position
  and the weight of the touch.
\<close>

fun newborns :: "int list \<Rightarrow> int list \<Rightarrow> int list \<Rightarrow> u32 \<Rightarrow> nat list \<Rightarrow> finger list \<Rightarrow> bool" where
  "newborns xs ys ws i [] [] = True"
| "newborns xs ys ws i (j # js) (f # fs) =
     (born f \<and> f_id f = i \<and> lastWeight f = ws ! j \<and>
      co_x (finger_pos f) = xs ! j \<and> co_y (finger_pos f) = ys ! j \<and> newborns xs ys ws (i + 1) js fs)"
| "newborns xs ys ws i _ _ = False"

lemma newborns_cong:
  "\<forall>j \<in> set js. xs' ! j = xs ! j \<and> ys' ! j = ys ! j \<Longrightarrow>
   newborns xs' ys' ws i js fs = newborns xs ys ws i js fs"
  by (induction xs ys ws i js fs rule: newborns.induct) simp_all

lemma newborns_single:
  "newborns xs ys ws i [j] (rev new) \<longleftrightarrow>
     (\<exists>f. new = [f] \<and> born f \<and> f_id f = i \<and> lastWeight f = ws ! j \<and>
        co_x (finger_pos f) = xs ! j \<and> co_y (finger_pos f) = ys ! j)"
proof (cases "rev new")
  case (Cons f fs)
  then show ?thesis by (cases fs) auto
qed simp

lemma add_unmatched_correct:
  assumes "spGeneralSettings s = Some g" "\<forall>f \<in> set (availableFingers s). free_finger f"
    and "touches_ok xs ys ws" "\<forall>j \<in> set js. j < length xs"
    and "0 \<le> ts_nsec t" "ts_nsec t < 1000000000" "0 \<le> cnt"
    and "cnt + 1000000 * int (length js) \<le> 1000000000"
  shows "\<exists>s' new. add_unmatched xs ys ws t js cnt s = Some s' \<and>
     s' = s\<lparr>sFingers := new @ sFingers s, availableFingers := drop (length new) (availableFingers s),
            curFingerId := curFingerId s + of_nat (length new)\<rparr> \<and>
     (\<forall>f \<in> set new. born f) \<and>
     length new = min (length (availableFingers s)) (length (filter (fresh_touch g xs ys ws) js)) \<and>
     newborns xs ys ws (curFingerId s)
       (take (length (availableFingers s)) (filter (fresh_touch g xs ys ws) js)) (rev new)"
  using assms
proof (induction js arbitrary: cnt s)
  case (Cons j js)
  have j: "j < length xs" "length ys = length xs" "length ws = length xs"
    using Cons.prems(3,4) by (auto simp: touches_ok_def)
  note IH = Cons.IH [OF _ _ Cons.prems(3) _ Cons.prems(5,6)]
  show ?case
  proof (cases "fresh_touch g xs ys ws j")
    case False
    then have "add_unmatched xs ys ws t (j # js) cnt s = add_unmatched xs ys ws t js cnt s"
      using j Cons.prems(1) by (auto simp: fresh_touch_def arr_get_nat)
    with False IH [of s cnt] Cons.prems show ?thesis by simp
  next
    case True
    have "i32 (ts_nsec t + cnt) = Some (ts_nsec t + cnt)" "i32 (cnt + 1000000) = Some (cnt + 1000000)"
      using Cons.prems(5-8) by (auto intro!: c_ub in_i32_small)
    with True have step: "add_unmatched xs ys ws t (j # js) cnt s =
        Option.bind (add_new_finger (xs ! j) (ys ! j) (ws ! j) (t\<lparr>ts_nsec := ts_nsec t + cnt\<rparr>) s)
          (add_unmatched xs ys ws t js (cnt + 1000000))"
      using j Cons.prems(1) by (auto simp: fresh_touch_def arr_get_nat)
    show ?thesis
    proof (cases "availableFingers s")
      case Nil
      then have "add_new_finger (xs ! j) (ys ! j) (ws ! j) (t\<lparr>ts_nsec := ts_nsec t + cnt\<rparr>) s = Some s"
        by (simp add: add_new_finger_def)
      with step IH [of s "cnt + 1000000"] Cons.prems Nil show ?thesis by auto
    next
      case (Cons f rest)
      have "panel_coord (xs ! j)" "panel_coord (ys ! j)"
        using touches_ok_nth [OF Cons.prems(3) j(1)] by auto
      from add_new_finger_correct [OF Cons.prems(1,2) this Cons] obtain f' where
        f': "add_new_finger (xs ! j) (ys ! j) (ws ! j) (t\<lparr>ts_nsec := ts_nsec t + cnt\<rparr>) s =
          Some (s\<lparr>availableFingers := rest, sFingers := f' # sFingers s,
                  curFingerId := curFingerId s + 1\<rparr>)" "born f'" "f_id f' = curFingerId s"
          "lastWeight f' = ws ! j"
          "hist (coords f') = [\<lparr>co_x = xs ! j, co_y = ys ! j, co_timeStamp = t\<lparr>ts_nsec := ts_nsec t + cnt\<rparr>\<rparr>]"
        by blast
      let ?s = "s\<lparr>availableFingers := rest, sFingers := f' # sFingers s,
                  curFingerId := curFingerId s + 1\<rparr>"
      obtain s' new where IH':
        "add_unmatched xs ys ws t js (cnt + 1000000) ?s = Some s'"
        "s' = ?s\<lparr>sFingers := new @ sFingers ?s,
                 availableFingers := drop (length new) (availableFingers ?s),
                 curFingerId := curFingerId ?s + of_nat (length new)\<rparr>"
        "\<forall>f \<in> set new. born f"
        "length new = min (length (availableFingers ?s)) (length (filter (fresh_touch g xs ys ws) js))"
        "newborns xs ys ws (curFingerId ?s)
           (take (length (availableFingers ?s)) (filter (fresh_touch g xs ys ws) js)) (rev new)"
        using IH [of ?s "cnt + 1000000"] Cons.prems Cons by auto
      then show ?thesis
        using step f' True Cons
        by (intro exI [of _ s'] exI [of _ "new @ [f']"]) (auto simp: add.assoc finger_pos_def)
    qed
  qed
qed simp

end
