(* ===== verification/Gesture_Events.thy ===== *)
theory Gesture_Events
  imports Gesture_Scan
begin

text \<open>
  The events of a scan, the invariant of the tracker, and the theorem about
  \<open>gesture_state_machine\<close> that the touchpanel module rests on.
\<close>

section \<open>The events of one finger\<close>

definition finger_events :: "finger \<Rightarrow> (u16 \<times> u16 \<times> int) list" where
  "finger_events f =
     [(EV_FINGERID, 0, sint (f_id f))]
     @ (if gs_state (f_state f) = START_STATE then [(EV_KEY, BTN_TOUCH, 1)] else [])
     @ [(EV_ABS, ABS_X, co_x (finger_pos f)), (EV_ABS, ABS_Y, co_y (finger_pos f))]
     @ (if 0 < minDist f then [(EV_KEY, BTN_TOUCH, 0)] else [])"

lemma length_finger_events: "length (finger_events f) \<le> 5" "3 \<le> length (finger_events f)"
  by (simp_all add: finger_events_def)

text \<open>What the step does to the finger itself.\<close>

definition stepped :: "finger \<Rightarrow> finger \<Rightarrow> bool" where
  "stepped f f' \<longleftrightarrow>
     coords f' = coords f \<and> f_id f' = f_id f \<and> lastWeight f' = lastWeight f \<and>
     gs_state (f_state f') =
       (if gs_state (f_state f) = START_STATE then FINGER_DOWN_STATE else gs_state (f_state f)) \<and>
     minDist f' = (if 0 < minDist f then minDist f else INT_MAX)"

text \<open>The step up to the coordinates: the finger's id, and the press of a new finger.\<close>

lemma finger_head_events:
  assumes "n + 2 \<le> length events"
  shows "\<exists>ev1 t1 f2 ev2 n2 t2.
     emit events n t EV_FINGERID 0 v = Some (ev1, Suc n, t1) \<and>
     (case gs_state (f_state f) of
          START_STATE \<Rightarrow> do {
            (ev, n, t) \<leftarrow> emit ev1 (Suc n) t1 EV_KEY BTN_TOUCH 1;
            Some (f\<lparr>f_state := (f_state f)\<lparr>gs_startX := x, gs_startY := y, startTime := t1,
                                            gs_state := FINGER_DOWN_STATE\<rparr>\<rparr>, ev, n, t) }
        | FINGER_DOWN_STATE \<Rightarrow> Some (f, ev1, Suc n, t1)
        | FINGER_DOWN_AFTER_QUICK_LAUNCH \<Rightarrow> Some (f, ev1, Suc n, t1)
        | UNUSED \<Rightarrow> Some (f, ev1, Suc n, t1)) = Some (f2, ev2, n2, t2) \<and>
     writes events n ev2 n2
       ([(EV_FINGERID, 0, v)]
        @ (if gs_state (f_state f) = START_STATE then [(EV_KEY, BTN_TOUCH, 1)] else [])) \<and>
     coords f2 = coords f \<and> f_id f2 = f_id f \<and> lastWeight f2 = lastWeight f \<and>
     minDist f2 = minDist f \<and>
     gs_state (f_state f2) =
       (if gs_state (f_state f) = START_STATE then FINGER_DOWN_STATE else gs_state (f_state f))"
proof -
  obtain ev1 t1 where e1: "emit events n t EV_FINGERID 0 v = Some (ev1, Suc n, t1)"
    and w1: "writes events n ev1 (Suc n) [(EV_FINGERID, 0, v)]"
    by (rule emit_writes [of n events t EV_FINGERID 0 v]) (use assms in auto)
  have "Suc n < length ev1" using writes_length [OF w1] assms by simp
  then obtain ev2 t2 where e2: "emit ev1 (Suc n) t1 EV_KEY BTN_TOUCH 1 = Some (ev2, Suc (Suc n), t2)"
    and w2: "writes ev1 (Suc n) ev2 (Suc (Suc n)) [(EV_KEY, BTN_TOUCH, 1)]"
    by (rule emit_writes [of "Suc n" ev1 t1 EV_KEY BTN_TOUCH 1])
  show ?thesis
  proof (cases "gs_state (f_state f) = START_STATE")
    case True
    with e1 e2 writes_trans [OF w1 w2] show ?thesis by simp
  next
    case False
    with e1 w1 show ?thesis by (cases "gs_state (f_state f)") simp_all
  qed
qed

lemma gesture_state_machine_finger_correct:
  assumes f: "finger_wf f" and room: "n + 5 \<le> length events"
  shows "\<exists>f' ev' n'. gesture_state_machine_finger f events n =
      Some (if 0 < minDist f then -1 else 0, f', ev', n') \<and>
    writes events n ev' n' (finger_events f) \<and> stepped f f'"
proof -
  let ?p = "finger_pos f"
  have "n + 2 \<le> length events" using room by simp
  from finger_head_events [OF this, where t = "co_timeStamp ?p" and v = "sint (f_id f)" and
      f = f and x = "co_x ?p" and y = "co_y ?p"]
  obtain ev1 t1 f2 ev2 n2 t2 where head:
    "emit events n (co_timeStamp ?p) EV_FINGERID 0 (sint (f_id f)) = Some (ev1, Suc n, t1)"
    "(case gs_state (f_state f) of
          START_STATE \<Rightarrow> do {
            (ev, n, t) \<leftarrow> emit ev1 (Suc n) t1 EV_KEY BTN_TOUCH 1;
            Some (f\<lparr>f_state := (f_state f)\<lparr>gs_startX := co_x ?p, gs_startY := co_y ?p,
                                 startTime := t1, gs_state := FINGER_DOWN_STATE\<rparr>\<rparr>, ev, n, t) }
        | FINGER_DOWN_STATE \<Rightarrow> Some (f, ev1, Suc n, t1)
        | FINGER_DOWN_AFTER_QUICK_LAUNCH \<Rightarrow> Some (f, ev1, Suc n, t1)
        | UNUSED \<Rightarrow> Some (f, ev1, Suc n, t1)) = Some (f2, ev2, n2, t2)"
    and w2: "writes events n ev2 n2
       ([(EV_FINGERID, 0, sint (f_id f))]
        @ (if gs_state (f_state f) = START_STATE then [(EV_KEY, BTN_TOUCH, 1)] else []))"
    and f2: "coords f2 = coords f" "f_id f2 = f_id f" "lastWeight f2 = lastWeight f"
      "minDist f2 = minDist f" "gs_state (f_state f2) =
         (if gs_state (f_state f) = START_STATE then FINGER_DOWN_STATE else gs_state (f_state f))"
    by (elim exE conjE) (rule that)
  have "n2 < length ev2" using writes_length [OF w2] room by (simp split: if_splits)
  then obtain ev3 t3 where e3: "emit ev2 n2 t2 EV_ABS ABS_X (co_x ?p) = Some (ev3, Suc n2, t3)"
    and w3: "writes ev2 n2 ev3 (Suc n2) [(EV_ABS, ABS_X, co_x ?p)]" by (rule emit_writes)
  have "Suc n2 < length ev3"
    using writes_length [OF w2] writes_length [OF w3] room by (simp split: if_splits)
  then obtain ev4 t4 where e4: "emit ev3 (Suc n2) t3 EV_ABS ABS_Y (co_y ?p) = Some (ev4, Suc (Suc n2), t4)"
    and w4: "writes ev3 (Suc n2) ev4 (Suc (Suc n2)) [(EV_ABS, ABS_Y, co_y ?p)]" by (rule emit_writes)
  have "Suc (Suc n2) < length ev4"
    using writes_length [OF w2] writes_length [OF w3] writes_length [OF w4] room
    by (simp split: if_splits)
  then obtain ev5 t5 where e5: "emit ev4 (Suc (Suc n2)) t4 EV_KEY BTN_TOUCH 0 = Some (ev5, Suc (Suc (Suc n2)), t5)"
    and w5: "writes ev4 (Suc (Suc n2)) ev5 (Suc (Suc (Suc n2))) [(EV_KEY, BTN_TOUCH, 0)]"
    by (rule emit_writes)
  note w = writes_trans [OF writes_trans [OF w2 w3] w4]
  note def = gesture_state_machine_finger_def get_last_coords_finger [OF f] head e3 e4 e5
  show ?thesis
  proof (cases "0 < minDist f")
    case True
    then show ?thesis
      using writes_trans [OF w w5] f2
      by (simp add: def finger_events_def stepped_def)
  next
    case False
    then show ?thesis
      using w f2 by (simp add: def finger_events_def stepped_def)
  qed
qed

section \<open>The events of all fingers\<close>

text \<open>A finger between the third and the fourth loop.\<close>

definition pending :: "finger \<Rightarrow> bool" where
  "pending f \<longleftrightarrow> finger_wf f \<and>
     (minDist f = 0 \<and> gs_state (f_state f) \<in> {START_STATE, FINGER_DOWN_STATE} \<or>
      minDist f = INT_MAX \<and> gs_state (f_state f) = FINGER_DOWN_STATE)"

text \<open>A finger that is down between two scans.\<close>

definition tracked :: "finger \<Rightarrow> bool" where
  "tracked f \<longleftrightarrow> finger_wf f \<and> minDist f = INT_MAX \<and> gs_state (f_state f) = FINGER_DOWN_STATE"

definition carried :: "finger \<Rightarrow> finger \<Rightarrow> bool" where
  "carried f f' \<longleftrightarrow> coords f' = coords f \<and> f_id f' = f_id f \<and> lastWeight f' = lastWeight f"

definition released :: "finger \<Rightarrow> bool" where
  "released f \<longleftrightarrow> 0 < minDist f"

lemma process_fingers_correct:
  assumes "\<forall>f \<in> set fs. pending f" "n + 5 * length fs \<le> length events"
  shows "\<exists>stay leave ev' n'. process_fingers fs events n = Some (stay, leave, ev', n') \<and>
     writes events n ev' n' (concat (map finger_events fs)) \<and>
     list_all2 carried (filter (\<lambda>f. \<not> released f) fs) stay \<and>
     list_all2 carried (filter released fs) leave \<and>
     (\<forall>f \<in> set stay. tracked f) \<and> (\<forall>f \<in> set leave. free_finger f)"
  using assms
proof (induction fs arbitrary: n events)
  case (Cons f fs)
  have f: "pending f" "finger_wf f" using Cons.prems(1) by (auto simp: pending_def)
  have "n + 5 \<le> length events" using Cons.prems(2) by simp
  from gesture_state_machine_finger_correct [OF f(2) this] obtain f' ev1 n1 where
    step: "gesture_state_machine_finger f events n = Some (if 0 < minDist f then -1 else 0, f', ev1, n1)"
    and w1: "writes events n ev1 n1 (finger_events f)" and f': "stepped f f'"
    by blast
  have "n1 + 5 * length fs \<le> length ev1"
    using writes_length [OF w1] length_finger_events(1) [of f] Cons.prems(2) by simp
  from Cons.IH [OF _ this] Cons.prems(1) obtain stay leave ev' n' where IH:
    "process_fingers fs ev1 n1 = Some (stay, leave, ev', n')"
    "writes ev1 n1 ev' n' (concat (map finger_events fs))"
    "list_all2 carried (filter (\<lambda>f. \<not> released f) fs) stay"
    "list_all2 carried (filter released fs) leave"
    "\<forall>f \<in> set stay. tracked f" "\<forall>f \<in> set leave. free_finger f"
    by auto
  note w = writes_trans [OF w1 IH(2)]
  show ?case
  proof (cases "released f")
    case True
    let ?g = "f'\<lparr>f_state := (f_state f')\<lparr>gs_state := UNUSED\<rparr>\<rparr>"
    have "carried f ?g" "free_finger ?g"
      using f(2) f' by (auto simp: carried_def stepped_def free_finger_def finger_wf_def)
    moreover have "0 < minDist f" using True by (simp add: released_def)
    ultimately show ?thesis using True step IH w by auto
  next
    case False
    with f f' have "tracked f'" "carried f f'"
      by (auto simp: tracked_def carried_def released_def stepped_def pending_def finger_wf_def)
    moreover have "\<not> 0 < minDist f" using False by (simp add: released_def)
    ultimately show ?thesis using False step IH w by auto
  qed
qed simp

section \<open>The invariant between scans\<close>

definition gsm_inv :: "gsm \<Rightarrow> bool" where
  "gsm_inv s \<longleftrightarrow>
     \<not> sFingers_freed s \<and> spGeneralSettings s \<noteq> None \<and>
     (\<forall>f \<in> set (sFingers s). tracked f) \<and> (\<forall>f \<in> set (availableFingers s). free_finger f)"

definition finger_count :: "gsm \<Rightarrow> nat" where
  "finger_count s = length (sFingers s) + length (availableFingers s)"

lemma init_fingers_correct:
  assumes "\<forall>i < n. \<exists>f a. fmem i = Some f \<and> cmem i = Some a \<and> int (length a) = sz"
    and "0 < sz" "sz < 2 ^ 30"
  shows "\<exists>fs. init_fingers fmem cmem sz n = Some fs \<and> length fs = n \<and> (\<forall>f \<in> set fs. free_finger f)"
  using assms(1)
proof (induction n)
  case (Suc n)
  have "\<forall>i < n. \<exists>f a. fmem i = Some f \<and> cmem i = Some a \<and> int (length a) = sz"
    using Suc.prems less_SucI by blast
  from Suc.IH [OF this] obtain fs where fs: "init_fingers fmem cmem sz n = Some fs" "length fs = n"
    "\<forall>f \<in> set fs. free_finger f" by blast
  from Suc.prems obtain f a where mem: "fmem n = Some f" "cmem n = Some a" "int (length a) = sz"
    by blast
  obtain b where b: "create_coord_buffer (Some a) (Some (coords f)) sz = (0, Some b)"
    by (simp add: create_coord_buffer_def)
  have "cb_wf b" using create_coord_buffer_wf [OF mem(3) assms(2,3) b] by blast
  with b show ?case
    using fs mem by (auto simp: init_finger_def free_finger_def)
qed simp

lemma init_gesture_state_machine_correct:
  assumes "\<forall>i < nat (2 * maxFingers). \<exists>f a. fmem i = Some f \<and> cmem i = Some a \<and>
             int (length a) = coordBufSize g"
    and "0 < coordBufSize g" "coordBufSize g < 2 ^ 30" "0 \<le> maxFingers" "maxFingers < 2 ^ 30"
    and "sFingers s = []" "\<not> sFingers_freed s" "availableFingers s = []"
  shows "\<exists>s'. init_gesture_state_machine fmem cmem g maxFingers s = Some s' \<and> gsm_inv s' \<and>
     spGeneralSettings s' = Some g \<and> finger_count s' = nat (2 * maxFingers) \<and> sFingers s' = []"
proof -
  have "i32 (maxFingers * 2) = Some (maxFingers * 2)"
    using assms by (auto intro!: c_ub in_i32_small)
  moreover obtain fs where "init_fingers fmem cmem (coordBufSize g) (nat (2 * maxFingers)) = Some fs"
    "length fs = nat (2 * maxFingers)" "\<forall>f \<in> set fs. free_finger f"
    using init_fingers_correct [OF assms(1-3)] by blast
  ultimately show ?thesis
    using assms
    by (simp add: init_gesture_state_machine_def gsm_inv_def finger_count_def mult.commute)
qed

section \<open>The whole scan\<close>

text \<open>
  The lists a scan goes through: \<open>fs1\<close> after the matching, \<open>fs2\<close> after the update, \<open>new\<close> for
  the touches left over; \<open>stay\<close> and \<open>leave\<close> partition \<open>new @ fs2\<close>.
\<close>

definition scan_trace ::
  "general_settings \<Rightarrow> int list \<Rightarrow> int list \<Rightarrow> int list \<Rightarrow> nat \<Rightarrow> time_stamp \<Rightarrow> gsm \<Rightarrow>
   finger list \<Rightarrow> finger list \<Rightarrow> finger list \<Rightarrow> finger list \<Rightarrow> finger list \<Rightarrow> gsm \<Rightarrow> bool" where
  "scan_trace g xs ys ws numFingers t s fs1 fs2 new stay leave s' \<longleftrightarrow>
     match_fingers xs ys [0..<numFingers] (sFingers s) = Some fs1 \<and>
     list_all2 same_track (sFingers s) fs1 \<and> matching xs ys {..<numFingers} fs1 \<and>
     list_all2 (absorbs g ws t xs ys) fs1 fs2 \<and>
     (\<forall>f \<in> set new. born f) \<and>
     length new = min (length (availableFingers s))
       (length (filter (\<lambda>j. j \<notin> taken fs1 \<and> fresh_touch g xs ys ws j) [0..<numFingers])) \<and>
     newborns xs ys ws (curFingerId s)
       (take (length (availableFingers s))
         (filter (\<lambda>j. j \<notin> taken fs1 \<and> fresh_touch g xs ys ws j) [0..<numFingers])) (rev new) \<and>
     list_all2 carried (filter (\<lambda>f. \<not> released f) (new @ fs2)) stay \<and>
     list_all2 carried (filter released (new @ fs2)) leave \<and>
     s' = s\<lparr>sFingers := stay,
            availableFingers := drop (length new) (availableFingers s) @ leave,
            curFingerId := curFingerId s + of_nat (length new)\<rparr>"

lemma same_track_state: "same_track f f' \<Longrightarrow> f_state f' = f_state f"
  by (simp add: same_track_def)

lemma tracked_pending:
  assumes "\<forall>f \<in> set fs. tracked f" "list_all2 same_track fs fs1" "list_all2 (absorbs g ws t xs ys) fs1 fs2"
  shows "\<forall>f \<in> set fs2. pending f"
proof
  fix f2 assume "f2 \<in> set fs2"
  then obtain i where i: "i < length fs2" "f2 = fs2 ! i" by (auto simp: in_set_conv_nth)
  then have len: "i < length fs" "i < length fs1"
    using list_all2_lengthD [OF assms(2)] list_all2_lengthD [OF assms(3)] by simp_all
  have "tracked (fs ! i)" using assms(1) len by simp
  moreover have "same_track (fs ! i) (fs1 ! i)" using assms(2) len by (simp add: list_all2_nthD)
  moreover have "absorbs g ws t xs ys (fs1 ! i) f2" using assms(3) len i by (simp add: list_all2_nthD)
  ultimately show "pending f2"
    by (simp add: pending_def tracked_def same_track_wf absorbs_def same_track_state
        split: if_splits)
qed

lemma length_concat_finger_events: "length (concat (map finger_events fs)) \<le> 5 * length fs"
proof (induction fs)
  case (Cons f fs)
  then show ?case using length_finger_events(1) [of f] by simp
qed simp

lemma concat_finger_events_Nil: "concat (map finger_events fs) = [] \<longleftrightarrow> fs = []"
  by (cases fs) (simp_all add: finger_events_def)

text \<open>Fingers that no touch took.\<close>

lemma absorbs_unmatched:
  "list_all2 (absorbs g ws t xs ys) fs fs' \<Longrightarrow> \<forall>f \<in> set fs. minDist f = INT_MAX \<Longrightarrow> fs' = fs"
  by (induction rule: list_all2_induct) (simp_all add: absorbs_def)

lemma unmatched_events:
  "list_all2 same_track fs fs' \<Longrightarrow> \<forall>f \<in> set fs. tracked f \<Longrightarrow> \<forall>f \<in> set fs'. minDist f = INT_MAX \<Longrightarrow>
   map finger_events fs' =
     map (\<lambda>f. [(EV_FINGERID, 0, sint (f_id f)), (EV_ABS, ABS_X, co_x (finger_pos f)),
               (EV_ABS, ABS_Y, co_y (finger_pos f)), (EV_KEY, BTN_TOUCH, 0)]) fs"
  by (induction rule: list_all2_induct)
    (auto simp: finger_events_def tracked_def same_track_def finger_pos_def INT_MAX_def)

lemma partition_lengths:
  assumes "list_all2 P (filter (\<lambda>f. \<not> Q f) fs) as" "list_all2 R (filter Q fs) bs"
  shows "length as + length bs = length fs"
  using assms sum_length_filter_compl [of Q fs] by (simp add: list_all2_lengthD [symmetric])

lemma fresh_after_update:
  assumes "\<forall>i. xs' ! i = (if i \<in> T \<and> i < length xs then 0 else xs ! i)"
    and "\<forall>i. ys' ! i = (if i \<in> T \<and> i < length xs then 0 else ys ! i)" "n \<le> length xs"
  shows "filter (fresh_touch g xs' ys' ws) [0..<n]
       = filter (\<lambda>j. j \<notin> T \<and> fresh_touch g xs ys ws j) [0..<n]"
  using assms by (intro filter_cong) (auto simp: fresh_touch_def)

lemma gesture_state_machine_scan:
  assumes inv: "gsm_inv s" "spGeneralSettings s = Some g"
    and touches: "touches_ok xs ys ws" "numFingers \<le> length xs" "numFingers \<le> 1000"
    and time: "0 \<le> ts_nsec t" "ts_nsec t < 1000000000"
    and room: "n + 5 * finger_count s < length events"
  shows "\<exists>fs1 fs2 new stay leave s' xs' ys' t' ev n'.
     gesture_state_machine xs ys ws numFingers t events n s = Some (s', xs', ys', t', ev, n') \<and>
     scan_trace g xs ys ws numFingers t s fs1 fs2 new stay leave s' \<and>
     (\<forall>f \<in> set stay. tracked f) \<and> (\<forall>f \<in> set leave. free_finger f) \<and>
     writes events n ev n'
       (concat (map finger_events (new @ fs2)) @ (if n = 0 \<and> new @ fs2 = [] then [] else [(EV_SYN, 0, 0)]))"
proof -
  have tr: "\<forall>f \<in> set (sFingers s). tracked f" "\<forall>f \<in> set (availableFingers s). free_finger f"
    "\<not> sFingers_freed s"
    using inv by (auto simp: gsm_inv_def)
  then have wf: "\<forall>f \<in> set (sFingers s). finger_wf f"
    and start: "matching xs ys {} (sFingers s)"
    by (auto simp: tracked_def intro: matching_start)
  have "\<forall>j \<in> set [0..<numFingers]. j < length xs \<and> j < length ys \<and> panel_coord (xs ! j) \<and> panel_coord (ys ! j)"
    using touches touches_ok_nth [OF touches(1)] by (auto simp: touches_ok_def)
  from match_fingers_correct [OF wf _ _ start this] obtain fs1 where
    fs1: "match_fingers xs ys [0..<numFingers] (sFingers s) = Some fs1"
      "list_all2 same_track (sFingers s) fs1" "matching xs ys {..<numFingers} fs1"
    by (auto simp: atLeast0LessThan)
  have "\<forall>f \<in> set fs1. finger_wf f" using same_track_list_wf [OF fs1(2) wf] .
  moreover have "matching xs ys {..<length xs} fs1"
    using fs1(3) touches(2) by (auto intro: matching_mono)
  ultimately obtain fs2 xs' ys' where
    fs2: "update_matched (Some g) ws t fs1 xs ys = Some (fs2, xs', ys')"
      "list_all2 (absorbs g ws t xs ys) fs1 fs2" "touches_ok xs' ys' ws" "length xs' = length xs"
      "\<forall>i. xs' ! i = (if i \<in> taken fs1 \<and> i < length xs then 0 else xs ! i)"
      "\<forall>i. ys' ! i = (if i \<in> taken fs1 \<and> i < length xs then 0 else ys ! i)"
    using update_matched_correct [of fs1 xs ys ws xs ys g t] touches(1) by auto
  let ?s = "s\<lparr>sFingers := fs2\<rparr>"
  obtain s3 new where
    s3: "add_unmatched xs' ys' ws t [0..<numFingers] 0 ?s = Some s3"
      "s3 = ?s\<lparr>sFingers := new @ fs2, availableFingers := drop (length new) (availableFingers s),
              curFingerId := curFingerId s + of_nat (length new)\<rparr>"
    and new: "\<forall>f \<in> set new. born f"
      "length new = min (length (availableFingers s))
         (length (filter (fresh_touch g xs' ys' ws) [0..<numFingers]))"
      "newborns xs' ys' ws (curFingerId s)
         (take (length (availableFingers s)) (filter (fresh_touch g xs' ys' ws) [0..<numFingers])) (rev new)"
    using add_unmatched_correct [of ?s g xs' ys' ws "[0..<numFingers]" t 0] inv tr fs2 touches time
    by auto
  note new' = new(2) [unfolded fresh_after_update [OF fs2(5,6) touches(2)]]
  let ?js = "take (length (availableFingers s))
     (filter (\<lambda>j. j \<notin> taken fs1 \<and> fresh_touch g xs ys ws j) [0..<numFingers])"
  have "\<forall>j \<in> set ?js. xs' ! j = xs ! j \<and> ys' ! j = ys ! j"
    using fs2(5,6) by (auto dest: in_set_takeD)
  note ids = new(3) [unfolded fresh_after_update [OF fs2(5,6) touches(2)] newborns_cong [OF this]]
  have "length fs2 = length (sFingers s)"
    using fs1(2) fs2(2) by (simp add: list_all2_lengthD [symmetric])
  with new' room have room': "n + 5 * length (new @ fs2) < length events"
    by (simp add: finger_count_def)
  have "\<forall>f \<in> set (new @ fs2). pending f"
    using new(1) tracked_pending [OF tr(1) fs1(2) fs2(2)] by (auto simp: born_def pending_def)
  then obtain stay leave ev n' where
    p: "process_fingers (new @ fs2) events n = Some (stay, leave, ev, n')"
      "writes events n ev n' (concat (map finger_events (new @ fs2)))"
      "list_all2 carried (filter (\<lambda>f. \<not> released f) (new @ fs2)) stay"
      "list_all2 carried (filter released (new @ fs2)) leave"
      "\<forall>f \<in> set stay. tracked f" "\<forall>f \<in> set leave. free_finger f"
    using process_fingers_correct [of "new @ fs2" n events] room' by auto
  let ?evs = "concat (map finger_events (new @ fs2))"
  let ?s' = "s\<lparr>sFingers := stay, availableFingers := drop (length new) (availableFingers s) @ leave,
              curFingerId := curFingerId s + of_nat (length new)\<rparr>"
  have n': "n' = n + length ?evs" "length ev = length events" using writes_length [OF p(2)] by auto
  have bound: "length ?evs \<le> 5 * length (new @ fs2)" by (rule length_concat_finger_events)
  have tr': "scan_trace g xs ys ws numFingers t s fs1 fs2 new stay leave ?s'"
    using fs1 fs2(2) new(1) new' ids p(3,4) by (simp add: scan_trace_def)
  have some: "0 < n' \<longleftrightarrow> \<not> (n = 0 \<and> new @ fs2 = [])"
    using n'(1) concat_finger_events_Nil [of "new @ fs2"] by (auto simp del: map_append append_is_Nil_conv)
  note def = gesture_state_machine_def tr(3) fs1(1) inv(2) fs2(1) s3 p(1)
  show ?thesis
  proof (cases "0 < n'")
    case True
    have "n' < length ev" using n' bound room' by simp
    then obtain ev' t' where e: "emit ev n' t EV_SYN 0 0 = Some (ev', Suc n', t')"
      and w: "writes ev n' ev' (Suc n') [(EV_SYN, 0, 0)]" by (rule emit_writes)
    have "gesture_state_machine xs ys ws numFingers t events n s = Some (?s', xs', ys', t', ev', Suc n')"
      using True by (simp add: def e)
    moreover have "writes events n ev' (Suc n')
        (?evs @ (if n = 0 \<and> new @ fs2 = [] then [] else [(EV_SYN, 0, 0)]))"
      using writes_trans [OF p(2) w] some True by (simp only: simp_thms if_False)
    ultimately show ?thesis using tr' p(5,6) by blast
  next
    case False
    have "gesture_state_machine xs ys ws numFingers t events n s = Some (?s', xs', ys', t, ev, n')"
      using False by (simp add: def)
    moreover have "writes events n ev n'
        (?evs @ (if n = 0 \<and> new @ fs2 = [] then [] else [(EV_SYN, 0, 0)]))"
      using p(2) some False by (simp only: simp_thms if_True append_Nil2)
    ultimately show ?thesis using tr' p(5,6) by blast
  qed
qed

section \<open>What a scan needs and gives\<close>

text \<open>
  What a scan needs: the invariant, touches on a panel no larger than 32768 by 32768, a
  normalised time stamp, and room for five events per finger and the synchronisation.
\<close>

definition scan_pre ::
  "int list \<Rightarrow> int list \<Rightarrow> int list \<Rightarrow> nat \<Rightarrow> time_stamp \<Rightarrow> input_event list \<Rightarrow> nat \<Rightarrow> gsm \<Rightarrow> bool" where
  "scan_pre xs ys ws numFingers t events n s \<longleftrightarrow>
     gsm_inv s \<and> touches_ok xs ys ws \<and> numFingers \<le> length xs \<and> numFingers \<le> 1000 \<and>
     0 \<le> ts_nsec t \<and> ts_nsec t < 1000000000 \<and> n + 5 * finger_count s < length events"

lemma scan_pre_trace:
  assumes "scan_pre xs ys ws numFingers t events n s"
  obtains g fs1 fs2 new stay leave s' xs' ys' t' ev n' where
    "spGeneralSettings s = Some g"
    "gesture_state_machine xs ys ws numFingers t events n s = Some (s', xs', ys', t', ev, n')"
    "scan_trace g xs ys ws numFingers t s fs1 fs2 new stay leave s'"
    "\<forall>f \<in> set stay. tracked f" "\<forall>f \<in> set leave. free_finger f"
    "writes events n ev n'
       (concat (map finger_events (new @ fs2)) @ (if n = 0 \<and> new @ fs2 = [] then [] else [(EV_SYN, 0, 0)]))"
proof -
  from assms obtain g where g: "spGeneralSettings s = Some g"
    by (auto simp: scan_pre_def gsm_inv_def)
  from assms have pre: "gsm_inv s" "touches_ok xs ys ws" "numFingers \<le> length xs" "numFingers \<le> 1000"
    "0 \<le> ts_nsec t" "ts_nsec t < 1000000000" "n + 5 * finger_count s < length events"
    by (simp_all add: scan_pre_def)
  show thesis
    using gesture_state_machine_scan [OF pre(1) g pre(2-7)] that [OF g] by blast
qed

lemma scan_pre_ready: "scan_pre xs ys ws numFingers t events n s \<Longrightarrow> \<not> sFingers_freed s"
  by (simp add: scan_pre_def gsm_inv_def)

lemma scan_trace_counts:
  assumes "scan_trace g xs ys ws numFingers t s fs1 fs2 new stay leave s'"
  shows "finger_count s' = finger_count s" "length (new @ fs2) \<le> finger_count s"
    "length fs2 = length (sFingers s)"
proof -
  note tr = assms [unfolded scan_trace_def]
  have "length fs1 = length fs2" using tr by (elim conjE) (rule list_all2_lengthD)
  moreover have "length (sFingers s) = length fs1" using tr by (elim conjE) (rule list_all2_lengthD)
  ultimately show len: "length fs2 = length (sFingers s)" by simp
  have "length stay + length leave = length (new @ fs2)"
    using tr by (intro partition_lengths) auto
  then show "finger_count s' = finger_count s" "length (new @ fs2) \<le> finger_count s"
    using tr len by (auto simp: finger_count_def)
qed

lemma scan_trace_state:
  "scan_trace g xs ys ws numFingers t s fs1 fs2 new stay leave s' \<Longrightarrow>
   sFingers s' = stay \<and> curFingerId s' = curFingerId s + of_nat (length new) \<and>
   spGeneralSettings s' = spGeneralSettings s"
  by (simp add: scan_trace_def)

lemma scan_trace_inv:
  assumes "scan_trace g xs ys ws numFingers t s fs1 fs2 new stay leave s'" "gsm_inv s"
    "\<forall>f \<in> set stay. tracked f" "\<forall>f \<in> set leave. free_finger f"
  shows "gsm_inv s'"
proof -
  have "set (drop (length new) (availableFingers s)) \<subseteq> set (availableFingers s)"
    by (rule set_drop_subset)
  then show ?thesis using assms by (auto simp: gsm_inv_def scan_trace_def)
qed

lemma scan_pre_step:
  assumes "scan_pre xs ys ws numFingers t events n s"
  shows "\<exists>s' r. gesture_state_machine xs ys ws numFingers t events n s = Some (s', r) \<and>
     gsm_inv s' \<and> finger_count s' = finger_count s"
proof -
  have "gsm_inv s" using assms by (simp add: scan_pre_def)
  with assms show ?thesis
    by (elim scan_pre_trace) (auto dest: scan_trace_counts(1) scan_trace_inv)
qed

end
