(* ===== verification/Gesture_Single.thy ===== *)
theory Gesture_Single
  imports Gesture_Events
begin

text \<open>
  Scans with at most one touch and one finger, the only ones a mouse can make: a press, a move
  and a release. The touch arrays may be longer than the number of touches.
\<close>

section \<open>A press\<close>

lemma press_scan:
  assumes "scan_pre (x # xr) (y # yr) (w # wr) 1 t events 0 s" "spGeneralSettings s = Some g"
    and "sFingers s = []" "availableFingers s \<noteq> []" "fingerDownThreshold g \<le> w" "\<not> (x = 0 \<and> y = 0)"
  shows "\<exists>s' xs' ys' t' ev n' f'.
     gesture_state_machine (x # xr) (y # yr) (w # wr) 1 t events 0 s = Some (s', xs', ys', t', ev, n') \<and>
     writes events 0 ev n'
       [(EV_FINGERID, 0, sint (curFingerId s)), (EV_KEY, BTN_TOUCH, 1), (EV_ABS, ABS_X, x),
        (EV_ABS, ABS_Y, y), (EV_SYN, 0, 0)] \<and>
     gsm_inv s' \<and> finger_count s' = finger_count s \<and> spGeneralSettings s' = Some g \<and>
     sFingers s' = [f'] \<and> f_id f' = curFingerId s \<and> co_x (finger_pos f') = x \<and>
     co_y (finger_pos f') = y \<and> lastWeight f' = w \<and> curFingerId s' = curFingerId s + 1"
  using assms(1)
proof (rule scan_pre_trace)
  fix g' fs1 fs2 new stay leave s' xs' ys' t' ev n'
  assume g': "spGeneralSettings s = Some g'"
    and run: "gesture_state_machine (x # xr) (y # yr) (w # wr) 1 t events 0 s = Some (s', xs', ys', t', ev, n')"
    and tr: "scan_trace g' (x # xr) (y # yr) (w # wr) 1 t s fs1 fs2 new stay leave s'"
    and fin: "\<forall>f \<in> set stay. tracked f" "\<forall>f \<in> set leave. free_finger f"
    and wr: "writes events 0 ev n'
       (concat (map finger_events (new @ fs2)) @ (if (0::nat) = 0 \<and> new @ fs2 = [] then [] else [(EV_SYN, 0, 0)]))"
  have inv: "gsm_inv s" using assms(1) by (simp add: scan_pre_def)
  have fs: "fs1 = []" "fs2 = []" using tr assms(3) by (auto simp: scan_trace_def)
  have fresh: "filter (\<lambda>j. j \<notin> taken fs1 \<and> fresh_touch g' (x # xr) (y # yr) (w # wr) j) [0..<1] = [0]"
    using g' assms(2,5,6) by (auto simp: fs taken_def fresh_touch_def)
  have "newborns (x # xr) (y # yr) (w # wr) (curFingerId s)
      (take (length (availableFingers s)) [0]) (rev new)"
    using tr unfolding scan_trace_def fresh by blast
  moreover have "take (length (availableFingers s)) [0] = [0::nat]"
    using assms(4) by (cases "availableFingers s") auto
  ultimately obtain f where f: "new = [f]" "born f" "f_id f = curFingerId s" "lastWeight f = w"
    "co_x (finger_pos f) = x" "co_y (finger_pos f) = y"
    by (auto simp: newborns_single)
  have "\<not> released f" using f(2) by (simp add: born_def released_def)
  then obtain f' where f': "stay = [f']" "carried f f'"
    using tr by (auto simp: scan_trace_def f(1) fs list_all2_Cons1)
  have "finger_events f = [(EV_FINGERID, 0, sint (curFingerId s)), (EV_KEY, BTN_TOUCH, 1),
      (EV_ABS, ABS_X, x), (EV_ABS, ABS_Y, y)]"
    using f by (simp add: finger_events_def born_def)
  with wr have "writes events 0 ev n'
       [(EV_FINGERID, 0, sint (curFingerId s)), (EV_KEY, BTN_TOUCH, 1), (EV_ABS, ABS_X, x),
        (EV_ABS, ABS_Y, y), (EV_SYN, 0, 0)]"
    by (simp add: f(1) fs)
  moreover have "sFingers s' = [f']" "curFingerId s' = curFingerId s + 1" "spGeneralSettings s' = Some g"
    using scan_trace_state [OF tr] f'(1) assms(2) by (simp_all add: f(1))
  moreover have "f_id f' = curFingerId s" "co_x (finger_pos f') = x" "co_y (finger_pos f') = y"
    "lastWeight f' = w"
    using f'(2) f by (auto simp: carried_def finger_pos_def)
  ultimately show ?thesis
    using run scan_trace_inv [OF tr inv fin] scan_trace_counts(1) [OF tr] by blast
qed

section \<open>A move\<close>

text \<open>With one finger down and one touch, the finger takes the touch wherever it is.\<close>

lemma match_single:
  assumes "tracked f" "panel_coord x" "panel_coord y"
  shows "match_fingers (x # xr) (y # yr) [0..<1] [f] = Some [f\<lparr>minDistId := 0, minDist := fdist x y f\<rparr>]"
proof -
  have wf: "finger_wf f" and far: "minDist f = INT_MAX" using assms(1) by (simp_all add: tracked_def)
  have "fdist x y f < INT_MAX" using fdist_bounds [OF wf assms(2,3)] by simp
  then have "first_nearest x y [f] 0" by (simp add: first_nearest_def eligible_def far)
  then have "match_scan (x # xr) (y # yr) 0 [f] 0 None INT_MAX = Some (Some 0, fdist x y f)"
    using match_scan_nearest [of "[f]" 0 "x # xr" "y # yr"] wf assms(2,3)
    by (auto simp: first_nearest_def)
  then show ?thesis by simp
qed

lemma drag_scan:
  assumes "scan_pre (x # xr) (y # yr) (w # wr) 1 t events 0 s" "spGeneralSettings s = Some g"
    and "sFingers s = [f]" "lastWeight f sdiv 2 < w"
  defines "c \<equiv> filtered (positionFilter g) (hist (coords f)) \<lparr>co_x = x, co_y = y, co_timeStamp = t\<rparr>"
  shows "\<exists>s' xs' ys' t' ev n' f'.
     gesture_state_machine (x # xr) (y # yr) (w # wr) 1 t events 0 s = Some (s', xs', ys', t', ev, n') \<and>
     writes events 0 ev n'
       [(EV_FINGERID, 0, sint (f_id f)), (EV_ABS, ABS_X, co_x c), (EV_ABS, ABS_Y, co_y c), (EV_SYN, 0, 0)] \<and>
     gsm_inv s' \<and> finger_count s' = finger_count s \<and> spGeneralSettings s' = Some g \<and>
     sFingers s' = [f'] \<and> f_id f' = f_id f \<and> finger_pos f' = c \<and> lastWeight f' = w \<and>
     curFingerId s' = curFingerId s"
  using assms(1)
proof (rule scan_pre_trace)
  fix g' fs1 fs2 new stay leave s' xs' ys' t' ev n'
  assume g': "spGeneralSettings s = Some g'"
    and run: "gesture_state_machine (x # xr) (y # yr) (w # wr) 1 t events 0 s = Some (s', xs', ys', t', ev, n')"
    and tr: "scan_trace g' (x # xr) (y # yr) (w # wr) 1 t s fs1 fs2 new stay leave s'"
    and fin: "\<forall>f \<in> set stay. tracked f" "\<forall>f \<in> set leave. free_finger f"
    and wr: "writes events 0 ev n'
       (concat (map finger_events (new @ fs2)) @ (if (0::nat) = 0 \<and> new @ fs2 = [] then [] else [(EV_SYN, 0, 0)]))"
  have inv: "gsm_inv s" using assms(1) by (simp add: scan_pre_def)
  have f: "tracked f" and pc: "panel_coord x" "panel_coord y"
    using assms(1,3) by (auto simp: scan_pre_def gsm_inv_def touches_ok_def)
  have far: "minDist f = INT_MAX" "gs_state (f_state f) = FINGER_DOWN_STATE" "cb_wf (coords f)"
    using f by (simp_all add: tracked_def finger_wf_def)
  have fd: "fdist x y f < INT_MAX"
    using fdist_bounds [OF _ pc] f by (simp add: tracked_def)
  define f1 where "f1 = f\<lparr>minDistId := 0, minDist := fdist x y f\<rparr>"
  have fs1: "fs1 = [f1]"
    using tr match_single [OF f pc] assms(3) by (simp add: scan_trace_def f1_def)
  then obtain f2 where fs2: "fs2 = [f2]" "absorbs g (w # wr) t (x # xr) (y # yr) f1 f2"
    using tr g' assms(2) by (auto simp: scan_trace_def list_all2_Cons1)
  have "taken fs1 = {0}" using fd by (auto simp: fs1 taken_def f1_def)
  then have new: "new = []" using tr by (simp add: scan_trace_def)
  have f2: "f_id f2 = f_id f" "f_state f2 = f_state f" "minDist f2 = 0" "lastWeight f2 = w"
    "hist (coords f2) = keep_last (nat (cb_size (coords f))) (hist (coords f) @ [c])"
    using fs2(2) fd assms(4)
    by (simp_all add: absorbs_def f1_def absorb_hist_def Let_def c_def split: if_splits)
  have pos: "finger_pos f2 = c"
    using f2(5) cb.capacity_pos [OF far(3)] by (simp add: finger_pos_def)
  have kept: "\<not> released f2" using f2(3) by (simp add: released_def)
  then obtain f' where "stay = [f']" "carried f2 f'"
    using tr by (auto simp: scan_trace_def new fs2 list_all2_Cons1)
  then have "sFingers s' = [f']" "f_id f' = f_id f" "finger_pos f' = c" "lastWeight f' = w"
    "curFingerId s' = curFingerId s" "spGeneralSettings s' = Some g"
    using scan_trace_state [OF tr] f2 pos assms(2) by (simp_all add: carried_def finger_pos_def new)
  moreover have "finger_events f2 = [(EV_FINGERID, 0, sint (f_id f)), (EV_ABS, ABS_X, co_x c), (EV_ABS, ABS_Y, co_y c)]"
    using f2 pos far by (simp add: finger_events_def)
  with wr have "writes events 0 ev n'
       [(EV_FINGERID, 0, sint (f_id f)), (EV_ABS, ABS_X, co_x c), (EV_ABS, ABS_Y, co_y c), (EV_SYN, 0, 0)]"
    by (simp add: new fs2)
  ultimately show ?thesis
    using run scan_trace_inv [OF tr inv fin] scan_trace_counts(1) [OF tr] by blast
qed

section \<open>No touch\<close>

text \<open>What a finger that has gone reports.\<close>

definition release_events :: "finger \<Rightarrow> (u16 \<times> u16 \<times> int) list" where
  "release_events f =
     [(EV_FINGERID, 0, sint (f_id f)), (EV_ABS, ABS_X, co_x (finger_pos f)),
      (EV_ABS, ABS_Y, co_y (finger_pos f)), (EV_KEY, BTN_TOUCH, 0)]"

lemma no_touch_scan:
  assumes "scan_pre xs ys ws 0 t events 0 s"
  shows "\<exists>s' xs' ys' t' ev n'.
     gesture_state_machine xs ys ws 0 t events 0 s = Some (s', xs', ys', t', ev, n') \<and>
     writes events 0 ev n'
       (concat (map release_events (sFingers s)) @ (if sFingers s = [] then [] else [(EV_SYN, 0, 0)])) \<and>
     gsm_inv s' \<and> finger_count s' = finger_count s \<and> spGeneralSettings s' = spGeneralSettings s \<and>
     sFingers s' = [] \<and> curFingerId s' = curFingerId s"
  using assms(1)
proof (rule scan_pre_trace)
  fix g fs1 fs2 new stay leave s' xs' ys' t' ev n'
  assume run: "gesture_state_machine xs ys ws 0 t events 0 s = Some (s', xs', ys', t', ev, n')"
    and tr: "scan_trace g xs ys ws 0 t s fs1 fs2 new stay leave s'"
    and fin: "\<forall>f \<in> set stay. tracked f" "\<forall>f \<in> set leave. free_finger f"
    and wr: "writes events 0 ev n'
       (concat (map finger_events (new @ fs2)) @ (if (0::nat) = 0 \<and> new @ fs2 = [] then [] else [(EV_SYN, 0, 0)]))"
  have inv: "gsm_inv s" using assms(1) by (simp add: scan_pre_def)
  have new: "new = []" using tr by (simp add: scan_trace_def)
  have same: "list_all2 same_track (sFingers s) fs1" using tr by (simp only: scan_trace_def)
  have gone: "\<forall>f \<in> set fs1. minDist f = INT_MAX"
    using tr by (auto simp: scan_trace_def matching_def matched_to_def)
  have fs2: "fs2 = fs1" using tr gone absorbs_unmatched by (auto simp: scan_trace_def)
  have "\<forall>f \<in> set (sFingers s). tracked f" using inv by (simp add: gsm_inv_def)
  then have rel: "map finger_events fs1 = map release_events (sFingers s)"
    unfolding release_events_def [abs_def] using unmatched_events [OF same _ gone] by blast
  have "filter (\<lambda>f. \<not> released f) fs1 = []"
    using gone by (auto simp: filter_empty_conv released_def INT_MAX_def)
  then have stay: "stay = []" using tr by (simp add: scan_trace_def new fs2)
  have "fs1 = [] \<longleftrightarrow> sFingers s = []" using same by auto
  with wr have "writes events 0 ev n'
      (concat (map release_events (sFingers s)) @ (if sFingers s = [] then [] else [(EV_SYN, 0, 0)]))"
    by (simp add: new fs2 rel)
  moreover have "sFingers s' = []" "curFingerId s' = curFingerId s"
    "spGeneralSettings s' = spGeneralSettings s"
    using scan_trace_state [OF tr] by (simp_all add: stay new)
  ultimately show ?thesis
    using run scan_trace_inv [OF tr inv fin] scan_trace_counts(1) [OF tr] by blast
qed

section \<open>A touch at the origin\<close>

lemma lost_touch_scan:
  assumes "scan_pre (0 # xr) (0 # yr) ws 1 t events 0 s" "sFingers s = []"
  shows "\<exists>xs' ys' t'. gesture_state_machine (0 # xr) (0 # yr) ws 1 t events 0 s
     = Some (s, xs', ys', t', events, 0)"
  using assms(2)
  by (auto simp: gesture_state_machine_def arr_get_def match_scan.simps(1) scan_pre_ready [OF assms(1)])

end
