(* ===== verification/Gesture_Properties.thy ===== *)
theory Gesture_Properties
  imports Gesture_Single
begin

text \<open>
  The properties of the finger tracker, with concrete scans that meet their hypotheses. The
  example state has two fingers, one of them down at (100, 200).
\<close>

section \<open>An example state\<close>

definition ex_time :: time_stamp where
  "ex_time = \<lparr>ts_sec = 7, ts_nsec = 500\<rparr>"

definition ex_settings :: general_settings where
  "ex_settings = \<lparr>coordBufSize = 2, fingerDownThreshold = 3, positionFilter = 1\<rparr>"

definition ex_coord :: coord where
  "ex_coord = \<lparr>co_x = 100, co_y = 200, co_timeStamp = ex_time\<rparr>"

definition ex_data :: "gesture_state \<Rightarrow> gesture_state_data" where
  "ex_data st = \<lparr>gs_state = st, gs_startX = 0, gs_startY = 0, insideTapRadius = True,
     startTime = ex_time\<rparr>"

definition ex_down :: finger where
  "ex_down = \<lparr>coords = \<lparr>pCoords = Some [ex_coord, ex_coord], cb_head = 0, cb_tail = 1,
                          numItems = 1, cb_size = 2\<rparr>,
     f_timestamp = ex_time, f_id = 4, f_state = ex_data FINGER_DOWN_STATE, minDist = INT_MAX,
     minDistId = 0, lastWeight = 10, f_numEvents = 0\<rparr>"

definition ex_free :: finger where
  "ex_free = \<lparr>coords = \<lparr>pCoords = Some [ex_coord, ex_coord], cb_head = 0, cb_tail = 0,
                          numItems = 0, cb_size = 2\<rparr>,
     f_timestamp = ex_time, f_id = 0, f_state = ex_data UNUSED, minDist = 0, minDistId = 0,
     lastWeight = 0, f_numEvents = 0\<rparr>"

definition ex_gsm :: gsm where
  "ex_gsm = \<lparr>sFingers = [ex_down], sFingers_freed = False, availableFingers = [ex_free],
     curFingerId = 5, spGeneralSettings = Some ex_settings\<rparr>"

definition ex_event :: input_event where
  "ex_event = \<lparr>ev_sec = 1, ev_usec = 2, ev_type = 0, ev_code = 0, ev_value = 0\<rparr>"

definition ex_events :: "input_event list" where
  "ex_events = replicate 20 ex_event"

definition snd_buffer :: "int \<times> coord_buf option \<Rightarrow> coord_buf" where
  "snd_buffer r = the (snd r)"

lemmas ex_defs = ex_time_def ex_settings_def ex_coord_def ex_data_def ex_down_def ex_free_def
  ex_gsm_def ex_event_def ex_events_def

lemma ex_gsm_ok:
  "gsm_inv ex_gsm" "spGeneralSettings ex_gsm = Some ex_settings" "finger_count ex_gsm = 2"
  by (simp_all add: gsm_inv_def tracked_def free_finger_def finger_wf_def cb_wf_def hist_def
      ring_list_def on_panel_def panel_coord_def finger_count_def ex_defs)

lemma ex_touches_ok: "touches_ok [101, 300] [201, 400] [9, 8]"
  by (simp add: touches_ok_def panel_coord_def)

lemma ex_time_ok: "0 \<le> ts_nsec ex_time" "ts_nsec ex_time < 1000000000"
  by (simp_all add: ex_time_def)

lemma length_ex_events: "length ex_events = 20"
  by (simp add: ex_events_def)

section \<open>A scan is safe\<close>

lemma scan_pre_ex: "scan_pre [101, 300] [201, 400] [9, 8] 2 ex_time ex_events 0 ex_gsm"
  using ex_gsm_ok ex_touches_ok ex_time_ok by (simp add: scan_pre_def length_ex_events)

text \<open>
  C1: One scan of the panel (\<open>gesture_state_machine\<close>) never runs into undefined behaviour (no
  signed overflow, no access outside the touch arrays, the coordinate rings or the event
  array), keeps the tracker's invariant, loses and duplicates no finger structure, and writes
  at most five events per structure plus one, touching no event before the ones it appends.
\<close>

theorem gesture_scan_safe:
  assumes "scan_pre xs ys ws numFingers t events n s"
  shows "\<exists>s' xs' ys' t' ev n'.
     gesture_state_machine xs ys ws numFingers t events n s = Some (s', xs', ys', t', ev, n') \<and>
     gsm_inv s' \<and> finger_count s' = finger_count s \<and> length ev = length events \<and>
     n' \<le> n + 5 * finger_count s + 1 \<and>
     map payload (take n ev) = map payload (take n events)"
proof -
  have inv: "gsm_inv s" and room: "n \<le> length events"
    using assms by (auto simp: scan_pre_def)
  from assms show ?thesis
  proof (rule scan_pre_trace)
    fix g fs1 fs2 new stay leave s' xs' ys' t' ev n'
    assume tr: "scan_trace g xs ys ws numFingers t s fs1 fs2 new stay leave s'"
      and run: "gesture_state_machine xs ys ws numFingers t events n s = Some (s', xs', ys', t', ev, n')"
      and fin: "\<forall>f \<in> set stay. tracked f" "\<forall>f \<in> set leave. free_finger f"
      and w: "writes events n ev n'
       (concat (map finger_events (new @ fs2)) @ (if n = 0 \<and> new @ fs2 = [] then [] else [(EV_SYN, 0, 0)]))"
    note cnt = scan_trace_counts [OF tr]
    have "length (concat (map finger_events (new @ fs2))) \<le> 5 * finger_count s"
      using length_concat_finger_events [of "new @ fs2"] cnt(2) by simp
    then have "n' \<le> n + 5 * finger_count s + 1"
      using writes_length [OF w] by simp
    with run cnt(1) scan_trace_inv [OF tr inv fin] writes_length [OF w] writes_prefix [OF w room]
    show ?thesis by auto
  qed
qed

theorem gesture_scan_safe_witness:
  "\<exists>s' xs' ys' t' ev n'.
     gesture_state_machine [101, 300] [201, 400] [9, 8] 2 ex_time ex_events 0 ex_gsm
       = Some (s', xs', ys', t', ev, n') \<and>
     gsm_inv s' \<and> finger_count s' = 2 \<and> length ev = 20 \<and> n' \<le> 11"
  using gesture_scan_safe [OF scan_pre_ex] by (auto simp: ex_gsm_ok length_ex_events)

section \<open>The coordinate history\<close>

text \<open>
  C8: Without the position filter, a fresh ring buffer of \<open>n\<close> slots that records any sequence of
  coordinates holds exactly the last \<open>n\<close> of them, oldest first, never leaves its array, and
  \<open>get_last_coords\<close> reads the newest.
\<close>

theorem coord_buffer_keeps_newest:
  assumes "int (length a) = n" "0 < n" "n < 2 ^ 30"
    and "create_coord_buffer (Some a) (Some b) n = (r, Some b0)"
  shows "\<exists>b'. record_all 0 cs b0 = Some b' \<and> hist b' = keep_last (nat n) cs \<and>
     (cs \<noteq> [] \<longrightarrow> get_last_coords b' = Some (last cs))"
proof -
  have b0: "cb_wf b0" "hist b0 = []" "cb_size b0 = n"
    using create_coord_buffer_wf [OF assms] by simp_all
  obtain b' where b': "record_all 0 cs b0 = Some b'" "cb_wf b'"
    using record_all_defined [OF b0(1)] by blast
  have h: "hist b' = keep_last (nat n) cs"
    using record_all_contents [OF b0(1) b'(1)] b0 by simp
  have "get_last_coords b' = Some (last cs)" if "cs \<noteq> []"
  proof -
    have "last (hist b') = last cs" "hist b' \<noteq> []"
      using that assms(2) last_keep_last [of "nat n" "butlast cs" "last cs"] by (simp_all add: h)
    with cb.latest_contents [OF b'(2)] show ?thesis by simp
  qed
  with b' h show ?thesis by simp
qed

theorem coord_buffer_keeps_newest_witness:
  "\<exists>b'. record_all 0 [ex_coord, ex_coord\<lparr>co_x := 1\<rparr>, ex_coord\<lparr>co_x := 2\<rparr>]
       (snd_buffer (create_coord_buffer (Some [ex_coord, ex_coord]) (Some (coords ex_down)) 2)) = Some b' \<and>
     hist b' = [ex_coord\<lparr>co_x := 1\<rparr>, ex_coord\<lparr>co_x := 2\<rparr>]"
proof -
  let ?r = "create_coord_buffer (Some [ex_coord, ex_coord]) (Some (coords ex_down)) 2"
  have "?r = (0, Some (snd_buffer ?r))" by (simp add: create_coord_buffer_def snd_buffer_def)
  from coord_buffer_keeps_newest [OF _ _ _ this,
      of "[ex_coord, ex_coord\<lparr>co_x := 1\<rparr>, ex_coord\<lparr>co_x := 2\<rparr>]"]
  show ?thesis by (auto simp: keep_last_def)
qed

section \<open>Matching\<close>

text \<open>
  C2: The inner loop of the tracker gives a touch to the first of the nearest fingers that no
  earlier touch is nearer to, and to no finger when there is none.
\<close>

theorem gesture_match_nearest:
  assumes "\<forall>f \<in> set fs. finger_wf f" "touches_ok xs ys ws" "j < length xs"
  shows "(match_scan xs ys j fs 0 None INT_MAX = Some (None, INT_MAX) \<and>
           (\<forall>f \<in> set fs. minDist f < fdist (xs ! j) (ys ! j) f))
       \<or> (\<exists>k. match_scan xs ys j fs 0 None INT_MAX = Some (Some k, fdist (xs ! j) (ys ! j) (fs ! k)) \<and>
             first_nearest (xs ! j) (ys ! j) fs k)"
proof -
  have "j < length ys" using assms(2,3) by (simp add: touches_ok_def)
  with match_scan_nearest [OF assms(1,3)] touches_ok_nth [OF assms(2,3)] show ?thesis
    by (simp add: eligible_def not_le)
qed

theorem gesture_match_nearest_witness:
  "match_scan [101, 300] [201, 400] 0 [ex_down] 0 None INT_MAX = Some (Some 0, 2)"
proof -
  have wf: "finger_wf ex_down"
    using ex_gsm_ok(1) by (simp add: gsm_inv_def tracked_def ex_gsm_def)
  have d: "fdist 101 201 ex_down = 2"
    by (simp add: fdist_def finger_pos_def hist_def ring_list_def ex_defs)
  have "\<not> minDist ex_down < fdist 101 201 ex_down"
    by (simp add: d) (simp add: ex_down_def INT_MAX_def)
  with gesture_match_nearest [OF _ ex_touches_ok, of "[ex_down]" 0] wf d show ?thesis
    by (auto simp: first_nearest_def)
qed

text \<open>
  C3: After all touches of a scan have been matched, the fingers are what they were but for
  their match, every matched finger is paired with one of the touches at its true squared
  distance, and two fingers are never paired with the same touch.
\<close>

theorem gesture_match_injective:
  assumes "\<forall>f \<in> set fs. tracked f" "touches_ok xs ys ws" "n \<le> length xs"
  shows "\<exists>fs'. match_fingers xs ys [0..<n] fs = Some fs' \<and> list_all2 same_track fs fs' \<and>
     (\<forall>f \<in> set fs'. minDist f \<noteq> INT_MAX \<longrightarrow>
        (\<exists>j < n. minDistId f = int j \<and> minDist f = fdist (xs ! j) (ys ! j) f)) \<and>
     (\<forall>k < length fs'. \<forall>l < length fs'. k \<noteq> l \<longrightarrow> minDist (fs' ! k) \<noteq> INT_MAX \<longrightarrow>
        minDist (fs' ! l) \<noteq> INT_MAX \<longrightarrow> minDistId (fs' ! k) \<noteq> minDistId (fs' ! l))"
proof -
  have "\<forall>f \<in> set fs. finger_wf f" "matching xs ys {} fs"
    using assms(1) by (auto simp: tracked_def intro: matching_start)
  moreover have "\<forall>j \<in> set [0..<n]. j < length xs \<and> j < length ys \<and> panel_coord (xs ! j) \<and> panel_coord (ys ! j)"
    using assms(3) touches_ok_nth [OF assms(2)] assms(2) by (auto simp: touches_ok_def)
  ultimately obtain fs' where "match_fingers xs ys [0..<n] fs = Some fs'"
    "list_all2 same_track fs fs'" "matching xs ys {..<n} fs'"
    using match_fingers_correct [of fs "[0..<n]" "{}" xs ys] by (auto simp: atLeast0LessThan)
  then show ?thesis
    unfolding matching_def matched_to_def by blast
qed

theorem gesture_match_injective_witness:
  "\<exists>fs'. match_fingers [101, 300] [201, 400] [0..<2] [ex_down] = Some fs' \<and> length fs' = 1"
proof -
  have "\<forall>f \<in> set [ex_down]. tracked f"
    using ex_gsm_ok(1) by (simp add: gsm_inv_def ex_gsm_def)
  then obtain fs' where "match_fingers [101, 300] [201, 400] [0..<2] [ex_down] = Some fs'"
    "list_all2 same_track [ex_down] fs'"
    using gesture_match_injective [OF _ ex_touches_ok, of "[ex_down]" 2] by auto
  then show ?thesis by (auto dest: list_all2_lengthD)
qed

section \<open>The events of a scan\<close>

text \<open>
  C4: The events that a scan appends are, finger by finger (new fingers before known ones), the
  block of the finger: its id, a press when it is new, its position, a release when it has
  gone; a synchronisation event closes them. \<open>scan_trace\<close> says how the fingers come from the
  state before and where they go.
\<close>

theorem gesture_scan_events:
  assumes "scan_pre xs ys ws numFingers t events n s"
  shows "\<exists>g fs1 fs2 new stay leave s' xs' ys' t' ev n'.
     gesture_state_machine xs ys ws numFingers t events n s = Some (s', xs', ys', t', ev, n') \<and>
     scan_trace g xs ys ws numFingers t s fs1 fs2 new stay leave s' \<and>
     map payload (take n' ev) = map payload (take n events) @ concat (map finger_events (new @ fs2))
       @ (if n = 0 \<and> new @ fs2 = [] then [] else [(EV_SYN, 0, 0)])"
  using assms
proof (rule scan_pre_trace)
  fix g fs1 fs2 new stay leave s' xs' ys' t' ev n'
  assume "gesture_state_machine xs ys ws numFingers t events n s = Some (s', xs', ys', t', ev, n')"
    "scan_trace g xs ys ws numFingers t s fs1 fs2 new stay leave s'"
    and w: "writes events n ev n'
       (concat (map finger_events (new @ fs2)) @ (if n = 0 \<and> new @ fs2 = [] then [] else [(EV_SYN, 0, 0)]))"
  moreover note writes_payloads [OF w]
  ultimately show ?thesis by blast
qed

theorem gesture_scan_events_witness:
  "\<exists>g fs1 fs2 new stay leave s' xs' ys' t' ev n'.
     gesture_state_machine [101, 300] [201, 400] [9, 8] 2 ex_time ex_events 0 ex_gsm
       = Some (s', xs', ys', t', ev, n') \<and>
     scan_trace g [101, 300] [201, 400] [9, 8] 2 ex_time ex_gsm fs1 fs2 new stay leave s' \<and>
     map payload (take n' ev) = concat (map finger_events (new @ fs2))
       @ (if new @ fs2 = [] then [] else [(EV_SYN, 0, 0)])"
  using gesture_scan_events [OF scan_pre_ex]
  by (simp only: take_0 list.map append_Nil simp_thms)

text \<open>
  A scan without touches releases every finger: each one reports its id, its last position
  and a release of the touch button, in order, and all finger structures are free afterwards.
\<close>

theorem gesture_scan_no_touch:
  assumes "scan_pre xs ys ws 0 t events 0 s" "sFingers s \<noteq> []"
  shows "\<exists>s' xs' ys' t' ev n'.
     gesture_state_machine xs ys ws 0 t events 0 s = Some (s', xs', ys', t', ev, n') \<and>
     map payload (take n' ev) = concat (map release_events (sFingers s)) @ [(EV_SYN, 0, 0)] \<and>
     sFingers s' = [] \<and> length (availableFingers s') = finger_count s \<and>
     (\<forall>f \<in> set (availableFingers s'). free_finger f)"
proof -
  obtain s' xs' ys' t' ev n' where
    run: "gesture_state_machine xs ys ws 0 t events 0 s = Some (s', xs', ys', t', ev, n')"
      "writes events 0 ev n'
        (concat (map release_events (sFingers s)) @ (if sFingers s = [] then [] else [(EV_SYN, 0, 0)]))"
      "gsm_inv s'" "finger_count s' = finger_count s" "sFingers s' = []"
    using no_touch_scan [OF assms(1)] by blast
  from run(2) assms(2) have
    "map payload (take n' ev) = concat (map release_events (sFingers s)) @ [(EV_SYN, 0, 0)]"
    by (auto dest: writes_payloads_0)
  with run show ?thesis by (auto simp: gsm_inv_def finger_count_def)
qed

theorem gesture_scan_no_touch_witness:
  "\<exists>s' xs' ys' t' ev n'.
     gesture_state_machine [] [] [] 0 ex_time ex_events 0 ex_gsm = Some (s', xs', ys', t', ev, n') \<and>
     map payload (take n' ev) = [(7, 0, 4), (3, 0, 100), (3, 1, 200), (1, 0x14a, 0), (0, 0, 0)] \<and>
     sFingers s' = []"
proof -
  have "scan_pre [] [] [] 0 ex_time ex_events 0 ex_gsm" "sFingers ex_gsm \<noteq> []"
    using ex_gsm_ok ex_time_ok
    by (simp_all add: scan_pre_def length_ex_events touches_ok_def) (simp add: ex_gsm_def)
  moreover have "concat (map release_events (sFingers ex_gsm)) @ [(EV_SYN, 0, 0)]
      = [(7, 0, 4), (3, 0, 100), (3, 1, 200), (1, 0x14a, 0), (0, 0, 0)]"
    by (simp add: release_events_def finger_pos_def hist_def ring_list_def ex_defs input_codes)
  ultimately show ?thesis using gesture_scan_no_touch [of "[]" "[]" "[]" ex_time ex_events ex_gsm]
    by auto
qed

text \<open>
  The tracker stores no time in the events it emits: \<open>set_event_params\<close> copies the event's
  old time words to the caller's time stamp and leaves those of the event as they were, so
  every event of the array still has the time it had before the scan.
\<close>

theorem gesture_scan_event_times:
  assumes "scan_pre xs ys ws numFingers t events n s"
  shows "\<exists>s' xs' ys' t' ev n'.
     gesture_state_machine xs ys ws numFingers t events n s = Some (s', xs', ys', t', ev, n') \<and>
     map event_time ev = map event_time events"
  using assms by (rule scan_pre_trace) (auto simp: writes_def)

theorem gesture_scan_event_times_witness:
  "\<exists>s' xs' ys' t' ev n'.
     gesture_state_machine [101, 300] [201, 400] [9, 8] 2 ex_time ex_events 0 ex_gsm
       = Some (s', xs', ys', t', ev, n') \<and>
     map event_time ev = replicate 20 (1, 2)"
  using gesture_scan_event_times [OF scan_pre_ex]
  by (simp add: ex_events_def ex_event_def event_time_def)

section \<open>One finger down\<close>

text \<open>
  C5: A drag. With one finger down, a single touch anywhere on the panel whose weight is more
  than half of the last one moves that finger: the scan reports its id, the touch after the
  position filter and a synchronisation event, without press or release; the finger keeps its
  id and records the position.
\<close>

theorem gesture_drag:
  assumes "scan_pre [x] [y] [w] 1 t events 0 s" "spGeneralSettings s = Some g" "sFingers s = [f]"
    and "lastWeight f sdiv 2 < w"
  defines "c \<equiv> filtered (positionFilter g) (hist (coords f)) \<lparr>co_x = x, co_y = y, co_timeStamp = t\<rparr>"
  shows "\<exists>s' xs' ys' t' ev n' f'.
     gesture_state_machine [x] [y] [w] 1 t events 0 s = Some (s', xs', ys', t', ev, n') \<and>
     map payload (take n' ev) =
       [(EV_FINGERID, 0, sint (f_id f)), (EV_ABS, ABS_X, co_x c), (EV_ABS, ABS_Y, co_y c),
        (EV_SYN, 0, 0)] \<and>
     sFingers s' = [f'] \<and> f_id f' = f_id f \<and> finger_pos f' = c \<and> lastWeight f' = w"
  using drag_scan [OF assms(1-4)] unfolding c_def by (blast dest: writes_payloads_0)

theorem gesture_drag_witness:
  "\<exists>s' xs' ys' t' ev n'.
     gesture_state_machine [150] [170] [6] 1 ex_time ex_events 0 ex_gsm = Some (s', xs', ys', t', ev, n') \<and>
     map payload (take n' ev) = [(7, 0, 4), (3, 0, 149), (3, 1, 171), (0, 0, 0)]"
proof -
  have "scan_pre [150] [170] [6] 1 ex_time ex_events 0 ex_gsm"
    using ex_gsm_ok ex_time_ok
    by (simp add: scan_pre_def length_ex_events touches_ok_def panel_coord_def)
  moreover have "sFingers ex_gsm = [ex_down]" "lastWeight ex_down sdiv 2 < 6"
    by (simp_all add: ex_gsm_def ex_down_def signed_divide_int_def)
  moreover have "filtered (positionFilter ex_settings) (hist (coords ex_down))
      \<lparr>co_x = 150, co_y = 170, co_timeStamp = ex_time\<rparr>
      = \<lparr>co_x = 149, co_y = 171, co_timeStamp = ex_time\<rparr>" "sint (f_id ex_down) = 4"
    by (simp_all add: filtered_def hist_def ring_list_def nudge_def ex_defs)
  ultimately show ?thesis
    using gesture_drag [OF _ ex_gsm_ok(2), of 150 170 6 ex_time ex_events ex_down]
    by (auto simp: input_codes)
qed

section \<open>Runs of scans\<close>

text \<open>
  Any number of scans, each with an event array of its own, as the caller makes them. A scan is
  its touch arrays, the number of touches and the time.
\<close>

type_synonym scan = "int list \<times> int list \<times> int list \<times> nat \<times> time_stamp"

fun run_scans :: "input_event list \<Rightarrow> scan list \<Rightarrow> gsm \<Rightarrow> gsm option" where
  "run_scans events [] s = Some s"
| "run_scans events ((xs, ys, ws, n, t) # scans) s = do {
     (s', _) \<leftarrow> gesture_state_machine xs ys ws n t events 0 s;
     run_scans events scans s' }"

definition scan_ok :: "scan \<Rightarrow> bool" where
  "scan_ok = (\<lambda>(xs, ys, ws, n, t).
     touches_ok xs ys ws \<and> n \<le> length xs \<and> n \<le> 1000 \<and> 0 \<le> ts_nsec t \<and> ts_nsec t < 1000000000)"

lemma run_scans_correct:
  assumes "gsm_inv s" "list_all scan_ok scans" "5 * finger_count s < length events"
  shows "\<exists>s'. run_scans events scans s = Some s' \<and> gsm_inv s' \<and> finger_count s' = finger_count s"
  using assms
proof (induction scans arbitrary: s)
  case (Cons sc scans)
  obtain xs ys ws n t where sc: "sc = (xs, ys, ws, n, t)" by (cases sc)
  have "scan_pre xs ys ws n t events 0 s"
    using Cons.prems by (simp add: scan_pre_def scan_ok_def sc)
  then obtain s1 r where s1: "gesture_state_machine xs ys ws n t events 0 s = Some (s1, r)"
    "gsm_inv s1" "finger_count s1 = finger_count s"
    using scan_pre_step by blast
  from Cons.IH [OF s1(2)] Cons.prems s1(3) obtain s' where
    "run_scans events scans s1 = Some s'" "gsm_inv s'" "finger_count s' = finger_count s"
    by auto
  with s1 show ?case by (simp add: sc)
qed simp

text \<open>
  C6: From start to any time: when \<open>init_gesture_state_machine\<close> gets its memory, it makes two
  finger structures per finger, and after any sequence of scans of a panel, however many
  touches they have, the tracker has run without undefined behaviour, holds its invariant and
  still has all its structures.
\<close>

theorem gesture_run_safe:
  assumes "\<forall>i < nat (2 * maxFingers). \<exists>f a. fmem i = Some f \<and> cmem i = Some a \<and>
             int (length a) = coordBufSize g"
    and "0 < coordBufSize g" "coordBufSize g < 2 ^ 30" "0 \<le> maxFingers" "maxFingers < 2 ^ 30"
    and "list_all scan_ok scans" "10 * nat maxFingers < length events"
  shows "\<exists>s1 s2. init_gesture_state_machine fmem cmem g maxFingers gsm_start = Some s1 \<and>
     run_scans events scans s1 = Some s2 \<and> gsm_inv s2 \<and> finger_count s2 = nat (2 * maxFingers)"
proof -
  obtain s1 where s1: "init_gesture_state_machine fmem cmem g maxFingers gsm_start = Some s1"
    "gsm_inv s1" "finger_count s1 = nat (2 * maxFingers)"
    using init_gesture_state_machine_correct [OF assms(1-5), of gsm_start]
    by (auto simp: gsm_start_def)
  have "5 * finger_count s1 < length events" using assms(4,7) s1(3) by simp
  from run_scans_correct [OF s1(2) assms(6) this] s1 show ?thesis by auto
qed

theorem gesture_run_safe_witness:
  "\<exists>s1 s2. init_gesture_state_machine (\<lambda>_. Some ex_free) (\<lambda>_. Some [ex_coord, ex_coord]) ex_settings 1
       gsm_start = Some s1 \<and>
     run_scans ex_events [([5], [6], [7], 1, ex_time), ([], [], [], 0, ex_time)] s1 = Some s2 \<and>
     gsm_inv s2 \<and> finger_count s2 = 2"
  using gesture_run_safe [of 1 "\<lambda>_. Some ex_free" "\<lambda>_. Some [ex_coord, ex_coord]" ex_settings
      "[([5], [6], [7], 1, ex_time), ([], [], [], 0, ex_time)]" ex_events]
  by (simp add: length_ex_events scan_ok_def touches_ok_def panel_coord_def ex_time_def
      ex_settings_def)

section \<open>A defect\<close>

text \<open>
  A first touch at the origin is lost: (0, 0) is the mark of a touch that has been matched,
  so with no finger down a scan with one touch there adds no finger and reports nothing,
  whatever its weight; at every other point of the panel a touch of enough weight is a new
  finger.
\<close>

theorem gesture_touch_at_origin:
  assumes "scan_pre [x] [y] [w] 1 t events 0 s" "spGeneralSettings s = Some g" "sFingers s = []"
    and "availableFingers s \<noteq> []" "fingerDownThreshold g \<le> w"
  shows "\<exists>s' r. gesture_state_machine [x] [y] [w] 1 t events 0 s = Some (s', r) \<and>
     length (sFingers s') = (if x = 0 \<and> y = 0 then 0 else 1) \<and>
     (x = 0 \<and> y = 0 \<longrightarrow> s' = s)"
  using assms(1)
proof (rule scan_pre_trace)
  fix g' fs1 fs2 new stay leave s' xs' ys' t' ev n'
  assume g': "spGeneralSettings s = Some g'"
    and run: "gesture_state_machine [x] [y] [w] 1 t events 0 s = Some (s', xs', ys', t', ev, n')"
    and tr: "scan_trace g' [x] [y] [w] 1 t s fs1 fs2 new stay leave s'"
  have fs: "fs1 = []" "fs2 = []" using tr assms(3) by (auto simp: scan_trace_def)
  have len: "length new = (if x = 0 \<and> y = 0 then 0 else 1)"
    using tr g' assms(2,4,5) by (cases "availableFingers s") (auto simp: scan_trace_def fs taken_def fresh_touch_def)
  have "\<forall>f \<in> set new. \<not> released f"
    using tr by (simp add: scan_trace_def born_def released_def)
  then have keep: "filter (\<lambda>f. \<not> released f) new = new" "filter released new = []"
    by (simp_all add: filter_empty_conv)
  have "list_all2 carried new stay" "leave = []" using tr by (simp_all add: scan_trace_def fs keep)
  then have "length stay = length new" "leave = []" by (auto dest: list_all2_lengthD)
  with tr run len assms(3) show ?thesis by (auto simp: scan_trace_def)
qed

theorem gesture_touch_at_origin_witness:
  "\<exists>s' r. gesture_state_machine [0] [0] [99] 1 ex_time ex_events 0 (ex_gsm\<lparr>sFingers := []\<rparr>) = Some (s', r) \<and>
     sFingers s' = []"
proof -
  let ?s = "ex_gsm\<lparr>sFingers := []\<rparr>"
  have "scan_pre [0] [0] [99] 1 ex_time ex_events 0 ?s"
    using ex_gsm_ok ex_time_ok
    by (simp add: scan_pre_def length_ex_events touches_ok_def panel_coord_def gsm_inv_def finger_count_def)
  moreover have "spGeneralSettings ?s = Some ex_settings" "sFingers ?s = []" "availableFingers ?s \<noteq> []"
    "fingerDownThreshold ex_settings \<le> 99"
    by (simp_all add: ex_gsm_def ex_settings_def)
  ultimately show ?thesis
    using gesture_touch_at_origin [of 0 0 99 ex_time ex_events ?s ex_settings] by auto
qed

end
