(* ===== verification/Gesture_Memory_Safety.thy ===== *)
theory Gesture_Memory_Safety
  imports Gesture_Heap Gesture_Properties
begin

text \<open>
  The tracker with blocks and pointers does what the tracker with values does: it gives the same
  answers, and follows or frees a pointer to nothing exactly where the other one is not defined.
\<close>

section \<open>The relation\<close>

text \<open>
  \<open>sFingers_freed\<close> stands for a first node that is not allocated any more.
\<close>

definition represents :: "gsm \<Rightarrow> finger_memory \<Rightarrow> bool" where
  "represents s m \<longleftrightarrow> gm_curFingerId m = curFingerId s \<and> gm_spGeneralSettings m = spGeneralSettings s \<and>
     (\<exists>ns fs. shape m ns fs (availableFingers s) \<and>
       (if sFingers_freed s then ns = [] \<and> gm_sFingers m \<noteq> NULL
        else fs = sFingers s \<and> list_path (gm_nodes m) (gm_sFingers m) ns))"

lemma representsI:
  assumes "gm_curFingerId m = curFingerId s" "gm_spGeneralSettings m = spGeneralSettings s" "\<not> sFingers_freed s"
    and "shape m ns (sFingers s) (availableFingers s)" "list_path (gm_nodes m) (gm_sFingers m) ns"
  shows "represents s m"
  using assms by (auto simp: represents_def)

lemma representsE:
  assumes "represents s m" "\<not> sFingers_freed s"
  obtains ns where "gm_curFingerId m = curFingerId s" "gm_spGeneralSettings m = spGeneralSettings s"
    and "shape m ns (sFingers s) (availableFingers s)" "list_path (gm_nodes m) (gm_sFingers m) ns"
  using assms by (auto simp: represents_def)

lemma rel_option_bind:
  "rel_option R x y \<Longrightarrow> (\<And>a b. x = Some a \<Longrightarrow> y = Some b \<Longrightarrow> R a b \<Longrightarrow> rel_option S (f a) (g b)) \<Longrightarrow> rel_option S (Option.bind x f) (Option.bind y g)"
  by (cases x; cases y) auto

lemma rel_option_bind_same:
  "(\<And>a. x = Some a \<Longrightarrow> rel_option S (f a) (g a)) \<Longrightarrow> rel_option S (Option.bind x f) (Option.bind x g)"
  by (cases x) auto

lemma represents_start: "represents gsm_start gm_start"
  by (rule representsI [of _ _ "[]"]) (auto simp: gsm_start_def gm_start_def shape_def pool_ok_def)

section \<open>The arrays of the fingers\<close>

lemma same_array_refl [simp]: "same_array f f"
  by (simp add: same_array_def)

lemma same_array_update: "update_coord_buffer k b x y t = Some b' \<Longrightarrow> pCoords b' = None \<longleftrightarrow> pCoords b = None"
  by (auto simp: update_coord_buffer_def coord_put_def Let_def elim!: bind_eq_SomeE split: if_splits)

lemma match_fingers_arrays: "match_fingers xs ys js fs = Some fs' \<Longrightarrow> list_all2 same_array fs fs'"
proof (induction js arbitrary: fs)
  case Nil
  then show ?case by (simp add: list.rel_refl)
next
  case (Cons j js)
  obtain k best where m: "match_fingers xs ys js (case k of None \<Rightarrow> fs
      | Some k \<Rightarrow> fs[k := (fs ! k)\<lparr>minDistId := int j, minDist := best\<rparr>]) = Some fs'"
    using Cons.prems by (auto elim!: bind_eq_SomeE)
  have "list_all2 same_array fs (fs[k := (fs ! k)\<lparr>minDistId := int j, minDist := best\<rparr>])" for k
    by (cases "k < length fs") (auto simp: list_all2_conv_all_nth same_array_def nth_list_update)
  then have "list_all2 same_array fs (case k of None \<Rightarrow> fs | Some k \<Rightarrow> fs[k := (fs ! k)\<lparr>minDistId := int j, minDist := best\<rparr>])"
    by (simp add: list.rel_refl split: option.split)
  then show ?case using Cons.IH [OF m] by (rule list_all2_trans [rotated]) (auto simp: same_array_def)
qed

lemma update_finger_array: "update_finger g ws t f xs ys = Some (f', xs', ys') \<Longrightarrow> same_array f f'"
  by (auto simp: update_finger_def same_array_def elim!: bind_eq_SomeE split: if_splits dest: same_array_update)

lemma update_matched_arrays: "update_matched g ws t fs xs ys = Some (fs', xs', ys') \<Longrightarrow> list_all2 same_array fs fs'"
  by (induction fs arbitrary: xs ys fs') (auto elim!: bind_eq_SomeE dest: update_finger_array)

lemma finger_step_array: "gesture_state_machine_finger f ev n = Some (r, f', ev', n') \<Longrightarrow> same_array f f'"
  by (auto simp: gesture_state_machine_finger_def same_array_def Let_def elim!: bind_eq_SomeE
      split: if_splits gesture_state.splits)

section \<open>One scan\<close>

text \<open>Allocation gives a node that is not in use.\<close>

definition allocator :: "(finger_memory \<Rightarrow> ptr) \<Rightarrow> bool" where
  "allocator new \<longleftrightarrow> (\<forall>m. finite (dom (gm_nodes m)) \<longrightarrow> new m \<noteq> NULL \<and> gm_nodes m (new m) = None)"

lemma add_new_finger_represents:
  assumes "allocator new" "represents s m" "\<not> sFingers_freed s"
  shows "rel_option (\<lambda>s' m'. represents s' m' \<and> \<not> sFingers_freed s') (add_new_finger x y w t s) (mem_add_new_finger new x y w t m)"
proof (cases "availableFingers s")
  case Nil
  obtain ns where "shape m ns (sFingers s) []" using assms Nil by (auto elim: representsE)
  then have "gm_availableFingers m = []" by (simp add: shape_def)
  then show ?thesis using Nil assms by (simp add: add_new_finger_def mem_add_new_finger_def)
next
  case (Cons f av)
  obtain ns where I: "gm_curFingerId m = curFingerId s" "gm_spGeneralSettings m = spGeneralSettings s"
    "shape m ns (sFingers s) (f # av)" "list_path (gm_nodes m) (gm_sFingers m) ns"
    using assms(2,3) Cons by (auto elim: representsE)
  obtain p rest where q: "gm_availableFingers m = p # rest" "load_finger m p = Some f"
    using shapeD(8) [OF I(3)] by auto
  show ?thesis
    unfolding add_new_finger_def mem_add_new_finger_def Cons q list.case I(1,2)
    apply (simp add: q)
  proof (rule rel_option_bind_same, rule rel_option_bind_same)
    fix g b assume b: "update_coord_buffer (positionFilter g) (reset_coord_buffer (coords f)) x y t = Some b"
    let ?f = "f\<lparr>f_state := reset_state_data (f_state f), f_id := curFingerId s,
                  f_timestamp := t, minDist := 0, minDistId := 0, lastWeight := w, coords := b\<rparr>"
    have "same_array f ?f" using same_array_update [OF b] by (simp add: same_array_def reset_coord_buffer_def)
    moreover have "new m' \<noteq> NULL \<and> gm_nodes m (new m') = None" if "gm_nodes m' = gm_nodes m" for m'
      using assms(1) that shapeD(4) [OF I(3)] unfolding allocator_def by (metis List.finite_set)
    ultimately obtain m1 l nodes where
      "store_finger p ?f m = Some m1" "frame m1 = frame m"
      "g_list_prepend (new m1) (gm_sFingers m1) p (gm_nodes m1) = Some (l, nodes)" "list_path nodes l (l # ns)"
      "\<And>i. shape (m1\<lparr>gm_availableFingers := rest, gm_curFingerId := i, gm_sFingers := l, gm_nodes := nodes\<rparr>) (l # ns) (?f # sFingers s) av"
      using prepend_ok [OF I(3,4), of ?f new] q(1) by (metis list.inject)
    then show "rel_option (\<lambda>s' m'. represents s' m' \<and> \<not> sFingers_freed s')
        (Some (s\<lparr>availableFingers := av, sFingers := ?f # sFingers s, curFingerId := curFingerId s + 1\<rparr>))
        (store_finger p ?f m \<bind> (\<lambda>m1. g_list_prepend (new m1) (gm_sFingers m1) p (gm_nodes m1) \<bind> (\<lambda>(l, nodes).
          Some (m1\<lparr>gm_availableFingers := rest, gm_curFingerId := curFingerId s + 1, gm_sFingers := l, gm_nodes := nodes\<rparr>))))"
      using I assms(3) by (auto intro!: representsI simp: frame_eq simp del: list_path.simps)
  qed
qed

lemma add_unmatched_represents:
  assumes "allocator new" "represents s m" "\<not> sFingers_freed s"
  shows "rel_option (\<lambda>s' m'. represents s' m' \<and> \<not> sFingers_freed s')
     (add_unmatched xs ys ws t js k s) (mem_add_unmatched new xs ys ws t js k m)"
  using assms(2,3)
proof (induction js arbitrary: k s m)
  case (Cons j js)
  have "gm_spGeneralSettings m = spGeneralSettings s" using Cons.prems by (simp add: represents_def)
  moreover have "rel_option (\<lambda>s' m'. represents s' m' \<and> \<not> sFingers_freed s')
      (Option.bind (add_new_finger x y w u s) (add_unmatched xs ys ws t js c))
      (Option.bind (mem_add_new_finger new x y w u m) (mem_add_unmatched new xs ys ws t js c))" for x y w u c
    by (rule rel_option_bind [OF add_new_finger_represents [OF assms(1) Cons.prems]]) (simp add: Cons.IH)
  ultimately show ?case using Cons by (auto intro!: rel_option_bind_same)
qed simp

text \<open>A finger that leaves: it is written, and its node removed.\<close>

lemma leave_ok:
  assumes "shape m (ns1 @ n # ns2) (fs1 @ f # fs2) av" "length ns1 = length fs1" "same_array f g"
    and "list_path (gm_nodes m) (gm_sFingers m) (ns1 @ n # ns2)"
  obtains m1 l nodes where "store_finger (data_of (gm_nodes m) n) g m = Some m1" "frame m1 = frame m"
    and "g_list_remove (gm_sFingers m1) (data_of (gm_nodes m) n) (gm_nodes m1) = Some (l, nodes)"
    and "list_path nodes l (ns1 @ ns2)"
    and "shape (m1\<lparr>gm_sFingers := l, gm_nodes := nodes, gm_availableFingers := gm_availableFingers m1 @ [data_of (gm_nodes m) n]\<rparr>)
      (ns1 @ ns2) (fs1 @ fs2) (av @ [g])"
proof -
  obtain m1 where m1: "store_finger (data_of (gm_nodes m) n) g m = Some m1" "shape m1 (ns1 @ n # ns2) (fs1 @ g # fs2) av"
    "frame m1 = frame m" by (rule store_node [OF assms(1-3)])
  have F: "gm_nodes m1 = gm_nodes m" "gm_sFingers m1 = gm_sFingers m" using m1(3) by (simp_all add: frame_eq)
  have "list_path (gm_nodes m1) (gm_sFingers m1) (ns1 @ n # ns2)" using assms(4) by (simp add: F)
  then obtain l nodes where "g_list_remove (gm_sFingers m1) (data_of (gm_nodes m1) n) (gm_nodes m1) = Some (l, nodes)"
    "list_path nodes l (ns1 @ ns2)"
    "shape (m1\<lparr>gm_sFingers := l, gm_nodes := nodes, gm_availableFingers := gm_availableFingers m1 @ [data_of (gm_nodes m1) n]\<rparr>)
      (ns1 @ ns2) (fs1 @ fs2) (av @ [g])" by (rule remove_ok [OF m1(2) assms(2)])
  with that [OF m1(1,3)] show ?thesis by (simp add: F)
qed

text \<open>The last loop; \<open>before\<close> are the nodes of the fingers that stay.\<close>

definition processed :: "finger_memory \<Rightarrow> finger list \<Rightarrow> finger list \<Rightarrow>
    finger list \<times> finger list \<times> input_event list \<times> nat \<Rightarrow> finger_memory \<times> input_event list \<times> nat \<Rightarrow> bool" where
  "processed m kept av = (\<lambda>(stay, leave, r) (m', r'). r' = r \<and> gm_curFingerId m' = gm_curFingerId m \<and>
     gm_spGeneralSettings m' = gm_spGeneralSettings m \<and>
     (\<exists>ns. shape m' ns (kept @ stay) (av @ leave) \<and> list_path (gm_nodes m') (gm_sFingers m') ns))"

lemma process_fingers_represents:
  assumes "shape m (before @ ns) (kept @ fs) av" "length before = length kept" "list_path (gm_nodes m) (gm_sFingers m) (before @ ns)"
  shows "rel_option (processed m kept av) (process_fingers fs ev k) (mem_process_fingers ns ev k m)"
  using assms
proof (induction fs arbitrary: m before ns kept av ev k)
  case Nil
  then have "ns = []" using shapeD(9) [OF Nil.prems(1)] by simp
  with Nil show ?case by (auto simp: processed_def)
next
  case (Cons f fs)
  obtain n ns' where ns: "ns = n # ns'" using shapeD(9) [OF Cons.prems(1)] Cons.prems(2) by (cases ns) auto
  note S = Cons.prems(1) [unfolded ns]
  let ?p = "data_of (gm_nodes m) n"
  obtain next' where n: "gm_nodes m n = Some (?p, next')" "load_finger m ?p = Some f"
    by (rule store_node [OF S Cons.prems(2) same_array_refl])
  show ?case
  proof (cases "gesture_state_machine_finger f ev k")
    case None
    then show ?thesis using n by (simp add: ns)
  next
    case (Some q)
    obtain r f' ev1 n1 where q: "q = (r, f', ev1, n1)" by (cases q)
    have f': "same_array f f'" using Some q by (auto dest: finger_step_array)
    show ?thesis
    proof (cases "r = -1")
      case True
      let ?g = "f'\<lparr>f_state := (f_state f')\<lparr>gs_state := UNUSED\<rparr>\<rparr>"
      have "same_array f ?g" using f' by (simp add: same_array_def)
      from leave_ok [OF S Cons.prems(2) this Cons.prems(3) [unfolded ns]] obtain m1 l nodes where
        1: "store_finger ?p ?g m = Some m1" "frame m1 = frame m" "g_list_remove (gm_sFingers m1) ?p (gm_nodes m1) = Some (l, nodes)"
        "list_path nodes l (before @ ns')"
        and 2: "shape (m1\<lparr>gm_sFingers := l, gm_nodes := nodes, gm_availableFingers := gm_availableFingers m1 @ [?p]\<rparr>)
          (before @ ns') (kept @ fs) (av @ [?g])" (is "shape ?m _ _ _") by blast
      have "rel_option (processed ?m kept (av @ [?g])) (process_fingers fs ev1 n1) (mem_process_fingers ns' ev1 n1 ?m)"
        by (rule Cons.IH [OF 2 Cons.prems(2)]) (simp add: 1)
      with True n 1 Some q show ?thesis
        by (cases "process_fingers fs ev1 n1"; cases "mem_process_fingers ns' ev1 n1 ?m")
          (auto simp: ns processed_def frame_eq)
    next
      case False
      from store_node [OF S Cons.prems(2) f'] obtain m1 where
        1: "store_finger ?p f' m = Some m1" "shape m1 (before @ n # ns') (kept @ f' # fs) av" "frame m1 = frame m" by blast
      have "rel_option (processed m1 (kept @ [f']) av) (process_fingers fs ev1 n1) (mem_process_fingers ns' ev1 n1 m1)"
        using Cons.IH [of m1 "before @ [n]" ns' "kept @ [f']"] 1 Cons.prems(2,3) by (simp add: ns frame_eq)
      with False n 1 Some q show ?thesis
        by (cases "process_fingers fs ev1 n1"; cases "mem_process_fingers ns' ev1 n1 m1")
          (auto simp: ns processed_def frame_eq)
    qed
  qed
qed

text \<open>A whole scan.\<close>

lemma scan_represents:
  assumes "allocator new" "represents s m"
  shows "rel_option (\<lambda>(s', r) (m', r'). r' = r \<and> represents s' m')
     (gesture_state_machine xs ys ws num t ev k s) (mem_gesture_state_machine new xs ys ws num t ev k m)"
proof (cases "sFingers_freed s")
  case True
  then have "gm_sFingers m \<noteq> NULL" "gm_nodes m = Map.empty" using assms(2) by (auto simp: represents_def shape_def)
  then show ?thesis using True
    by (simp add: gesture_state_machine_def mem_gesture_state_machine_def list_nodes_dangling)
next
  case False
  obtain ns where I: "gm_curFingerId m = curFingerId s" "gm_spGeneralSettings m = spGeneralSettings s"
    "shape m ns (sFingers s) (availableFingers s)" "list_path (gm_nodes m) (gm_sFingers m) ns"
    using assms(2) False by (rule representsE)
  have load: "load_list m ns = Some (sFingers s)" using shapeD(4,7) [OF I(3)] by (intro load_list_ok) simp_all
  note run = gesture_state_machine_def mem_gesture_state_machine_def list_nodes_path [OF I(4)] load I(2) False
  consider "match_fingers xs ys [0..<num] (sFingers s) = None"
    | fs1 where "match_fingers xs ys [0..<num] (sFingers s) = Some fs1" "update_matched (spGeneralSettings s) ws t fs1 xs ys = None"
    | fs1 fs2 xs1 ys1 where "match_fingers xs ys [0..<num] (sFingers s) = Some fs1"
      "update_matched (spGeneralSettings s) ws t fs1 xs ys = Some (fs2, xs1, ys1)"
    by (cases "match_fingers xs ys [0..<num] (sFingers s)"; cases "update_matched (spGeneralSettings s) ws t
      (the (match_fingers xs ys [0..<num] (sFingers s))) xs ys") auto
  then show ?thesis
  proof cases
    case 3
    have arrays: "list_all2 same_array (sFingers s) fs2"
      by (rule list_all2_trans [OF _ match_fingers_arrays [OF 3(1)] update_matched_arrays [OF 3(2)]]) (simp add: same_array_def)
    obtain m1 where m1: "store_list ns fs2 m = Some m1" "shape m1 ns fs2 (availableFingers s)" "frame m1 = frame m"
      using store_list_ok [of m "[]" ns "[]" "sFingers s", OF _ _ arrays] I(3) by auto
    let ?s = "s\<lparr>sFingers := fs2\<rparr>"
    have "represents ?s m1" using m1 I False by (intro representsI) (auto simp: frame_eq)
    then have "rel_option (\<lambda>s' m'. represents s' m' \<and> \<not> sFingers_freed s') (add_unmatched xs1 ys1 ws t [0..<num] 0 ?s)
        (mem_add_unmatched new xs1 ys1 ws t [0..<num] 0 m1)"
      by (rule add_unmatched_represents [OF assms(1)]) (simp add: False)
    then consider "add_unmatched xs1 ys1 ws t [0..<num] 0 ?s = None" "mem_add_unmatched new xs1 ys1 ws t [0..<num] 0 m1 = None"
      | s3 m2 where "add_unmatched xs1 ys1 ws t [0..<num] 0 ?s = Some s3" "mem_add_unmatched new xs1 ys1 ws t [0..<num] 0 m1 = Some m2"
        "represents s3 m2" "\<not> sFingers_freed s3"
      by (cases "add_unmatched xs1 ys1 ws t [0..<num] 0 ?s"; cases "mem_add_unmatched new xs1 ys1 ws t [0..<num] 0 m1") auto
    then show ?thesis
    proof cases
      case 1
      with 3 m1(1) show ?thesis by (simp add: run)
    next
      case 2
      obtain ns2 where J: "gm_curFingerId m2 = curFingerId s3" "gm_spGeneralSettings m2 = spGeneralSettings s3"
        "shape m2 ns2 (sFingers s3) (availableFingers s3)" "list_path (gm_nodes m2) (gm_sFingers m2) ns2"
        using 2(3,4) by (rule representsE)
      have "rel_option (processed m2 [] (availableFingers s3)) (process_fingers (sFingers s3) ev k) (mem_process_fingers ns2 ev k m2)"
        by (rule process_fingers_represents [of m2 "[]"]) (simp_all add: J)
      then show ?thesis using 2(1,2,4) 3 m1(1) J(1,2) list_nodes_path [OF J(4)]
        by (cases "process_fingers (sFingers s3) ev k"; cases "mem_process_fingers ns2 ev k m2")
          (auto simp: run processed_def intro!: rel_option_bind_same representsI)
    qed
  qed (simp_all add: run)
qed

section \<open>Starting and stopping\<close>

text \<open>
  malloc gives NULL or an address that is not in use: neither before the call nor by an earlier
  round of the loop.
\<close>

definition unused :: "(nat \<Rightarrow> (ptr \<times> 'a) option) \<Rightarrow> (ptr \<rightharpoonup> 'b) \<Rightarrow> nat \<Rightarrow> bool" where
  "unused block used i = (case block i of None \<Rightarrow> True
     | Some (p, _) \<Rightarrow> p \<noteq> NULL \<and> used p = None \<and> (\<forall>j<i. map_option fst (block j) \<noteq> Some p))"

definition given :: "(nat \<Rightarrow> (ptr \<times> 'a) option) \<Rightarrow> nat \<Rightarrow> ptr set" where
  "given block n = (\<Union>i<n. set_option (map_option fst (block i)))"

lemma given_Suc [simp]: "given block (Suc i) = given block i \<union> set_option (map_option fst (block i))"
  by (auto simp: given_def lessThan_Suc)

lemma unused_next:
  assumes "unused block used i" "dom used' \<subseteq> dom used \<union> given block i" "block i = Some (p, x)"
  shows "p \<noteq> NULL" "used' p = None"
  using assms by (auto simp: unused_def given_def)

lemma init_finger_ok:
  assumes s: "shape m ns fs av" and f: "fmem = Some (p, f0)" "p \<noteq> NULL" "gm_fingers m p = None"
    and a: "\<And>a cs. cmem = Some (a, cs) \<Longrightarrow> a \<noteq> NULL \<and> gm_arrays m a = None"
  obtains f m' where "init_finger (Some f0) (map_option snd cmem) k = Some f" "mem_init_finger fmem cmem k m = Some m'"
    and "shape m' ns fs (av @ [f])" "dom (gm_fingers m') = insert p (dom (gm_fingers m))"
    and "dom (gm_arrays m') = dom (gm_arrays m) \<union> set_option (map_option fst cmem)"
    and "frame (m'\<lparr>gm_availableFingers := []\<rparr>) = frame (m\<lparr>gm_availableFingers := []\<rparr>)"
proof -
  note D = shapeD [OF s]
  obtain f where i: "init_finger (Some f0) (map_option snd cmem) k = Some f" "pCoords (coords f) = map_option snd cmem"
    by (cases cmem) (auto simp: init_finger_def create_coord_buffer_def)
  define b where "b = (case cmem of None \<Rightarrow> NULL | Some (a, _) \<Rightarrow> a)"
  define arrays where "arrays = (case cmem of None \<Rightarrow> gm_arrays m | Some (a, cs) \<Rightarrow> (gm_arrays m)(a \<mapsto> cs))"
  let ?m = "m\<lparr>gm_fingers := (gm_fingers m)(p \<mapsto> (f, b)), gm_arrays := arrays, gm_availableFingers := gm_availableFingers m @ [p]\<rparr>"
  have B: "arrays = (if b = NULL then gm_arrays m else (gm_arrays m)(b \<mapsto> snd (the cmem)))" "b = NULL \<longleftrightarrow> cmem = None"
    "gm_arrays m b = None" "b \<noteq> NULL \<Longrightarrow> pCoords (coords f) = Some (snd (the cmem))"
  proof -
    show "arrays = (if b = NULL then gm_arrays m else (gm_arrays m)(b \<mapsto> snd (the cmem)))" "b = NULL \<longleftrightarrow> cmem = None"
      using a by (cases cmem; auto simp: b_def arrays_def; fail)+
    show "gm_arrays m b = None" using a pool_okD(2) [OF D(1)] by (cases cmem) (auto simp: b_def)
    show "pCoords (coords f) = Some (snd (the cmem))" if "b \<noteq> NULL" using that i(2) by (cases cmem) (auto simp: b_def)
  qed
  have old: "c \<noteq> b" if "gm_fingers m q = Some (g, c)" "c \<noteq> NULL" for q g c
    using pool_okD(3) [OF D(1) that] B(3) by auto
  have pool: "pool_ok ?m"
  proof (rule pool_okI)
    show "gm_fingers ?m NULL = None" using pool_okD(1) [OF D(1)] f(2) by simp
    show "gm_arrays ?m NULL = None" using pool_okD(2) [OF D(1)] by (simp add: B(1))
    show "gm_arrays ?m c \<noteq> None" if "gm_fingers ?m q = Some (g, c)" "c \<noteq> NULL" for q g c
      using that pool_okD(3) [OF D(1)] by (auto simp: B(1) split: if_splits)
    show "q = r" if "gm_fingers ?m q = Some (g, c)" "gm_fingers ?m r = Some (h, c)" "c \<noteq> NULL" for q r g h c
      using that old pool_okD(4) [OF D(1)] by (auto split: if_splits)
    show "\<exists>q g. gm_fingers ?m q = Some (g, c)" if "gm_arrays ?m c \<noteq> None" for c
    proof (cases "c = b \<and> b \<noteq> NULL")
      case False
      with that have "gm_arrays m c \<noteq> None" by (auto simp: B(1) split: if_splits)
      then obtain q g where "gm_fingers m q = Some (g, c)" using pool_okD(5) [OF D(1)] by blast
      then show ?thesis using f(3) by (intro exI [of _ q]) auto
    qed auto
  qed
  have same: "load_finger ?m q = load_finger m q" if "q \<noteq> p" for q
    using that old [of q] by (cases "gm_fingers m q") (auto simp: load_finger_def B(1))
  have "load_finger ?m p = Some f"
    using set_own_array [of f] B(2,4) i(2) by (auto simp: load_finger_def B(1))
  moreover have "p \<notin> set (map (data_of (gm_nodes m)) ns @ gm_availableFingers m)" using D(6) f(3) by (metis domIff)
  moreover from this have "map (load_finger ?m) (map (data_of (gm_nodes m)) ns) = map (load_finger m) (map (data_of (gm_nodes m)) ns)"
    "map (load_finger ?m) (gm_availableFingers m) = map (load_finger m) (gm_availableFingers m)"
    by (auto intro!: map_cong same)
  ultimately have "shape ?m ns fs (av @ [f])" unfolding shape_def using D pool by (simp del: map_map map_eq_conv)
  moreover have "mem_init_finger fmem cmem k m = Some ?m" using f i(1) by (simp add: mem_init_finger_def b_def arrays_def)
  moreover have "dom arrays = dom (gm_arrays m) \<union> set_option (map_option fst cmem)" by (cases cmem) (auto simp: arrays_def)
  ultimately show ?thesis using that [of f ?m] i(1) f(3) by (simp add: frame_eq)
qed

lemma init_fingers_ok:
  assumes "shape m ns fs av" "\<forall>i<n. unused fmem (gm_fingers m) i \<and> unused cmem (gm_arrays m) i"
  shows "rel_option (\<lambda>new m'. shape m' ns fs (av @ new) \<and>
       dom (gm_fingers m') \<subseteq> dom (gm_fingers m) \<union> given fmem n \<and>
       dom (gm_arrays m') \<subseteq> dom (gm_arrays m) \<union> given cmem n \<and>
       frame (m'\<lparr>gm_availableFingers := []\<rparr>) = frame (m\<lparr>gm_availableFingers := []\<rparr>))
     (init_fingers (map_option snd \<circ> fmem) (map_option snd \<circ> cmem) k n) (mem_init_fingers fmem cmem k n m)"
  using assms(2)
proof (induction n)
  case 0
  then show ?case using assms(1) by simp
next
  case (Suc i)
  show ?case unfolding init_fingers.simps mem_init_fingers.simps
  proof (rule rel_option_bind [OF Suc.IH])
    fix new m1
    assume 1: "shape m1 ns fs (av @ new) \<and>
       dom (gm_fingers m1) \<subseteq> dom (gm_fingers m) \<union> given fmem i \<and>
       dom (gm_arrays m1) \<subseteq> dom (gm_arrays m) \<union> given cmem i \<and>
       frame (m1\<lparr>gm_availableFingers := []\<rparr>) = frame (m\<lparr>gm_availableFingers := []\<rparr>)"
    have u: "unused fmem (gm_fingers m) i" "unused cmem (gm_arrays m) i" using Suc.prems by auto
    show "rel_option (\<lambda>new m'. shape m' ns fs (av @ new) \<and>
       dom (gm_fingers m') \<subseteq> dom (gm_fingers m) \<union> given fmem (Suc i) \<and>
       dom (gm_arrays m') \<subseteq> dom (gm_arrays m) \<union> given cmem (Suc i) \<and>
       frame (m'\<lparr>gm_availableFingers := []\<rparr>) = frame (m\<lparr>gm_availableFingers := []\<rparr>))
      (Option.bind (init_finger ((map_option snd \<circ> fmem) i) ((map_option snd \<circ> cmem) i) k) (\<lambda>f. Some (new @ [f])))
      (mem_init_finger (fmem i) (cmem i) k m1)"
    proof (cases "fmem i")
      case None
      then show ?thesis by (simp add: init_finger_def mem_init_finger_def)
    next
      case (Some b)
      obtain p f0 where b: "fmem i = Some (p, f0)" using Some by (cases b) auto
      have p: "p \<noteq> NULL" "gm_fingers m1 p = None" using unused_next [OF u(1) _ b] 1 by auto
      have a: "a \<noteq> NULL \<and> gm_arrays m1 a = None" if "cmem i = Some (a, cs)" for a cs
        using unused_next [OF u(2) _ that] 1 by auto
      obtain f m2 where "init_finger (Some f0) (map_option snd (cmem i)) k = Some f" "mem_init_finger (fmem i) (cmem i) k m1 = Some m2"
        "shape m2 ns fs ((av @ new) @ [f])" "dom (gm_fingers m2) = insert p (dom (gm_fingers m1))"
        "dom (gm_arrays m2) = dom (gm_arrays m1) \<union> set_option (map_option fst (cmem i))"
        "frame (m2\<lparr>gm_availableFingers := []\<rparr>) = frame (m1\<lparr>gm_availableFingers := []\<rparr>)"
        by (rule init_finger_ok [OF conjunct1 [OF 1] b p a])
      then show ?thesis using 1 b by (simp; blast)
    qed
  qed (use Suc.prems in auto)
qed

lemma init_represents:
  assumes "represents s m" "\<forall>i < nat (2 * maxFingers). unused fmem (gm_fingers m) i \<and> unused cmem (gm_arrays m) i"
  shows "rel_option represents
     (init_gesture_state_machine (map_option snd \<circ> fmem) (map_option snd \<circ> cmem) g maxFingers s)
     (mem_init_gesture_state_machine fmem cmem g maxFingers m)"
  unfolding init_gesture_state_machine_def mem_init_gesture_state_machine_def
proof (rule rel_option_bind_same)
  fix n assume "i32 (maxFingers * 2) = Some n"
  then have n: "n = 2 * maxFingers" by (simp add: i32_def split: if_splits)
  let ?m = "m\<lparr>gm_spGeneralSettings := Some g\<rparr>"
  obtain ns fs where I: "gm_curFingerId m = curFingerId s" "shape m ns fs (availableFingers s)"
    "if sFingers_freed s then ns = [] \<and> gm_sFingers m \<noteq> NULL
     else fs = sFingers s \<and> list_path (gm_nodes m) (gm_sFingers m) ns"
    using assms(1) by (auto simp: represents_def)
  have "shape ?m ns fs (availableFingers s)"
    using I(2) unfolding shape_def by (simp cong: pool_ok_cong load_finger_cong)
  from init_fingers_ok [OF this, of "nat n" fmem cmem "coordBufSize g"] assms(2)
  show "rel_option represents
      (Option.bind (init_fingers (map_option snd \<circ> fmem) (map_option snd \<circ> cmem) (coordBufSize g) (nat n))
        (\<lambda>fs. Some (s\<lparr>spGeneralSettings := Some g, availableFingers := availableFingers s @ fs\<rparr>)))
      (mem_init_fingers fmem cmem (coordBufSize g) (nat n) ?m)"
    using I(1,3) by (cases "init_fingers (map_option snd \<circ> fmem) (map_option snd \<circ> cmem) (coordBufSize g) (nat n)";
      cases "mem_init_fingers fmem cmem (coordBufSize g) (nat n) ?m")
     (auto simp: n represents_def frame_eq split: if_splits)
qed

lemma deinit_frees_all:
  assumes "represents s m" "\<not> sFingers_freed s"
  obtains m' where "mem_deinit_gesture_state_machine m = Some m'" "gm_availableFingers m' = []" "gm_nodes m' = Map.empty"
    and "gm_fingers m' = Map.empty" "gm_arrays m' = Map.empty" "gm_sFingers m' = gm_sFingers m"
    and "gm_curFingerId m' = gm_curFingerId m" "gm_spGeneralSettings m' = gm_spGeneralSettings m"
proof -
  obtain ns where I: "shape m ns (sFingers s) (availableFingers s)" "list_path (gm_nodes m) (gm_sFingers m) ns"
    using assms by (auto elim: representsE)
  note D = shapeD [OF I(1)]
  obtain m1 where 1: "mem_free_queue (gm_availableFingers m) m = Some m1" "pool_ok m1"
    "dom (gm_fingers m1) = dom (gm_fingers m) - set (gm_availableFingers m)" "frame m1 = frame (m\<lparr>gm_availableFingers := []\<rparr>)"
    using free_queue_ok [OF D(1), of "gm_availableFingers m"] D(5,6) by auto
  have F: "gm_nodes m1 = gm_nodes m" "gm_sFingers m1 = gm_sFingers m" "gm_availableFingers m1 = []"
    using 1(4) by (simp_all add: frame_eq)
  have "dom (gm_fingers m1) = set (map (data_of (gm_nodes m)) ns)" using 1(3) D(5,6) by auto
  with free_list_ok [OF 1(2), of "gm_sFingers m" ns] I(2) D(2,5) F obtain m' where
    2: "mem_free_list (gm_sFingers m) m1 = Some m'" "pool_ok m'" "dom (gm_fingers m') = {}" "dom (gm_nodes m') = dom (gm_nodes m) - set ns"
      "frame (m'\<lparr>gm_nodes := Map.empty\<rparr>) = frame (m1\<lparr>gm_nodes := Map.empty\<rparr>)" by auto
  show ?thesis
    using that [of m'] 1(1,4) 2 F empty_pool [OF 2(2,3)] D(4) by (simp add: mem_deinit_gesture_state_machine_def frame_eq)
qed

lemma free_queue_list: "mem_free_queue ps m = Some m' \<Longrightarrow> gm_sFingers m' = gm_sFingers m \<and> gm_nodes m' = gm_nodes m"
  by (induction ps arbitrary: m)
    (fastforce simp: free_finger_block_def free_coord_buffer_def elim!: bind_eq_SomeE split: if_splits)+

lemma init_fingers_list:
  "mem_init_fingers fmem cmem k n m = Some m' \<Longrightarrow> gm_sFingers m' = gm_sFingers m \<and> gm_nodes m' = gm_nodes m"
  by (induction n arbitrary: m') (fastforce simp: mem_init_finger_def elim!: bind_eq_SomeE)+

text \<open>With a first node that is not allocated, neither scanning nor stopping is defined.\<close>

definition dangling :: "(finger_memory \<Rightarrow> ptr) \<Rightarrow> finger_memory \<Rightarrow> bool" where
  "dangling new m \<longleftrightarrow> mem_deinit_gesture_state_machine m = None \<and>
     (\<forall>xs ys ws num t ev k. mem_gesture_state_machine new xs ys ws num t ev k m = None)"

lemma danglingI:
  assumes "gm_sFingers m \<noteq> NULL" "gm_nodes m = Map.empty"
  shows "dangling new m"
proof -
  have "mem_free_list (gm_sFingers m1) m1 = None" if "mem_free_queue (gm_availableFingers m) m = Some m1" for m1
    using free_queue_list [OF that] assms by (simp add: mem_free_list.simps)
  then have "mem_deinit_gesture_state_machine m = None"
    by (cases "mem_free_queue (gm_availableFingers m) m") (simp_all add: mem_deinit_gesture_state_machine_def)
  then show ?thesis using assms by (simp add: dangling_def mem_gesture_state_machine_def list_nodes_dangling)
qed

lemma deinit_represents:
  assumes "represents s m"
  shows "rel_option represents (deinit_gesture_state_machine s) (mem_deinit_gesture_state_machine m)"
proof (cases "sFingers_freed s")
  case True
  then have "gm_sFingers m \<noteq> NULL" "gm_nodes m = Map.empty" using assms by (auto simp: represents_def shape_def)
  then have "dangling undefined m" by (rule danglingI)
  then show ?thesis using True by (simp add: deinit_gesture_state_machine_def dangling_def)
next
  case False
  obtain ns where I: "gm_curFingerId m = curFingerId s" "gm_spGeneralSettings m = spGeneralSettings s"
    "shape m ns (sFingers s) (availableFingers s)" "list_path (gm_nodes m) (gm_sFingers m) ns"
    using assms False by (rule representsE)
  have l: "gm_sFingers m = NULL \<longleftrightarrow> sFingers s = []" using I(4) shapeD(9) [OF I(3)] by (cases ns) auto
  obtain m' where m': "mem_deinit_gesture_state_machine m = Some m'" "gm_availableFingers m' = []" "gm_nodes m' = Map.empty"
    "gm_fingers m' = Map.empty" "gm_arrays m' = Map.empty" "gm_sFingers m' = gm_sFingers m"
    "gm_curFingerId m' = gm_curFingerId m" "gm_spGeneralSettings m' = gm_spGeneralSettings m"
    by (rule deinit_frees_all [OF assms False])
  have "shape m' [] [] []" by (simp add: shape_def pool_ok_def m')
  then have "represents (s\<lparr>availableFingers := [], sFingers_freed := (sFingers s \<noteq> [])\<rparr>) m'"
    using I(1,2) l by (auto simp: represents_def m' intro!: exI [of _ "[]"])
  then show ?thesis using False m'(1) by (simp add: deinit_gesture_state_machine_def)
qed

section \<open>Runs\<close>

text \<open>The calls, and what a scan answers: the touches that are left, the time and the events.\<close>

datatype tracker_call =
    Init_call "nat \<Rightarrow> (ptr \<times> finger) option" "nat \<Rightarrow> (ptr \<times> coord list) option" general_settings int
  | Scan_call "int list" "int list" "int list" nat time_stamp "input_event list" nat
  | Deinit_call

type_synonym scan_answer = "int list \<times> int list \<times> time_stamp \<times> input_event list \<times> nat"

fun value_step :: "tracker_call \<Rightarrow> gsm \<Rightarrow> (gsm \<times> scan_answer option) option" where
  "value_step (Init_call fmem cmem g n) s =
     map_option (\<lambda>s'. (s', None)) (init_gesture_state_machine (map_option snd \<circ> fmem) (map_option snd \<circ> cmem) g n s)"
| "value_step (Scan_call xs ys ws num t ev k) s = map_option (apsnd Some) (gesture_state_machine xs ys ws num t ev k s)"
| "value_step Deinit_call s = map_option (\<lambda>s'. (s', None)) (deinit_gesture_state_machine s)"

fun mem_step :: "(finger_memory \<Rightarrow> ptr) \<Rightarrow> tracker_call \<Rightarrow> finger_memory \<Rightarrow> (finger_memory \<times> scan_answer option) option" where
  "mem_step new (Init_call fmem cmem g n) m = map_option (\<lambda>m'. (m', None)) (mem_init_gesture_state_machine fmem cmem g n m)"
| "mem_step new (Scan_call xs ys ws num t ev k) m = map_option (apsnd Some) (mem_gesture_state_machine new xs ys ws num t ev k m)"
| "mem_step new Deinit_call m = map_option (\<lambda>m'. (m', None)) (mem_deinit_gesture_state_machine m)"

fun run_calls :: "(tracker_call \<Rightarrow> 's \<Rightarrow> ('s \<times> scan_answer option) option) \<Rightarrow> tracker_call list \<Rightarrow> 's \<Rightarrow>
    ('s \<times> scan_answer option list) option" where
  "run_calls step [] s = Some (s, [])"
| "run_calls step (c # cs) s = do { (s', a) \<leftarrow> step c s; (s'', as) \<leftarrow> run_calls step cs s'; Some (s'', a # as) }"

text \<open>malloc gives each call memory that is not in use.\<close>

fun mallocs_ok :: "(finger_memory \<Rightarrow> ptr) \<Rightarrow> tracker_call list \<Rightarrow> finger_memory \<Rightarrow> bool" where
  "mallocs_ok new [] m = True"
| "mallocs_ok new (c # cs) m =
     ((case c of Init_call fmem cmem g n \<Rightarrow> \<forall>i < nat (2 * n). unused fmem (gm_fingers m) i \<and> unused cmem (gm_arrays m) i
       | _ \<Rightarrow> True) \<and>
      (case mem_step new c m of None \<Rightarrow> True | Some (m', _) \<Rightarrow> mallocs_ok new cs m'))"

abbreviation agree :: "gsm \<times> 'a \<Rightarrow> finger_memory \<times> 'a \<Rightarrow> bool" where
  "agree \<equiv> \<lambda>(s, a) (m, b). a = b \<and> represents s m"

lemma step_agrees:
  assumes "allocator new" "mallocs_ok new (c # cs) m" "represents s m"
  shows "rel_option agree (value_step c s) (mem_step new c m)"
proof (cases c)
  case (Init_call fmem cmem g n)
  then have "rel_option represents (init_gesture_state_machine (map_option snd \<circ> fmem) (map_option snd \<circ> cmem) g n s)
      (mem_init_gesture_state_machine fmem cmem g n m)" using assms by (intro init_represents) auto
  then show ?thesis by (simp add: Init_call option.rel_map)
next
  case (Scan_call xs ys ws num t ev k)
  from scan_represents [OF assms(1,3), of xs ys ws num t ev k] show ?thesis
    by (auto simp: Scan_call option.rel_map elim!: option.rel_mono_strong)
next
  case Deinit_call
  from deinit_represents [OF assms(3)] show ?thesis by (simp add: Deinit_call option.rel_map)
qed

lemma run_agrees:
  assumes "allocator new" "mallocs_ok new cs m" "represents s m"
  shows "rel_option agree (run_calls value_step cs s) (run_calls (mem_step new) cs m)"
  using assms(2,3)
proof (induction cs arbitrary: s m)
  case (Cons c cs)
  have "rel_option agree (value_step c s) (mem_step new c m)" by (rule step_agrees [OF assms(1) Cons.prems])
  then show ?case unfolding run_calls.simps
  proof (rule rel_option_bind, clarify)
    fix s' m' a assume "mem_step new c m = Some (m', a)" "represents s' m'"
    then show "rel_option agree (Option.bind (run_calls value_step cs s') (\<lambda>(s'', as). Some (s'', a # as)))
        (Option.bind (run_calls (mem_step new) cs m') (\<lambda>(m'', as). Some (m'', a # as)))"
      using Cons.prems by (intro rel_option_bind [OF Cons.IH]) auto
  qed
qed simp

lemma freed_dangling: "represents s m \<Longrightarrow> sFingers_freed s \<Longrightarrow> dangling new m"
  by (intro danglingI) (auto simp: represents_def shape_def)

lemma deinit_dangling:
  assumes i: "represents s m" "\<not> sFingers_freed s"
  shows "\<exists>m'. mem_deinit_gesture_state_machine m = Some m' \<and> gm_availableFingers m' = [] \<and>
          gm_nodes m' = Map.empty \<and> gm_fingers m' = Map.empty \<and> gm_arrays m' = Map.empty \<and>
          (if sFingers s = [] then gm_sFingers m' = NULL
           else dangling new m' \<and> (\<forall>fmem cmem g n m''.
             mem_init_gesture_state_machine fmem cmem g n m' = Some m'' \<longrightarrow> dangling new m''))"
proof -
  obtain ns where I: "shape m ns (sFingers s) (availableFingers s)" "list_path (gm_nodes m) (gm_sFingers m) ns"
    using i by (auto elim: representsE)
  have "gm_sFingers m = NULL \<longleftrightarrow> sFingers s = []" using I(2) shapeD(9) [OF I(1)] by (cases ns) auto
  moreover obtain m' where m': "mem_deinit_gesture_state_machine m = Some m'" "gm_availableFingers m' = []" "gm_nodes m' = Map.empty"
    "gm_fingers m' = Map.empty" "gm_arrays m' = Map.empty" "gm_sFingers m' = gm_sFingers m" by (rule deinit_frees_all [OF i])
  moreover have "gm_sFingers m'' = gm_sFingers m \<and> gm_nodes m'' = Map.empty"
    if "mem_init_gesture_state_machine fmem cmem g n m' = Some m''" for fmem cmem g n m''
    using that m'(3,6) by (auto simp: mem_init_gesture_state_machine_def elim!: bind_eq_SomeE dest!: init_fingers_list)
  ultimately show ?thesis by (intro exI [of _ m']) (simp add: danglingI)
qed

text \<open>
  C7: The memory of the tracker. In any run of \<open>init_gesture_state_machine\<close>, scans and
  \<open>deinit_gesture_state_machine\<close> from the start, with memory that malloc and GLib take from what is not in use, the
  code on nodes, finger blocks and coordinate arrays gives the answers of the tracker with values, and is
  undefined (a NULL or freed pointer followed or freed again, an overflow, an index) exactly where that one is. Stopping the tracker then frees every
  block, every array and every node, each of them once; but \<open>sFingers\<close> keeps pointing to the first node, so that
  with a finger down every later scan, whatever the touches, and every later stop reads freed memory, also after a
  new start, while without one \<open>sFingers\<close> is NULL.
\<close>

theorem gesture_memory_refines:
  assumes "allocator new" "mallocs_ok new calls gm_start"
  shows "rel_option agree (run_calls value_step calls gsm_start) (run_calls (mem_step new) calls gm_start) \<and>
     (\<forall>s m as. run_calls value_step calls gsm_start = Some (s, as) \<and> run_calls (mem_step new) calls gm_start = Some (m, as) \<longrightarrow>
       (if sFingers_freed s then dangling new m
        else \<exists>m'. mem_deinit_gesture_state_machine m = Some m' \<and> gm_availableFingers m' = [] \<and>
          gm_nodes m' = Map.empty \<and> gm_fingers m' = Map.empty \<and> gm_arrays m' = Map.empty \<and>
          (if sFingers s = [] then gm_sFingers m' = NULL
           else dangling new m' \<and> (\<forall>fmem cmem g n m''.
             mem_init_gesture_state_machine fmem cmem g n m' = Some m'' \<longrightarrow> dangling new m''))))"
proof -
  have r: "rel_option agree (run_calls value_step calls gsm_start) (run_calls (mem_step new) calls gm_start)"
    by (rule run_agrees [OF assms represents_start])
  show ?thesis
  proof (intro conjI allI impI)
    fix s m as
    assume "run_calls value_step calls gsm_start = Some (s, as) \<and> run_calls (mem_step new) calls gm_start = Some (m, as)"
    with r have i: "represents s m" by simp
    show "if sFingers_freed s then dangling new m else \<exists>m'. mem_deinit_gesture_state_machine m = Some m' \<and> gm_availableFingers m' = [] \<and>
          gm_nodes m' = Map.empty \<and> gm_fingers m' = Map.empty \<and> gm_arrays m' = Map.empty \<and>
          (if sFingers s = [] then gm_sFingers m' = NULL
           else dangling new m' \<and> (\<forall>fmem cmem g n m''.
             mem_init_gesture_state_machine fmem cmem g n m' = Some m'' \<longrightarrow> dangling new m''))"
      using freed_dangling [OF i] deinit_dangling [OF i] by (rule if_splits(1) [THEN iffD2, OF conjI, OF impI impI])
  qed (rule r)
qed

text \<open>A node above all others.\<close>

definition ex_new :: "finger_memory \<Rightarrow> ptr" where
  "ex_new m = Suc (Max (insert 0 (dom (gm_nodes m))))"

lemma ex_new_allocator: "allocator ex_new"
proof -
  have "gm_nodes m (ex_new m) = None" if f: "finite (dom (gm_nodes m))" for m
  proof (rule ccontr)
    assume "gm_nodes m (ex_new m) \<noteq> None"
    then have "ex_new m \<le> Max (insert 0 (dom (gm_nodes m)))" by (intro Max_ge) (auto simp: f)
    then show False by (simp add: ex_new_def)
  qed
  then show ?thesis by (simp add: allocator_def ex_new_def)
qed

definition ex_calls :: "tracker_call list" where
  "ex_calls = [Init_call (\<lambda>i. Some (Suc i, ex_free)) (\<lambda>i. Some (Suc i, [ex_coord, ex_coord])) ex_settings 1,
     Scan_call [5] [6] [7] 1 ex_time ex_events 0]"

lemma ex_calls_ok: "mallocs_ok ex_new ex_calls gm_start"
  by (auto simp: ex_calls_def unused_def gm_start_def split: option.split)

lemma ex_calls_run: "map_option (\<lambda>(s, as). (sFingers_freed s, length (sFingers s), length as)) (run_calls value_step ex_calls gsm_start)
    = Some (False, 1, 2)"
  by code_simp

theorem gesture_memory_refines_witness:
  "\<exists>m as m'. run_calls (mem_step ex_new) ex_calls gm_start = Some (m, as) \<and> length as = 2 \<and>
     mem_deinit_gesture_state_machine m = Some m' \<and> gm_fingers m' = Map.empty \<and> gm_arrays m' = Map.empty \<and> dangling ex_new m'"
proof -
  obtain s as where s: "run_calls value_step ex_calls gsm_start = Some (s, as)" "\<not> sFingers_freed s" "sFingers s \<noteq> []" "length as = 2"
    using ex_calls_run by (auto simp: length_Suc_conv)
  note r = gesture_memory_refines [OF ex_new_allocator ex_calls_ok]
  obtain m where "run_calls (mem_step ex_new) ex_calls gm_start = Some (m, as)"
    using conjunct1 [OF r] s(1) by (auto simp: option_rel_Some1)
  moreover from this obtain m' where "mem_deinit_gesture_state_machine m = Some m'" "gm_fingers m' = Map.empty"
    "gm_arrays m' = Map.empty" "dangling ex_new m'" using conjunct2 [OF r] s(1-3) by auto
  ultimately show ?thesis using s(4) by blast
qed

end
