(* ===== verification/C_Float.thy ===== *)
theory C_Float
  imports Complex_Main Nyx_Prelude
begin

text \<open>
  The floating-point arithmetic the modules use, on rationals: every result is rounded to the
  nearest number of the format, ties to even. \<open>None\<close> stands for a value that is not finite.
\<close>

definition pow2 :: "int \<Rightarrow> rat" where
  "pow2 k = (if 0 \<le> k then 2 ^ nat k else 1 / 2 ^ nat (- k))"

definition rint_even :: "rat \<Rightarrow> int" where
  "rint_even q =
     (let k = \<lfloor>q\<rfloor>; d = q - of_int k in
      if d < 1 / 2 then k else if 1 / 2 < d then k + 1 else if even k then k else k + 1)"

text \<open>The number of binary digits.\<close>

function bit_length :: "int \<Rightarrow> int" where
  "bit_length n = (if n \<le> 0 then 0 else 1 + bit_length (n div 2))"
  by auto
termination by (relation "measure nat") auto

declare bit_length.simps [simp del]

text \<open>The exponent of a positive rational: \<open>2 ^ e \<le> q < 2 ^ (e + 1)\<close>.\<close>

definition exponent_of :: "rat \<Rightarrow> int" where
  "exponent_of q =
     (let (n, d) = quotient_of q;
          e = bit_length n - bit_length d in
      if pow2 e \<le> q then e else e - 1)"

text \<open>Rounding to \<open>p\<close> significant bits with least exponent \<open>emin\<close>.\<close>

definition fl_round :: "int \<Rightarrow> int \<Rightarrow> rat \<Rightarrow> rat" where
  "fl_round p emin q =
     (if q = 0 then 0
      else (let a = \<bar>q\<bar>; u = pow2 (max (exponent_of a) emin - (p - 1)) in
            sgn q * of_int (rint_even (a / u)) * u))"

definition f32 :: "rat \<Rightarrow> rat option" where
  "f32 q = (let r = fl_round 24 (-126) q in if \<bar>r\<bar> < pow2 128 then Some r else None)"

definition f64 :: "rat \<Rightarrow> rat option" where
  "f64 q = (let r = fl_round 53 (-1022) q in if \<bar>r\<bar> < pow2 1024 then Some r else None)"

text \<open>
  Division: by zero the result is not finite. Conversion to int truncates and is undefined when
  the value does not fit.
\<close>

definition f32_div :: "rat option \<Rightarrow> rat option \<Rightarrow> rat option" where
  "f32_div x y = do { a \<leftarrow> x; b \<leftarrow> y; if b = 0 then None else f32 (a / b) }"

definition f32_mul :: "rat option \<Rightarrow> rat option \<Rightarrow> rat option" where
  "f32_mul x y = do { a \<leftarrow> x; b \<leftarrow> y; f32 (a * b) }"

definition rat_trunc :: "rat \<Rightarrow> int" where
  "rat_trunc q = (if 0 \<le> q then \<lfloor>q\<rfloor> else - \<lfloor>- q\<rfloor>)"

definition f32_to_int :: "rat option \<Rightarrow> int option" where
  "f32_to_int x = do { q \<leftarrow> x; i32 (rat_trunc q) }"

lemma rint_even_int [simp]: "rint_even (of_int k) = k"
  by (simp add: rint_even_def)

lemma rint_even_bounds: "\<lfloor>q\<rfloor> \<le> rint_even q" "rint_even q \<le> \<lfloor>q\<rfloor> + 1"
  by (simp_all add: rint_even_def Let_def)

text \<open>Rounding is monotone and stays within half a unit.\<close>

lemma rint_even_near: "\<bar>of_int (rint_even q) - q\<bar> \<le> 1 / 2"
proof -
  obtain k where k: "\<lfloor>q\<rfloor> = k" by blast
  then have "of_int k \<le> q" "q < of_int k + 1" using floor_correct [of q] by simp_all
  then show ?thesis by (simp add: rint_even_def k Let_def abs_le_iff)
qed

lemma rint_even_mono: "p \<le> q \<Longrightarrow> rint_even p \<le> rint_even q"
proof -
  assume "p \<le> q"
  show ?thesis
  proof (cases "\<lfloor>p\<rfloor> = \<lfloor>q\<rfloor>")
    case True
    with \<open>p \<le> q\<close> show ?thesis by (auto simp: rint_even_def Let_def)
  next
    case False
    then have "\<lfloor>p\<rfloor> + 1 \<le> \<lfloor>q\<rfloor>" using floor_mono [OF \<open>p \<le> q\<close>] by simp
    with rint_even_bounds [of p] rint_even_bounds [of q] show ?thesis by simp
  qed
qed

lemma f32_to_int_small: "0 \<le> q \<Longrightarrow> q < 2147483648 \<Longrightarrow> f32_to_int (Some q) = Some \<lfloor>q\<rfloor>"
  by (auto simp: f32_to_int_def rat_trunc_def i32_def in_i32_def INT_MIN_def INT_MAX_def
      floor_less_iff)

end
