(* ===== verification/Touchpanel.thy ===== *)
theory Touchpanel
  imports Gesture_Events C_Float
begin

text \<open>
  touchpanel.c of the emulator: raw events of the mouse device become scans of the finger
  tracker, and the events the tracker queues become touch events for nyx-lib. What the kernel
  answers (open, ioctl, poll, read, gettimeofday) and whether calloc succeeds are arguments.
  \<open>None\<close> is undefined behaviour or a failed assertion.
\<close>

section \<open>Data\<close>

datatype touchpanel_state =
    NYX_TOUCHPANEL_STATE_UNDEFINED
  | NYX_TOUCHPANEL_STATE_DOWN
  | NYX_TOUCHPANEL_STATE_UP

text \<open>
  The fields of \<open>nyx_touchpanel_event_item_t\<close> that the module sets; a weight \<open>None\<close> is the NaN.
\<close>

record touch_item =
  ti_finger :: int
  ti_state :: touchpanel_state
  ti_x :: int
  ti_y :: int
  gestureKey :: int
  xVelocity :: int
  yVelocity :: int
  ti_weight :: "rat option"
  ti_timestamp :: int

text \<open>
  \<open>nyx_event_touchpanel_t\<close>: the first \<open>item_count\<close> items of \<open>item_array\<close>. A new event comes from
  calloc, so it has no items and the rest of the array is zero.
\<close>

type_synonym touch_event = "touch_item list"

definition zero_item :: touch_item where
  "zero_item = \<lparr>ti_finger = 0, ti_state = NYX_TOUCHPANEL_STATE_UNDEFINED, ti_x = 0, ti_y = 0,
     gestureKey = 0, xVelocity = 0, yVelocity = 0, ti_weight = Some 0, ti_timestamp = 0\<rparr>"

text \<open>
  sizeof(input_event_t) on a 64-bit platform: a struct timeval of 16 bytes, two 16-bit words and
  an int.
\<close>

definition sizeof_input_event :: nat where
  "sizeof_input_event = 24"

definition MAX_HIDD_EVENTS :: nat where
  "MAX_HIDD_EVENTS = 4096 div sizeof_input_event"

text \<open>\<open>event_list_t\<close>; the counters are in bytes.\<close>

record event_list =
  input_filled :: nat
  input_read :: nat
  el_input :: "input_event list"

text \<open>
  The module's static variables, the finger tracker's included, and the one field of the device
  that matters. A scale that is not finite is \<open>None\<close>.
\<close>

record touchpanel =
  tp_gsm :: gsm
  touchpanel_event_list :: event_list
  touchpanel_event_fd :: int
  scaleX :: "rat option"
  scaleY :: "rat option"
  cachedX :: int
  cachedY :: int
  touchButtonState :: int
  read_input :: bool
  current_event_ptr :: "touch_event option"

definition sGeneralSettings :: general_settings where
  "sGeneralSettings = \<lparr>coordBufSize = 6, fingerDownThreshold = 0, positionFilter = 0\<rparr>"

definition zero_event :: input_event where
  "zero_event = \<lparr>ev_sec = 0, ev_usec = 0, ev_type = 0, ev_code = 0, ev_value = 0\<rparr>"

definition touchpanel_start :: touchpanel where
  "touchpanel_start = \<lparr>tp_gsm = gsm_start,
     touchpanel_event_list = \<lparr>input_filled = 0, input_read = 0,
                               el_input = replicate MAX_HIDD_EVENTS zero_event\<rparr>,
     touchpanel_event_fd = -1, scaleX = Some 0, scaleY = Some 0, cachedX = 0, cachedY = 0,
     touchButtonState = 0, read_input = False, current_event_ptr = None\<rparr>"

section \<open>Touch events\<close>

definition touch_item_reset :: "touch_item \<Rightarrow> touch_item" where
  "touch_item_reset t = t\<lparr>ti_finger := 0, ti_state := NYX_TOUCHPANEL_STATE_UNDEFINED, ti_x := 0,
     ti_y := 0, gestureKey := -1, xVelocity := 0, yVelocity := 0, ti_weight := None\<rparr>"

definition touch_event_create :: "bool \<Rightarrow> touch_event option" where
  "touch_event_create mem = (if mem then Some [] else None)"

definition touchpanel_release_event :: "ptr \<Rightarrow> ptr \<Rightarrow> nyx_error" where
  "touchpanel_release_event d e =
     (if d = NULL then NYX_ERROR_INVALID_HANDLE
      else if e = NULL then NYX_ERROR_INVALID_HANDLE
      else NYX_ERROR_NONE)"

text \<open>
  The two functions return a pointer into the event; here the event with a new last item, and
  the event with a change of its last item. The assertion fails for a NULL event.
\<close>

definition touch_event_get_next_item ::
  "nat \<Rightarrow> touch_event option \<Rightarrow> (touch_event option \<times> bool) option" where
  "touch_event_get_next_item max_events i_event_ptr =
     (case i_event_ptr of
        None \<Rightarrow> None
      | Some items \<Rightarrow>
          Some (if length items < max_events then (Some (items @ [zero_item]), True)
                else (Some items, False)))"

definition touch_event_set_current_item ::
  "(touch_item \<Rightarrow> touch_item) \<Rightarrow> touch_event option \<Rightarrow> touch_event option option" where
  "touch_event_set_current_item upd i_event_ptr =
     (case i_event_ptr of
        None \<Rightarrow> None
      | Some items \<Rightarrow>
          Some (Some (if items = [] then items else butlast items @ [upd (last items)])))"

text \<open>Signed 64-bit arithmetic.\<close>

definition i64 :: "int \<Rightarrow> int option" where
  "i64 v = (if - (2 ^ 63) \<le> v \<and> v < 2 ^ 63 then Some v else None)"

definition get_ts_tval :: "input_event \<Rightarrow> int option" where
  "get_ts_tval ev = do {
     a \<leftarrow> i64 (ev_sec ev * 1000000000);
     b \<leftarrow> i64 (ev_usec ev * 1000);
     i64 (a + b) }"

section \<open>Opening and closing\<close>

text \<open>\<open>res\<close> is what the ioctl stores: the resolution.\<close>

definition get_display_res :: "int \<Rightarrow> int \<Rightarrow> int \<times> int \<Rightarrow> int \<times> (int \<times> int) option" where
  "get_display_res displayFd ioctl_ret res =
     (if displayFd < 0 then (-1, None)
      else if ioctl_ret < 0 then (-1, None)
      else (0, Some res))"

text \<open>What the calls of \<open>init_touchpanel\<close> return and store.\<close>

record touchpanel_io =
  open_fd :: int
  absX_ret :: int
  absX_maximum :: int
  absY_ret :: int
  absY_maximum :: int
  finger_mem :: "nat \<Rightarrow> finger option"
  coord_mem :: "nat \<Rightarrow> coord list option"
  fb_fd :: int
  fb_ret :: int
  fb_res :: "int \<times> int"

definition init_touchpanel :: "touchpanel_io \<Rightarrow> touchpanel \<Rightarrow> (int \<times> touchpanel) option" where
  "init_touchpanel io s =
     (let s1 = s\<lparr>touchpanel_event_fd := open_fd io\<rparr> in
      if open_fd io < 0 then Some (-1, s1)
      else if absX_ret io < 0 then Some (absX_ret io, s1)
      else if absY_ret io < 0 then Some (absY_ret io, s1)
      else do {
        g \<leftarrow> init_gesture_state_machine (finger_mem io) (coord_mem io) sGeneralSettings 1 (tp_gsm s1);
        let s2 = s1\<lparr>tp_gsm := g\<rparr>;
        case get_display_res (fb_fd io) (fb_ret io) (fb_res io) of
          (r, Some (sXres, sYres)) \<Rightarrow>
            if r < 0 then Some (absY_ret io, s2)
            else Some (0, s2\<lparr>scaleX := f32_div (f32 (of_int sXres)) (f32 (of_int (absX_maximum io))),
                             scaleY := f32_div (f32 (of_int sYres)) (f32 (of_int (absY_maximum io)))\<rparr>)
        | (r, None) \<Rightarrow> Some (absY_ret io, s2) })"

text \<open>\<open>mem\<close> is the device that calloc returns; the handle is stored even when the rest fails.\<close>

definition touchpanel_module_open ::
  "ptr \<Rightarrow> touchpanel_io \<Rightarrow> ptr \<Rightarrow> touchpanel \<Rightarrow> (nyx_error \<times> ptr \<times> touchpanel) option" where
  "touchpanel_module_open mem io d0 s =
     (if mem = NULL then Some (NYX_ERROR_OUT_OF_MEMORY, d0, s)
      else do {
        (r, s') \<leftarrow> init_touchpanel io (s\<lparr>current_event_ptr := None\<rparr>);
        Some (if r < 0 then NYX_ERROR_GENERIC else NYX_ERROR_NONE, mem, s') })"

definition touchpanel_module_close :: "touchpanel \<Rightarrow> (nyx_error \<times> touchpanel) option" where
  "touchpanel_module_close s = do {
     g \<leftarrow> deinit_gesture_state_machine (tp_gsm s);
     Some (NYX_ERROR_NONE,
           s\<lparr>tp_gsm := g, current_event_ptr := None,
             touchpanel_event_fd := (if 0 \<le> touchpanel_event_fd s then -1
                                     else touchpanel_event_fd s)\<rparr>) }"

definition touchpanel_get_event_source ::
  "ptr \<Rightarrow> int option \<Rightarrow> touchpanel \<Rightarrow> nyx_error \<times> int option" where
  "touchpanel_get_event_source d f s =
     (if d = NULL then (NYX_ERROR_INVALID_HANDLE, f)
      else case f of
        None \<Rightarrow> (NYX_ERROR_INVALID_VALUE, None)
      | Some _ \<Rightarrow> (NYX_ERROR_NONE, Some (touchpanel_event_fd s)))"

section \<open>From raw events to scans\<close>

definition generate_mouse_gesture :: "time_stamp \<Rightarrow> int \<Rightarrow> touchpanel \<Rightarrow> touchpanel option" where
  "generate_mouse_gesture eventTime button s =
     (let xOrd = [cachedX s, 0];
          yOrd = [cachedY s, 0];
          wOrd = [if button \<noteq> 0 then 1 else 0, 0];
          fingers = if button \<noteq> 0 then 1 else 0 in
      do {
        (g, _, _, _, events, num_events) \<leftarrow>
          gesture_state_machine xOrd yOrd wOrd fingers eventTime
            (el_input (touchpanel_event_list s)) 0 (tp_gsm s);
        Some (s\<lparr>tp_gsm := g,
                touchpanel_event_list := \<lparr>input_filled = num_events * sizeof_input_event,
                                           input_read = 0, el_input = events\<rparr>\<rparr>) })"

definition SYN_START :: u16 where
  "SYN_START = 8"

text \<open>\<open>(int)(event->value * scale)\<close>.\<close>

definition scaled :: "int \<Rightarrow> rat option \<Rightarrow> int option" where
  "scaled value scale = f32_to_int (f32_mul (f32 (of_int value)) scale)"

text \<open>The keys and wheel moves that are passed on as they are.\<close>

definition is_wheel_or_key :: "input_event \<Rightarrow> bool" where
  "is_wheel_or_key e \<longleftrightarrow>
     (ev_type e = EV_REL \<and> ev_code e = REL_WHEEL) \<or>
     (ev_type e = EV_KEY \<and> ev_code e \<in> {BTN_MIDDLE, BTN_SIDE, BTN_EXTRA, BTN_FORWARD, BTN_BACK, BTN_TASK})"

text \<open>\<open>junk\<close> is the uninitialised local \<open>syn_event\<close>.\<close>

definition forward_event :: "input_event \<Rightarrow> input_event \<Rightarrow> touchpanel \<Rightarrow> touchpanel option" where
  "forward_event junk event s = do {
     a \<leftarrow> arr_set (el_input (touchpanel_event_list s)) 0 event;
     b \<leftarrow> arr_set a 1 (junk\<lparr>ev_type := EV_SYN, ev_code := SYN_START, ev_value := 0\<rparr>);
     Some (s\<lparr>touchpanel_event_list := \<lparr>input_filled = 2 * sizeof_input_event, input_read = 0,
                                       el_input = b\<rparr>\<rparr>) }"

definition handle_new_event ::
  "time_stamp \<Rightarrow> input_event \<Rightarrow> input_event \<Rightarrow> touchpanel \<Rightarrow> touchpanel option" where
  "handle_new_event now junk event s = do {
     s1 \<leftarrow>
       (if ev_type event = EV_ABS \<and> ev_code event = ABS_X then do {
          x \<leftarrow> scaled (ev_value event) (scaleX s);
          Some (s\<lparr>cachedX := x\<rparr>) }
        else if ev_type event = EV_ABS \<and> ev_code event = ABS_Y then do {
          y \<leftarrow> scaled (ev_value event) (scaleY s);
          Some (s\<lparr>cachedY := y\<rparr>) }
        else if ev_type event = EV_KEY \<and> (ev_code event = BTN_TOUCH \<or> ev_code event = BTN_LEFT) then
          (let s' = s\<lparr>touchButtonState := ev_value event\<rparr> in
           if touchButtonState s' = 0 then generate_mouse_gesture now 1 s' else Some s')
        else if ev_type event = EV_SYN then generate_mouse_gesture now (touchButtonState s) s
        else Some s);
     if is_wheel_or_key event then forward_event junk event s1 else Some s1 }"

record timeval =
  tv_sec :: int
  tv_usec :: int

text \<open>
  What poll and read answer: \<open>io_buf\<close> is the local \<open>pEvent\<close> after the read, whose contents the
  read leaves alone when it fails.
\<close>

record input_io =
  poll_ret :: int
  pollin :: bool
  read_ret :: int
  errno_EINTR :: bool
  io_buf :: input_event
  io_time :: timeval
  io_junk :: input_event

text \<open>The microseconds of gettimeofday are below a million, so nothing overflows.\<close>

definition get_time_stamp :: "timeval \<Rightarrow> time_stamp" where
  "get_time_stamp tv = \<lparr>ts_sec = tv_sec tv, ts_nsec = tv_usec tv * 1000\<rparr>"

definition read_input_event :: "input_io \<Rightarrow> touchpanel \<Rightarrow> (int \<times> touchpanel) option" where
  "read_input_event io s =
     (if poll_ret io \<le> 0 then Some (0, s)
      else if pollin io then
        (if read_ret io < 0 \<and> \<not> errno_EINTR io then Some (-1, s)
         else do {
           s' \<leftarrow> handle_new_event (get_time_stamp (io_time io)) (io_junk io) (io_buf io) s;
           Some (0, s') })
      else Some (0, s))"

section \<open>From queued events to touch events\<close>

text \<open>
  One event of the queue: the current touch event and, when one is complete, the generated one.
  \<open>mem2\<close> says whether the calloc for a further touch event succeeds.
\<close>

definition consume_event ::
  "nat \<Rightarrow> bool \<Rightarrow> input_event \<Rightarrow> touch_event option \<Rightarrow>
   (touch_event option \<times> touch_event option) option" where
  "consume_event max_events mem2 ev current =
     (if ev_type ev = EV_FINGERID then do {
        (cur1, found) \<leftarrow> touch_event_get_next_item max_events current;
        (cur2, found2, gen) \<leftarrow>
          (if found then Some (cur1, True, None)
           else do {
             (c, fnd) \<leftarrow> touch_event_get_next_item max_events (touch_event_create mem2);
             Some (c, fnd, current) });
        if found2 then do {
          v \<leftarrow> i32 (ev_value ev * 1000);
          fingr \<leftarrow> i32 (v + uint (ev_code ev));
          ts \<leftarrow> get_ts_tval ev;
          cur3 \<leftarrow> touch_event_set_current_item
            (\<lambda>t. (touch_item_reset t)\<lparr>ti_finger := fingr, ti_timestamp := ts\<rparr>) cur2;
          Some (cur3, gen) }
        else Some (cur2, gen) }
      else if ev_type ev = EV_ABS then do {
        cur \<leftarrow> touch_event_set_current_item
          (\<lambda>t. if ev_code ev = ABS_X then t\<lparr>ti_x := ev_value ev\<rparr>
               else if ev_code ev = ABS_Y then t\<lparr>ti_y := ev_value ev\<rparr> else t) current;
        Some (cur, None) }
      else if ev_type ev = EV_KEY then do {
        cur \<leftarrow> touch_event_set_current_item
          (\<lambda>t. if ev_code ev = BTN_TOUCH
               then t\<lparr>ti_state := (if ev_value ev = 1 then NYX_TOUCHPANEL_STATE_DOWN
                                   else NYX_TOUCHPANEL_STATE_UP)\<rparr>
               else t) current;
        Some (cur, None) }
      else if ev_type ev = EV_SYN then Some (None, current)
      else Some (current, None))"

text \<open>
  The loop: it stops when an event has been generated. The result counts the queue entries
  that were read.
\<close>

fun consume_events ::
  "nat \<Rightarrow> bool \<Rightarrow> input_event list \<Rightarrow> touch_event option \<Rightarrow>
   (nat \<times> touch_event option \<times> touch_event option) option" where
  "consume_events max_events mem2 [] current = Some (0, current, None)"
| "consume_events max_events mem2 (ev # evs) current = do {
     (cur, gen) \<leftarrow> consume_event max_events mem2 ev current;
     if gen \<noteq> None then Some (1, cur, gen)
     else do {
       (k, cur', gen') \<leftarrow> consume_events max_events mem2 evs cur;
       Some (Suc k, cur', gen') } }"

text \<open>
  \<open>max_events\<close> is \<open>NYX_MAX_TOUCH_EVENTS\<close>, a constant of nyx-lib. The third result is the event
  stored in \<open>*e\<close>.
\<close>

definition touchpanel_get_event ::
  "nat \<Rightarrow> bool \<Rightarrow> bool \<Rightarrow> input_io \<Rightarrow> touchpanel \<Rightarrow>
   (nyx_error \<times> touch_event option \<times> touchpanel) option" where
  "touchpanel_get_event max_events mem mem2 io s = do {
     s1 \<leftarrow> (if \<not> read_input s then do {
              (_, s') \<leftarrow> read_input_event io s;
              Some (s'\<lparr>current_event_ptr := None, read_input := True\<rparr>) }
            else Some s);
     let l = touchpanel_event_list s1;
     let event_count = input_filled l div sizeof_input_event;
     let event_iter = input_read l div sizeof_input_event;
     let s2 = (if event_iter = event_count then s1\<lparr>read_input := False\<rparr> else s1);
     let current = (if current_event_ptr s2 = None then touch_event_create mem
                    else current_event_ptr s2);
     if current = None \<or> length (el_input l) < event_count then None
     else do {
       (k, cur, gen) \<leftarrow> consume_events max_events mem2
          (drop event_iter (take event_count (el_input l))) current;
       Some (NYX_ERROR_NONE, gen,
             s2\<lparr>current_event_ptr := cur,
                touchpanel_event_list := l\<lparr>input_read := input_read l + k * sizeof_input_event\<rparr>\<rparr>) } }"

section \<open>The operations that are not implemented\<close>

text \<open>None of them looks at its arguments.\<close>

definition touchpanel_set_operating_mode :: nyx_error where
  "touchpanel_set_operating_mode = NYX_ERROR_NOT_IMPLEMENTED"

definition touchpanel_set_active_scan_rate :: nyx_error where
  "touchpanel_set_active_scan_rate = NYX_ERROR_NOT_IMPLEMENTED"

definition touchpanel_set_idle_scan_rate :: nyx_error where
  "touchpanel_set_idle_scan_rate = NYX_ERROR_NOT_IMPLEMENTED"

definition touchpanel_get_active_scan_rate :: nyx_error where
  "touchpanel_get_active_scan_rate = NYX_ERROR_NOT_IMPLEMENTED"

definition touchpanel_get_idle_scan_rate :: nyx_error where
  "touchpanel_get_idle_scan_rate = NYX_ERROR_NOT_IMPLEMENTED"

definition touchpanel_set_mode :: nyx_error where
  "touchpanel_set_mode = NYX_ERROR_NOT_IMPLEMENTED"

definition touchpanel_get_mode :: nyx_error where
  "touchpanel_get_mode = NYX_ERROR_NOT_IMPLEMENTED"

end
