(* ===== verification/Touchpanel_Refinement.thy ===== *)
theory Touchpanel_Refinement
  imports Touchpanel Gesture_Single
begin

text \<open>
  What the touchpanel module makes of a mouse: an abstract pointer that is up or down at a
  position, and the proof that scans, event queue and touch events implement it.
\<close>

section \<open>The abstract pointer\<close>

text \<open>A pointer that is down has an id and a position; a report is one touch item.\<close>

type_synonym pointer = "(u32 \<times> int \<times> int) option"
type_synonym report = "u32 \<times> touchpanel_state \<times> int \<times> int"

fun pointer_step :: "bool \<Rightarrow> int \<Rightarrow> int \<Rightarrow> u32 \<Rightarrow> pointer \<Rightarrow> pointer \<times> report option" where
  "pointer_step True x y nxt None =
     (if x = 0 \<and> y = 0 then (None, None)
      else (Some (nxt, x, y), Some (nxt, NYX_TOUCHPANEL_STATE_DOWN, x, y)))"
| "pointer_step True x y nxt (Some (i, px, py)) =
     (Some (i, x, y), Some (i, NYX_TOUCHPANEL_STATE_UNDEFINED, x, y))"
| "pointer_step False x y nxt None = (None, None)"
| "pointer_step False x y nxt (Some (i, px, py)) =
     (None, Some (i, NYX_TOUCHPANEL_STATE_UP, px, py))"

text \<open>The events that a report travels as.\<close>

definition report_payloads :: "report \<Rightarrow> (u16 \<times> u16 \<times> int) list" where
  "report_payloads = (\<lambda>(i, st, x, y).
     [(EV_FINGERID, 0, sint i)]
     @ (if st = NYX_TOUCHPANEL_STATE_DOWN then [(EV_KEY, BTN_TOUCH, 1)] else [])
     @ [(EV_ABS, ABS_X, x), (EV_ABS, ABS_Y, y)]
     @ (if st = NYX_TOUCHPANEL_STATE_UP then [(EV_KEY, BTN_TOUCH, 0)] else [])
     @ [(EV_SYN, 0, 0)])"

fun payloads_of :: "report option \<Rightarrow> (u16 \<times> u16 \<times> int) list" where
  "payloads_of None = []"
| "payloads_of (Some r) = report_payloads r"

section \<open>The invariant of the module\<close>

definition time_ok :: "input_event \<Rightarrow> bool" where
  "time_ok e \<longleftrightarrow> \<bar>ev_sec e\<bar> \<le> 2 ^ 32 \<and> \<bar>ev_usec e\<bar> \<le> 2 ^ 32"

lemma get_ts_tval_ok: "time_ok e \<Longrightarrow> \<exists>ts. get_ts_tval e = Some ts"
  by (auto simp: get_ts_tval_def i64_def time_ok_def abs_le_iff)

definition mouse_gsm :: "gsm \<Rightarrow> bool" where
  "mouse_gsm g \<longleftrightarrow> gsm_inv g \<and> spGeneralSettings g = Some sGeneralSettings \<and> finger_count g = 2 \<and>
     length (sFingers g) \<le> 1 \<and> (\<forall>f \<in> set (sFingers g). lastWeight f = 1)"

definition queue_ok :: "event_list \<Rightarrow> bool" where
  "queue_ok l \<longleftrightarrow> length (el_input l) = MAX_HIDD_EVENTS \<and>
     sizeof_input_event dvd input_filled l \<and> sizeof_input_event dvd input_read l \<and>
     input_read l \<le> input_filled l \<and> input_filled l \<le> MAX_HIDD_EVENTS * sizeof_input_event \<and>
     (\<forall>e \<in> set (el_input l). time_ok e)"

text \<open>The events that are still to be read.\<close>

definition queue :: "event_list \<Rightarrow> input_event list" where
  "queue l = drop (input_read l div sizeof_input_event)
     (take (input_filled l div sizeof_input_event) (el_input l))"

definition tp_inv :: "touchpanel \<Rightarrow> bool" where
  "tp_inv s \<longleftrightarrow> mouse_gsm (tp_gsm s) \<and> queue_ok (touchpanel_event_list s) \<and>
     panel_coord (cachedX s) \<and> panel_coord (cachedY s) \<and> in_i32 (touchButtonState s)"

definition tp_pointer :: "gsm \<Rightarrow> pointer" where
  "tp_pointer g =
     (case sFingers g of [] \<Rightarrow> None
      | f # _ \<Rightarrow> Some (f_id f, co_x (finger_pos f), co_y (finger_pos f)))"

lemma sizeofs: "sizeof_input_event = 24" "MAX_HIDD_EVENTS = 170"
  by (simp_all add: sizeof_input_event_def MAX_HIDD_EVENTS_def)

lemma queue_written:
  assumes "writes events 0 ev n' ps" "length events = MAX_HIDD_EVENTS" "length ps \<le> MAX_HIDD_EVENTS"
    and "\<forall>e \<in> set events. time_ok e"
  defines "l \<equiv> \<lparr>input_filled = n' * sizeof_input_event, input_read = 0, el_input = ev\<rparr>"
  shows "queue_ok l" "map payload (queue l) = ps"
proof -
  have n': "n' = length ps" "length ev = length events" using writes_length [OF assms(1)] by auto
  have "map event_time ev = map event_time events" using assms(1) by (simp add: writes_def)
  then have "event_time ` set ev = event_time ` set events" by (metis image_set)
  then have "time_ok e" if "e \<in> set ev" for e
  proof -
    have "event_time e \<in> event_time ` set events" using that \<open>event_time ` set ev = _\<close> by blast
    then obtain e0 where "e0 \<in> set events" "event_time e = event_time e0" by auto
    with assms(4) show ?thesis by (auto simp: time_ok_def event_time_def)
  qed
  then show "queue_ok l"
    using n' assms(2,3) by (auto simp: queue_ok_def l_def)
  show "map payload (queue l) = ps"
    using writes_payloads_0 [OF assms(1)] by (simp add: queue_def l_def sizeofs)
qed

section \<open>A scan implements a pointer step\<close>

lemma mouse_scan_pre:
  assumes "mouse_gsm g" "panel_coord x" "panel_coord y" "n \<le> 1"
    and "0 \<le> ts_nsec t" "ts_nsec t < 1000000000" "length events = MAX_HIDD_EVENTS"
  shows "scan_pre [x, 0] [y, 0] [w, 0] n t events 0 g"
  using assms by (auto simp: scan_pre_def mouse_gsm_def touches_ok_def panel_coord_def sizeofs)

text \<open>The tracker, given the touches of a mouse.\<close>

definition mouse_step ::
  "bool \<Rightarrow> int \<Rightarrow> int \<Rightarrow> gsm \<Rightarrow> input_event list \<Rightarrow> gsm \<Rightarrow> input_event list \<Rightarrow> nat \<Rightarrow> bool" where
  "mouse_step b x y g events g' ev n' \<longleftrightarrow>
     mouse_gsm g' \<and> tp_pointer g' = fst (pointer_step b x y (curFingerId g) (tp_pointer g)) \<and>
     curFingerId g' = curFingerId g + (if tp_pointer g = None \<and> tp_pointer g' \<noteq> None then 1 else 0) \<and>
     writes events 0 ev n' (payloads_of (snd (pointer_step b x y (curFingerId g) (tp_pointer g))))"

lemma mouse_step_down:
  assumes "mouse_gsm g" "scan_pre [x, 0] [y, 0] [1, 0] 1 t events 0 g"
  shows "\<exists>g' xs' ys' t' ev n'.
     gesture_state_machine [x, 0] [y, 0] [1, 0] 1 t events 0 g = Some (g', xs', ys', t', ev, n') \<and>
     mouse_step True x y g events g' ev n'"
proof -
  have g: "spGeneralSettings g = Some sGeneralSettings" "gsm_inv g" "finger_count g = 2"
    "length (sFingers g) \<le> 1" "\<forall>f \<in> set (sFingers g). lastWeight f = 1"
    using assms(1) by (simp_all add: mouse_gsm_def)
  show ?thesis
  proof (cases "sFingers g")
    case Nil
    then have av: "availableFingers g \<noteq> []" using g(3) by (auto simp: finger_count_def)
    show ?thesis
    proof (cases "x = 0 \<and> y = 0")
      case True
      have "mouse_step True x y g events g events 0"
        using assms(1) Nil True by (simp add: mouse_step_def tp_pointer_def)
      moreover have "scan_pre (0 # [0]) (0 # [0]) [1, 0] 1 t events 0 g"
        using assms(2) True by simp
      ultimately show ?thesis using lost_touch_scan [OF _ Nil] True by blast
    next
      case False
      have thr: "fingerDownThreshold sGeneralSettings \<le> 1" by (simp add: sGeneralSettings_def)
      from press_scan [OF assms(2) g(1) Nil av thr False] obtain g' xs' ys' t' ev n' f' where
        run: "gesture_state_machine [x, 0] [y, 0] [1, 0] 1 t events 0 g = Some (g', xs', ys', t', ev, n')"
        and w: "writes events 0 ev n'
          [(EV_FINGERID, 0, sint (curFingerId g)), (EV_KEY, BTN_TOUCH, 1), (EV_ABS, ABS_X, x),
           (EV_ABS, ABS_Y, y), (EV_SYN, 0, 0)]"
        and g': "gsm_inv g'" "finger_count g' = finger_count g" "spGeneralSettings g' = Some sGeneralSettings"
          "sFingers g' = [f']" "f_id f' = curFingerId g" "co_x (finger_pos f') = x"
          "co_y (finger_pos f') = y" "lastWeight f' = 1" "curFingerId g' = curFingerId g + 1"
        by blast
      have "mouse_step True x y g events g' ev n'"
        using w g' g False Nil
        by (auto simp: mouse_step_def mouse_gsm_def tp_pointer_def report_payloads_def)
      with run show ?thesis by blast
    qed
  next
    case (Cons f fs)
    then have f: "sFingers g = [f]" "lastWeight f = 1" using g(4,5) by auto
    then have lw: "lastWeight f sdiv 2 < 1" by (simp add: signed_divide_int_def)
    from drag_scan [OF assms(2) g(1) f(1) lw] obtain g' xs' ys' t' ev n' f' where
      run: "gesture_state_machine [x, 0] [y, 0] [1, 0] 1 t events 0 g = Some (g', xs', ys', t', ev, n')"
      and w: "writes events 0 ev n'
        [(EV_FINGERID, 0, sint (f_id f)), (EV_ABS, ABS_X, x), (EV_ABS, ABS_Y, y), (EV_SYN, 0, 0)]"
      and g': "gsm_inv g'" "finger_count g' = finger_count g" "spGeneralSettings g' = Some sGeneralSettings"
        "sFingers g' = [f']" "f_id f' = f_id f" "co_x (finger_pos f') = x" "co_y (finger_pos f') = y"
        "lastWeight f' = 1" "curFingerId g' = curFingerId g"
      by (auto simp: filtered_def sGeneralSettings_def)
    have "mouse_step True x y g events g' ev n'"
      using w g' g f
      by (auto simp: mouse_step_def mouse_gsm_def tp_pointer_def report_payloads_def)
    with run show ?thesis by blast
  qed
qed

lemma mouse_step_up:
  assumes "mouse_gsm g" "scan_pre [x, 0] [y, 0] [0, 0] 0 t events 0 g"
  shows "\<exists>g' xs' ys' t' ev n'.
     gesture_state_machine [x, 0] [y, 0] [0, 0] 0 t events 0 g = Some (g', xs', ys', t', ev, n') \<and>
     mouse_step False x y g events g' ev n'"
proof -
  have g: "spGeneralSettings g = Some sGeneralSettings" "finger_count g = 2"
    "length (sFingers g) \<le> 1"
    using assms(1) by (simp_all add: mouse_gsm_def)
  from no_touch_scan [OF assms(2)] obtain g' xs' ys' t' ev n' where
    run: "gesture_state_machine [x, 0] [y, 0] [0, 0] 0 t events 0 g = Some (g', xs', ys', t', ev, n')"
    and w: "writes events 0 ev n' (concat (map release_events (sFingers g))
          @ (if sFingers g = [] then [] else [(EV_SYN, 0, 0)]))"
    and g': "gsm_inv g'" "finger_count g' = finger_count g" "spGeneralSettings g' = spGeneralSettings g"
      "sFingers g' = []" "curFingerId g' = curFingerId g"
    by blast
  have "sFingers g = [] \<or> (\<exists>f. sFingers g = [f])" using g(3) by (cases "sFingers g") auto
  then have "mouse_step False x y g events g' ev n'"
    using w g' g
    by (auto simp: mouse_step_def mouse_gsm_def tp_pointer_def report_payloads_def release_events_def)
  with run show ?thesis by blast
qed

section \<open>The queue becomes a touch event\<close>

fun report_item :: "report \<Rightarrow> int \<Rightarrow> touch_item" where
  "report_item (i, st, x, y) ts = \<lparr>ti_finger = sint i * 1000, ti_state = st, ti_x = x, ti_y = y,
     gestureKey = -1, xVelocity = 0, yVelocity = 0, ti_weight = None, ti_timestamp = ts\<rparr>"

definition id_ok :: "u32 \<Rightarrow> bool" where
  "id_ok i \<longleftrightarrow> uint i \<le> 2147000"

lemma id_ok_product: "id_ok i \<Longrightarrow> in_i32 (sint i * 1000)"
proof -
  assume "id_ok i"
  then have "uint i \<le> 2147000" by (simp add: id_ok_def)
  moreover have pos: "0 \<le> uint i" by (rule uint_ge_0)
  ultimately have "- 2147483648 \<le> uint i" "uint i < 2147483648" by linarith+
  then have "sint i = uint i" by (simp add: sint_uint signed_take_bit_int_eq_self)
  with \<open>uint i \<le> 2147000\<close> show ?thesis
    using uint_ge_0 [of i] by (intro in_i32_small) (simp add: abs_le_iff)
qed

text \<open>One event at a time, for the events that the tracker makes.\<close>

lemma consume_id:
  assumes "payload e = (EV_FINGERID, 0, sint i)" "0 < max_events" "id_ok i" "time_ok e"
  shows "\<exists>ts. consume_event max_events mem2 e (Some []) =
     Some (Some [report_item (i, NYX_TOUCHPANEL_STATE_UNDEFINED, 0, 0) ts], None)"
proof -
  obtain ts where "get_ts_tval e = Some ts" using get_ts_tval_ok [OF assms(4)] by blast
  then show ?thesis
    using assms id_ok_product [OF assms(3)]
    by (simp add: consume_event_def touch_event_get_next_item_def touch_event_set_current_item_def
        payload_def i32_Some touch_item_reset_def zero_item_def)
qed

lemma consume_other:
  "payload e = (EV_KEY, BTN_TOUCH, v) \<Longrightarrow>
   consume_event max_events mem2 e (Some [t]) = Some (Some [t\<lparr>ti_state :=
     (if v = 1 then NYX_TOUCHPANEL_STATE_DOWN else NYX_TOUCHPANEL_STATE_UP)\<rparr>], None)"
  "payload e = (EV_ABS, ABS_X, v) \<Longrightarrow>
   consume_event max_events mem2 e (Some [t]) = Some (Some [t\<lparr>ti_x := v\<rparr>], None)"
  "payload e = (EV_ABS, ABS_Y, v) \<Longrightarrow>
   consume_event max_events mem2 e (Some [t]) = Some (Some [t\<lparr>ti_y := v\<rparr>], None)"
  "payload e = (EV_SYN, c, v) \<Longrightarrow> consume_event max_events mem2 e cur = Some (None, cur)"
  by (simp_all add: consume_event_def touch_event_set_current_item_def payload_def input_codes)

lemma consume_report:
  assumes "map payload evs = report_payloads (i, st, x, y)" "0 < max_events" "id_ok i"
    and "\<forall>e \<in> set evs. time_ok e"
  shows "\<exists>ts. consume_events max_events mem2 evs (Some []) =
     Some (length evs, None, Some [report_item (i, st, x, y) ts])"
proof -
  obtain e rest where evs: "evs = e # rest" "payload e = (EV_FINGERID, 0, sint i)"
    "map payload rest = tl (report_payloads (i, st, x, y))"
    using assms(1) by (auto simp: report_payloads_def map_eq_Cons_conv)
  from evs assms(4) have "time_ok e" by simp
  from consume_id [OF evs(2) assms(2,3) this] obtain ts where
    "consume_event max_events mem2 e (Some []) =
     Some (Some [report_item (i, NYX_TOUCHPANEL_STATE_UNDEFINED, 0, 0) ts], None)" by blast
  with evs show ?thesis
    by (cases st) (auto simp: report_payloads_def map_eq_Cons_conv consume_other)
qed

section \<open>Getting events\<close>

definition idle :: "touchpanel \<Rightarrow> bool" where
  "idle s \<longleftrightarrow> \<not> read_input s \<and> input_read (touchpanel_event_list s) = input_filled (touchpanel_event_list s)"

lemma queue_empty_iff:
  assumes "queue_ok l"
  shows "queue l = [] \<longleftrightarrow> input_read l = input_filled l"
proof -
  have "input_filled l div sizeof_input_event \<le> length (el_input l)"
    using assms by (auto simp: queue_ok_def sizeofs)
  then have "queue l = [] \<longleftrightarrow>
      input_filled l div sizeof_input_event \<le> input_read l div sizeof_input_event"
    by (auto simp: queue_def)
  then show ?thesis using assms by (auto simp: queue_ok_def sizeofs elim!: dvdE)
qed

lemma length_queue:
  assumes "queue_ok l"
  shows "input_read l + length (queue l) * sizeof_input_event = input_filled l"
  using assms by (auto simp: queue_ok_def queue_def sizeofs elim!: dvdE)

lemma queue_ok_count: "queue_ok l \<Longrightarrow> input_filled l div sizeof_input_event \<le> length (el_input l)"
  by (auto simp: queue_ok_def sizeofs)

text \<open>A call that reads a raw event.\<close>

lemma get_event_read:
  assumes "idle s" "read_input_event io s = Some (r, s1)" "queue_ok (touchpanel_event_list s1)"
    and "consume_events max_events mem2 (queue (touchpanel_event_list s1)) (Some [])
         = Some (length (queue (touchpanel_event_list s1)), cur, gen)"
  shows "\<exists>s'. touchpanel_get_event max_events True mem2 io s = Some (NYX_ERROR_NONE, gen, s') \<and>
     s' = s1\<lparr>read_input := (queue (touchpanel_event_list s1) \<noteq> []), current_event_ptr := cur,
            touchpanel_event_list := (touchpanel_event_list s1)
              \<lparr>input_read := input_filled (touchpanel_event_list s1)\<rparr>\<rparr>"
proof -
  let ?l = "touchpanel_event_list s1"
  have eq: "input_read ?l div sizeof_input_event = input_filled ?l div sizeof_input_event
      \<longleftrightarrow> queue ?l = []"
    using assms(3) queue_empty_iff [OF assms(3)] by (auto simp: queue_ok_def sizeofs elim!: dvdE)
  have "\<not> length (el_input ?l) < input_filled ?l div sizeof_input_event"
    using queue_ok_count [OF assms(3)] by simp
  then show ?thesis
    using assms(1,2,4) eq length_queue [OF assms(3)]
    by (simp add: touchpanel_get_event_def idle_def touch_event_create_def Let_def queue_def)
qed

text \<open>A call when the queue has been used up.\<close>

lemma get_event_done:
  assumes "read_input s" "input_read (touchpanel_event_list s) = input_filled (touchpanel_event_list s)"
    and "queue_ok (touchpanel_event_list s)"
  shows "\<exists>s'. touchpanel_get_event max_events True mem2 io s = Some (NYX_ERROR_NONE, None, s') \<and>
     (\<exists>cur. s' = s\<lparr>read_input := False, current_event_ptr := cur,
        touchpanel_event_list := (touchpanel_event_list s)
          \<lparr>input_read := input_filled (touchpanel_event_list s)\<rparr>\<rparr>)"
  using assms queue_ok_count [OF assms(3)]
  by (cases "current_event_ptr s") (auto simp: touchpanel_get_event_def touch_event_create_def Let_def)

section \<open>One raw event, all its touch events\<close>

text \<open>
  Calling \<open>touchpanel_get_event\<close> for one raw event until it is ready to read the next one.
\<close>

definition feed :: "nat \<Rightarrow> input_io \<Rightarrow> touchpanel \<Rightarrow> (touch_event list \<times> touchpanel) option" where
  "feed max_events io s = do {
     (_, e1, s1) \<leftarrow> touchpanel_get_event max_events True True io s;
     if read_input s1 then do {
       (_, e2, s2) \<leftarrow> touchpanel_get_event max_events True True io s1;
       Some (option_list e1 @ option_list e2, s2) }
     else Some (option_list e1, s1) }"

text \<open>What the caller sees of a touch event.\<close>

definition item_report :: "touch_item \<Rightarrow> int \<times> touchpanel_state \<times> int \<times> int" where
  "item_report t = (ti_finger t, ti_state t, ti_x t, ti_y t)"

definition report_view :: "report \<Rightarrow> int \<times> touchpanel_state \<times> int \<times> int" where
  "report_view = (\<lambda>(i, st, x, y). (sint i * 1000, st, x, y))"

text \<open>The queue holds a report, a forwarded event or nothing; this is what comes out.\<close>

definition queue_delivers :: "nat \<Rightarrow> event_list \<Rightarrow> (int \<times> touchpanel_state \<times> int \<times> int) list list \<Rightarrow> bool" where
  "queue_delivers max_events l out \<longleftrightarrow>
     (\<exists>cur gen. consume_events max_events True (queue l) (Some []) = Some (length (queue l), cur, gen) \<and>
        map (map item_report) (option_list gen) = out)"

definition rest_state :: "touchpanel \<Rightarrow> touchpanel \<Rightarrow> bool" where
  "rest_state s s' \<longleftrightarrow> tp_gsm s' = tp_gsm s \<and> cachedX s' = cachedX s \<and> cachedY s' = cachedY s \<and>
     touchButtonState s' = touchButtonState s \<and> scaleX s' = scaleX s \<and> scaleY s' = scaleY s \<and>
     queue_ok (touchpanel_event_list s') \<and> idle s'"

lemma feed_delivers:
  assumes "idle s" "read_input_event io s = Some (r, s1)" "queue_ok (touchpanel_event_list s1)"
    and "queue_delivers max_events (touchpanel_event_list s1) out"
  shows "\<exists>es s'. feed max_events io s = Some (es, s') \<and> map (map item_report) es = out \<and> rest_state s1 s'"
proof -
  let ?l = "touchpanel_event_list s1"
  obtain cur gen where c: "consume_events max_events True (queue ?l) (Some []) = Some (length (queue ?l), cur, gen)"
    "map (map item_report) (option_list gen) = out"
    using assms(4) by (auto simp: queue_delivers_def)
  from get_event_read [OF assms(1-3) c(1)] obtain s2 where
    s2: "touchpanel_get_event max_events True True io s = Some (NYX_ERROR_NONE, gen, s2)"
      "s2 = s1\<lparr>read_input := (queue ?l \<noteq> []), current_event_ptr := cur,
             touchpanel_event_list := ?l\<lparr>input_read := input_filled ?l\<rparr>\<rparr>"
    by blast
  have ok: "queue_ok (touchpanel_event_list s2)" using assms(3) by (simp add: s2(2) queue_ok_def)
  show ?thesis
  proof (cases "queue ?l = []")
    case True
    then show ?thesis using s2 c ok by (simp add: feed_def rest_state_def idle_def)
  next
    case False
    then have "read_input s2" "input_read (touchpanel_event_list s2) = input_filled (touchpanel_event_list s2)"
      by (simp_all add: s2(2))
    from get_event_done [OF this ok] obtain s3 cur' where
      "touchpanel_get_event max_events True True io s2 = Some (NYX_ERROR_NONE, None, s3)"
      "s3 = s2\<lparr>read_input := False, current_event_ptr := cur',
        touchpanel_event_list := (touchpanel_event_list s2)
          \<lparr>input_read := input_filled (touchpanel_event_list s2)\<rparr>\<rparr>" by blast
    with False s2 c ok show ?thesis
      by (simp add: feed_def rest_state_def idle_def option_list_def queue_ok_def)
  qed
qed

lemma delivers_report:
  assumes "map payload (queue l) = payloads_of r" "0 < max_events" "queue_ok l"
    and "\<And>i st x y. r = Some (i, st, x, y) \<Longrightarrow> id_ok i"
  shows "queue_delivers max_events l (map (\<lambda>r. [report_view r]) (option_list r))"
proof (cases r)
  case None
  with assms(1) show ?thesis by (simp add: queue_delivers_def)
next
  case (Some rep)
  obtain i st x y where rep: "rep = (i, st, x, y)" by (cases rep)
  have "set (queue l) \<subseteq> set (el_input l)"
    unfolding queue_def by (meson dual_order.trans set_drop_subset set_take_subset)
  then have ok: "\<forall>e \<in> set (queue l). time_ok e" using assms(3) by (auto simp: queue_ok_def)
  have "map payload (queue l) = report_payloads (i, st, x, y)" using assms(1) Some rep by simp
  from consume_report [OF this assms(2) _ ok] assms(4) Some rep obtain ts where
    "consume_events max_events True (queue l) (Some []) =
     Some (length (queue l), None, Some [report_item (i, st, x, y) ts])" by blast
  then show ?thesis
    by (auto simp: queue_delivers_def item_report_def report_view_def Some rep)
qed

section \<open>The mouse\<close>

text \<open>The abstract state: the position and button last reported, and the pointer.\<close>

record mouse =
  m_x :: int
  m_y :: int
  m_button :: int
  m_pointer :: pointer
  m_next :: u32

definition mouse_of :: "touchpanel \<Rightarrow> mouse" where
  "mouse_of s = \<lparr>m_x = cachedX s, m_y = cachedY s, m_button = touchButtonState s,
     m_pointer = tp_pointer (tp_gsm s), m_next = curFingerId (tp_gsm s)\<rparr>"

definition mouse_scan :: "bool \<Rightarrow> mouse \<Rightarrow> mouse \<times> report list list" where
  "mouse_scan b m =
     (let (p, r) = pointer_step b (m_x m) (m_y m) (m_next m) (m_pointer m) in
      (m\<lparr>m_pointer := p, m_next := m_next m + (if m_pointer m = None \<and> p \<noteq> None then 1 else 0)\<rparr>,
       map (\<lambda>r. [r]) (option_list r)))"

text \<open>
  A raw event: moves are remembered, a release of the button first reports the pointer where it
  is now, a synchronisation reports it as it is; the wheel and the other buttons come out as a
  touch event without items.
\<close>

definition mouse_input :: "(int \<Rightarrow> int) \<Rightarrow> (int \<Rightarrow> int) \<Rightarrow> input_event \<Rightarrow> mouse \<Rightarrow> mouse \<times> report list list" where
  "mouse_input sx sy e m =
     (if ev_type e = EV_ABS \<and> ev_code e = ABS_X then (m\<lparr>m_x := sx (ev_value e)\<rparr>, [])
      else if ev_type e = EV_ABS \<and> ev_code e = ABS_Y then (m\<lparr>m_y := sy (ev_value e)\<rparr>, [])
      else if ev_type e = EV_KEY \<and> (ev_code e = BTN_TOUCH \<or> ev_code e = BTN_LEFT) then
        (let m' = m\<lparr>m_button := ev_value e\<rparr> in
         if ev_value e = 0 then mouse_scan True m' else (m', []))
      else if ev_type e = EV_SYN then mouse_scan (m_button m \<noteq> 0) m
      else if is_wheel_or_key e then (m, [[]])
      else (m, []))"

text \<open>A raw event that the kernel delivers, with coordinates on the panel.\<close>

definition raw_ok :: "touchpanel \<Rightarrow> input_io \<Rightarrow> bool" where
  "raw_ok s io \<longleftrightarrow> 0 < poll_ret io \<and> pollin io \<and> 0 \<le> read_ret io \<and>
     0 \<le> tv_usec (io_time io) \<and> tv_usec (io_time io) < 1000000 \<and>
     time_ok (io_buf io) \<and> time_ok (io_junk io) \<and> in_i32 (ev_value (io_buf io)) \<and>
     (ev_type (io_buf io) = EV_ABS \<and> ev_code (io_buf io) = ABS_X \<longrightarrow>
        (\<exists>v. scaled (ev_value (io_buf io)) (scaleX s) = Some v \<and> panel_coord v)) \<and>
     (ev_type (io_buf io) = EV_ABS \<and> ev_code (io_buf io) = ABS_Y \<longrightarrow>
        (\<exists>v. scaled (ev_value (io_buf io)) (scaleY s) = Some v \<and> panel_coord v))"

text \<open>Ids are far from the end.\<close>

definition mouse_ids_ok :: "mouse \<Rightarrow> bool" where
  "mouse_ids_ok m \<longleftrightarrow> id_ok (m_next m) \<and> (\<forall>i x y. m_pointer m = Some (i, x, y) \<longrightarrow> id_ok i)"

lemma pointer_step_id:
  "snd (pointer_step b x y nxt p) = Some (i, st, px, py) \<Longrightarrow> id_ok nxt \<Longrightarrow>
   (\<And>i x y. p = Some (i, x, y) \<Longrightarrow> id_ok i) \<Longrightarrow> id_ok i"
  by (cases "(b, x, y, nxt, p)" rule: pointer_step.cases) (auto split: if_splits)

lemma pointer_step_length: "length (payloads_of (snd (pointer_step b x y nxt p))) \<le> 5"
  by (cases "(b, x, y, nxt, p)" rule: pointer_step.cases) (auto simp: report_payloads_def)

text \<open>\<open>generate_mouse_gesture\<close> implements \<open>mouse_scan\<close>.\<close>

lemma generate_mouse_gesture_correct:
  assumes "tp_inv s" "0 \<le> ts_nsec t" "ts_nsec t < 1000000000" "mouse_ids_ok (mouse_of s)"
    and "0 < max_events"
  shows "\<exists>s1. generate_mouse_gesture t button s = Some s1 \<and> tp_inv s1 \<and>
     mouse_of s1 = fst (mouse_scan (button \<noteq> 0) (mouse_of s)) \<and>
     scaleX s1 = scaleX s \<and> scaleY s1 = scaleY s \<and>
     queue_delivers max_events (touchpanel_event_list s1)
       (map (map report_view) (snd (mouse_scan (button \<noteq> 0) (mouse_of s))))"
proof -
  let ?g = "tp_gsm s" and ?ev = "el_input (touchpanel_event_list s)" and ?b = "button \<noteq> 0"
  let ?w = "if ?b then 1 else 0 :: int" and ?n = "if ?b then 1 else 0 :: nat"
  have inv: "mouse_gsm ?g" "panel_coord (cachedX s)" "panel_coord (cachedY s)"
    "length ?ev = MAX_HIDD_EVENTS" "\<forall>e \<in> set ?ev. time_ok e"
    using assms(1) by (simp_all add: tp_inv_def queue_ok_def)
  have pre: "scan_pre [cachedX s, 0] [cachedY s, 0] [?w, 0] ?n t ?ev 0 ?g"
    by (rule mouse_scan_pre) (use inv assms(2,3) in auto)
  let ?r = "snd (pointer_step ?b (cachedX s) (cachedY s) (curFingerId ?g) (tp_pointer ?g))"
  obtain g' xs' ys' t' ev n' where
    run: "gesture_state_machine [cachedX s, 0] [cachedY s, 0] [?w, 0] ?n t ?ev 0 ?g
        = Some (g', xs', ys', t', ev, n')"
    and st: "mouse_step ?b (cachedX s) (cachedY s) ?g ?ev g' ev n'"
    using mouse_step_down [OF inv(1), of "cachedX s" "cachedY s" t ?ev]
      mouse_step_up [OF inv(1), of "cachedX s" "cachedY s" t ?ev] pre
    by (cases ?b) auto
  let ?l = "\<lparr>input_filled = n' * sizeof_input_event, input_read = 0, el_input = ev\<rparr>"
  let ?s1 = "s\<lparr>tp_gsm := g', touchpanel_event_list := ?l\<rparr>"
  have w: "writes ?ev 0 ev n' (payloads_of ?r)" using st by (simp add: mouse_step_def)
  have len: "length (payloads_of ?r) \<le> MAX_HIDD_EVENTS"
    using pointer_step_length [of ?b "cachedX s" "cachedY s" "curFingerId ?g" "tp_pointer ?g"]
    by (simp add: sizeofs)
  note q = queue_written [OF w inv(4) len inv(5)]
  have ids: "id_ok i" if "?r = Some (i, st', x, y)" for i st' x y
    using pointer_step_id [OF that] assms(4) by (simp add: mouse_ids_ok_def mouse_of_def)
  have "generate_mouse_gesture t button s = Some ?s1"
    using run by (auto simp: generate_mouse_gesture_def Let_def)
  moreover have "tp_inv ?s1"
    using assms(1) st q(1) by (simp add: tp_inv_def mouse_step_def)
  moreover have "mouse_of ?s1 = fst (mouse_scan ?b (mouse_of s))"
    using st by (simp add: mouse_of_def mouse_scan_def mouse_step_def case_prod_beta)
  moreover have "queue_delivers max_events ?l (map (map report_view) (snd (mouse_scan ?b (mouse_of s))))"
    using delivers_report [OF q(2) assms(5) q(1) ids]
    by (simp add: mouse_scan_def mouse_of_def case_prod_beta comp_def)
  ultimately show ?thesis by (intro exI [of _ ?s1]) simp
qed

end
