(* ===== verification/Touchpanel_Mouse.thy ===== *)
theory Touchpanel_Mouse
  imports Touchpanel_Refinement
begin

text \<open>
  The touchpanel module refines the abstract mouse: whatever raw events arrive, the touch
  events that \<open>touchpanel_get_event\<close> gives out are the reports of the mouse. The last part
  holds the properties of the module, with a click as the example.
\<close>

section \<open>A raw event\<close>

lemma forwarded_delivers:
  assumes "idle s" "queue_ok (touchpanel_event_list s)" "is_wheel_or_key e" "time_ok e" "time_ok junk"
  shows "\<exists>s1. forward_event junk e s = Some s1 \<and>
     s1 = s\<lparr>touchpanel_event_list := touchpanel_event_list s1\<rparr> \<and>
     queue_ok (touchpanel_event_list s1) \<and>
     queue_delivers max_events (touchpanel_event_list s1) [[]]"
proof -
  let ?syn = "junk\<lparr>ev_type := EV_SYN, ev_code := SYN_START, ev_value := 0\<rparr>"
  let ?a = "(el_input (touchpanel_event_list s))[0 := e, 1 := ?syn]"
  let ?l = "\<lparr>input_filled = 2 * sizeof_input_event, input_read = 0, el_input = ?a\<rparr>"
  have len: "length (el_input (touchpanel_event_list s)) = 170"
    and ok: "\<forall>e \<in> set (el_input (touchpanel_event_list s)). time_ok e"
    using assms(2) by (simp_all add: queue_ok_def sizeofs)
  have run: "forward_event junk e s = Some (s\<lparr>touchpanel_event_list := ?l\<rparr>)"
    using len by (simp add: forward_event_def arr_set_def)
  have "time_ok ?syn" using assms(5) by (simp add: time_ok_def)
  then have "\<forall>x \<in> set ?a. time_ok x"
    using ok assms(4) by (auto dest!: set_update_subset_insert [THEN subsetD])
  then have "queue_ok ?l" using len by (simp add: queue_ok_def sizeofs)
  moreover have "queue ?l = [e, ?syn]"
    using len by (cases "el_input (touchpanel_event_list s)"; cases "tl (el_input (touchpanel_event_list s))")
      (auto simp: queue_def sizeofs)
  moreover have "consume_event max_events True e (Some []) = Some (Some [], None)"
    using assms(3)
    by (auto simp: consume_event_def is_wheel_or_key_def input_codes touch_event_set_current_item_def)
  moreover have "consume_event max_events True ?syn (Some []) = Some (None, Some [])"
    by (simp add: consume_event_def input_codes)
  ultimately have "queue_delivers max_events ?l [[]]" by (simp add: queue_delivers_def)
  with run \<open>queue_ok ?l\<close> show ?thesis by simp
qed

lemma nothing_delivered: "idle s \<Longrightarrow> queue_ok (touchpanel_event_list s) \<Longrightarrow>
    queue_delivers max_events (touchpanel_event_list s) []"
  using queue_empty_iff [of "touchpanel_event_list s"] by (simp add: queue_delivers_def idle_def)

text \<open>The panel coordinates that the module makes of the values of the device.\<close>

definition scale_of :: "rat option \<Rightarrow> int \<Rightarrow> int" where
  "scale_of sc v = the (scaled v sc)"

definition handled :: "nat \<Rightarrow> touchpanel \<Rightarrow> touchpanel \<Rightarrow> mouse \<times> report list list \<Rightarrow> bool" where
  "handled max_events s s1 r \<longleftrightarrow>
     tp_inv s1 \<and> mouse_of s1 = fst r \<and> scaleX s1 = scaleX s \<and> scaleY s1 = scaleY s \<and>
     queue_delivers max_events (touchpanel_event_list s1) (map (map report_view) (snd r))"

text \<open>The cases of a raw event: which ones can be forwarded as well.\<close>

lemma wheel_or_key_cases:
  "is_wheel_or_key e \<Longrightarrow> ev_type e \<noteq> EV_ABS \<and> ev_type e \<noteq> EV_SYN \<and>
     \<not> (ev_type e = EV_KEY \<and> (ev_code e = BTN_TOUCH \<or> ev_code e = BTN_LEFT))"
  by (auto simp: is_wheel_or_key_def input_codes)

lemma handle_new_event_correct:
  assumes inv: "tp_inv s" and idle: "idle s" and raw: "raw_ok s io"
    and ids: "mouse_ids_ok (mouse_of s)" and max: "0 < max_events"
  shows "\<exists>s1. handle_new_event (get_time_stamp (io_time io)) (io_junk io) (io_buf io) s = Some s1 \<and>
     handled max_events s s1
       (mouse_input (scale_of (scaleX s)) (scale_of (scaleY s)) (io_buf io) (mouse_of s))"
proof -
  let ?e = "io_buf io" and ?m = "mouse_of s"
  have q: "queue_ok (touchpanel_event_list s)" using inv by (simp add: tp_inv_def)
  note none = nothing_delivered [OF idle q]
  have gen: "\<exists>s1. generate_mouse_gesture (get_time_stamp (io_time io)) b s' = Some s1 \<and>
      handled max_events s' s1 (mouse_scan (b \<noteq> 0) (mouse_of s'))"
    if "tp_inv s'" "mouse_ids_ok (mouse_of s')" for s' b
    using generate_mouse_gesture_correct [OF that(1) _ _ that(2) max, of "get_time_stamp (io_time io)" b] raw
    by (auto simp: raw_ok_def handled_def get_time_stamp_def)
  consider (x) "ev_type ?e = EV_ABS" "ev_code ?e = ABS_X"
    | (y) "ev_type ?e = EV_ABS" "ev_code ?e = ABS_Y"
    | (button) "ev_type ?e = EV_KEY" "ev_code ?e = BTN_TOUCH \<or> ev_code ?e = BTN_LEFT"
    | (syn) "ev_type ?e = EV_SYN"
    | (forward) "is_wheel_or_key ?e"
    | (other) "\<not> (ev_type ?e = EV_ABS \<and> (ev_code ?e = ABS_X \<or> ev_code ?e = ABS_Y))"
        "\<not> (ev_type ?e = EV_KEY \<and> (ev_code ?e = BTN_TOUCH \<or> ev_code ?e = BTN_LEFT))"
        "ev_type ?e \<noteq> EV_SYN" "\<not> is_wheel_or_key ?e"
    by blast
  then show ?thesis
  proof cases
    case x
    then obtain v where v: "scaled (ev_value ?e) (scaleX s) = Some v" "panel_coord v"
      using raw by (auto simp: raw_ok_def)
    with x inv none show ?thesis
      by (auto simp: handle_new_event_def handled_def mouse_input_def mouse_of_def scale_of_def
          tp_inv_def dest: wheel_or_key_cases)
  next
    case y
    then obtain v where v: "scaled (ev_value ?e) (scaleY s) = Some v" "panel_coord v"
      using raw by (auto simp: raw_ok_def)
    moreover have "ABS_Y \<noteq> ABS_X" by (simp add: input_codes)
    ultimately show ?thesis using y inv none
      by (auto simp: handle_new_event_def handled_def mouse_input_def mouse_of_def scale_of_def
          tp_inv_def dest: wheel_or_key_cases)
  next
    case button
    have ne: "EV_KEY \<noteq> EV_ABS" by (simp add: input_codes)
    have nw: "\<not> is_wheel_or_key ?e" using button wheel_or_key_cases by blast
    let ?s = "s\<lparr>touchButtonState := ev_value ?e\<rparr>"
    have s': "tp_inv ?s" "mouse_of ?s = ?m\<lparr>m_button := ev_value ?e\<rparr>" "mouse_ids_ok (mouse_of ?s)"
      using inv raw ids by (simp_all add: tp_inv_def raw_ok_def mouse_of_def mouse_ids_ok_def)
    show ?thesis
    proof (cases "ev_value ?e = 0")
      case True
      from gen [OF s'(1,3), of 1] obtain s1 where
        "generate_mouse_gesture (get_time_stamp (io_time io)) 1 ?s = Some s1"
        "handled max_events ?s s1 (mouse_scan True (mouse_of ?s))" by auto
      with True button nw ne s'(2) show ?thesis
        by (auto simp: handle_new_event_def mouse_input_def handled_def Let_def)
    next
      case False
      with button nw ne s' none show ?thesis
        by (auto simp: handle_new_event_def mouse_input_def handled_def Let_def)
    qed
  next
    case syn
    have ne: "EV_SYN \<noteq> EV_ABS" "EV_SYN \<noteq> EV_KEY" by (simp_all add: input_codes)
    have nw: "\<not> is_wheel_or_key ?e" using syn wheel_or_key_cases by blast
    have "touchButtonState s = m_button ?m" by (simp add: mouse_of_def)
    with gen [OF inv ids, of "touchButtonState s"] syn nw ne show ?thesis
      by (auto simp: handle_new_event_def mouse_input_def)
  next
    case forward
    note no = wheel_or_key_cases [OF forward]
    obtain s1 where s1: "forward_event (io_junk io) ?e s = Some s1"
      "s1 = s\<lparr>touchpanel_event_list := touchpanel_event_list s1\<rparr>"
      "queue_ok (touchpanel_event_list s1)"
      "queue_delivers max_events (touchpanel_event_list s1) [[]]"
      using forwarded_delivers [OF idle q forward, of "io_junk io" max_events] raw
      by (auto simp: raw_ok_def)
    have "tp_inv s1" "mouse_of s1 = ?m" "scaleX s1 = scaleX s" "scaleY s1 = scaleY s"
      using s1(3) inv by (subst s1(2), simp add: tp_inv_def mouse_of_def)+
    with s1 no forward show ?thesis
      by (auto simp: handle_new_event_def mouse_input_def handled_def)
  next
    case other
    then show ?thesis using inv none
      by (auto simp: handle_new_event_def mouse_input_def handled_def)
  qed
qed

section \<open>One raw event and all its touch events\<close>

lemma rest_state_inv: "tp_inv s1 \<Longrightarrow> rest_state s1 s' \<Longrightarrow> tp_inv s' \<and> mouse_of s' = mouse_of s1"
  by (simp add: tp_inv_def rest_state_def mouse_of_def)

lemma feed_refines:
  assumes "tp_inv s" "idle s" "raw_ok s io" "mouse_ids_ok (mouse_of s)" "0 < max_events"
  defines "r \<equiv> mouse_input (scale_of (scaleX s)) (scale_of (scaleY s)) (io_buf io) (mouse_of s)"
  shows "\<exists>es s'. feed max_events io s = Some (es, s') \<and> tp_inv s' \<and> idle s' \<and>
     mouse_of s' = fst r \<and> map (map item_report) es = map (map report_view) (snd r) \<and>
     scaleX s' = scaleX s \<and> scaleY s' = scaleY s"
proof -
  obtain s1 where s1: "handle_new_event (get_time_stamp (io_time io)) (io_junk io) (io_buf io) s = Some s1"
    "handled max_events s s1 r"
    using handle_new_event_correct [OF assms(1-5)] unfolding r_def by blast
  have read: "read_input_event io s = Some (0, s1)"
    using assms(3) s1(1) by (simp add: read_input_event_def raw_ok_def)
  have h: "tp_inv s1" "mouse_of s1 = fst r" "scaleX s1 = scaleX s" "scaleY s1 = scaleY s"
    "queue_delivers max_events (touchpanel_event_list s1) (map (map report_view) (snd r))"
    using s1(2) by (simp_all add: handled_def)
  have "queue_ok (touchpanel_event_list s1)" using h(1) by (simp add: tp_inv_def)
  from feed_delivers [OF assms(2) read this h(5)] obtain es s' where
    "feed max_events io s = Some (es, s')" "map (map item_report) es = map (map report_view) (snd r)"
    "rest_state s1 s'"
    by blast
  with h rest_state_inv [OF h(1)] show ?thesis by (auto simp: rest_state_def)
qed

fun feed_all :: "nat \<Rightarrow> input_io list \<Rightarrow> touchpanel \<Rightarrow> (touch_event list \<times> touchpanel) option" where
  "feed_all max_events [] s = Some ([], s)"
| "feed_all max_events (io # ios) s = do {
     (es, s1) \<leftarrow> feed max_events io s;
     (es', s2) \<leftarrow> feed_all max_events ios s1;
     Some (es @ es', s2) }"

fun mouse_inputs ::
  "(int \<Rightarrow> int) \<Rightarrow> (int \<Rightarrow> int) \<Rightarrow> input_event list \<Rightarrow> mouse \<Rightarrow> mouse \<times> report list list" where
  "mouse_inputs sx sy [] m = (m, [])"
| "mouse_inputs sx sy (e # es) m =
     (let (m1, r1) = mouse_input sx sy e m; (m2, r2) = mouse_inputs sx sy es m1 in (m2, r1 @ r2))"

text \<open>Ids grow by one per press, so after \<open>k\<close> events they are still small.\<close>

definition ids_below :: "int \<Rightarrow> mouse \<Rightarrow> bool" where
  "ids_below k m \<longleftrightarrow> 0 \<le> k \<and> k \<le> 2147000 \<and> uint (m_next m) \<le> k \<and>
     (\<forall>i x y. m_pointer m = Some (i, x, y) \<longrightarrow> uint i \<le> k)"

lemma ids_below_ok: "ids_below k m \<Longrightarrow> mouse_ids_ok m"
  by (force simp: ids_below_def mouse_ids_ok_def id_ok_def)

lemma uint_succ_le: "uint (i :: u32) \<le> k \<Longrightarrow> uint (i + 1) \<le> k + 1"
  using uint_add_le [of i 1] by simp

lemma mouse_scan_ids:
  assumes "ids_below k m" "k < 2147000"
  shows "ids_below (k + 1) (fst (mouse_scan b m))"
  using assms uint_succ_le [of "m_next m" k]
  by (cases "(b, m_x m, m_y m, m_next m, m_pointer m)" rule: pointer_step.cases)
    (auto simp: ids_below_def mouse_scan_def)

lemma mouse_input_ids:
  assumes "ids_below k m" "k < 2147000"
  shows "ids_below (k + 1) (fst (mouse_input sx sy e m))"
proof -
  have mono: "ids_below (k + 1) m" using assms by (force simp: ids_below_def)
  have upd: "ids_below j (m\<lparr>m_x := a\<rparr>) = ids_below j m" "ids_below j (m\<lparr>m_y := a\<rparr>) = ids_below j m"
    "ids_below j (m\<lparr>m_button := a\<rparr>) = ids_below j m" for j a
    by (simp_all add: ids_below_def)
  show ?thesis
    using assms mono mouse_scan_ids by (simp add: mouse_input_def Let_def upd)
qed

lemma feed_all_refines:
  assumes "tp_inv s" "idle s" "\<forall>io \<in> set ios. raw_ok s io" "0 < max_events"
    and "ids_below k (mouse_of s)" "k + int (length ios) \<le> 2147000"
  defines "r \<equiv> mouse_inputs (scale_of (scaleX s)) (scale_of (scaleY s)) (map io_buf ios) (mouse_of s)"
  shows "\<exists>es s'. feed_all max_events ios s = Some (es, s') \<and> tp_inv s' \<and> idle s' \<and>
     mouse_of s' = fst r \<and> map (map item_report) es = map (map report_view) (snd r)"
  using assms(1-6) unfolding r_def
proof (induction ios arbitrary: s k)
  case Nil
  then show ?case by simp
next
  case (Cons io ios)
  let ?sx = "scale_of (scaleX s)" and ?sy = "scale_of (scaleY s)"
  let ?r = "mouse_input ?sx ?sy (io_buf io) (mouse_of s)"
  obtain es1 s1 where f: "feed max_events io s = Some (es1, s1)" "tp_inv s1" "idle s1"
    "mouse_of s1 = fst ?r" "map (map item_report) es1 = map (map report_view) (snd ?r)"
    "scaleX s1 = scaleX s" "scaleY s1 = scaleY s"
    using feed_refines [OF Cons.prems(1,2) _ ids_below_ok [OF Cons.prems(5)] Cons.prems(4), of io]
      Cons.prems(3) by auto
  have raw: "\<forall>io \<in> set ios. raw_ok s1 io"
    using Cons.prems(3) f(6,7) by (simp add: raw_ok_def)
  have ids: "ids_below (k + 1) (mouse_of s1)"
    using mouse_input_ids [OF Cons.prems(5)] Cons.prems(6) by (simp add: f(4))
  obtain es2 s2 where "feed_all max_events ios s1 = Some (es2, s2)" "tp_inv s2" "idle s2"
    "mouse_of s2 = fst (mouse_inputs ?sx ?sy (map io_buf ios) (fst ?r))"
    "map (map item_report) es2 = map (map report_view) (snd (mouse_inputs ?sx ?sy (map io_buf ios) (fst ?r)))"
    using Cons.IH [OF f(2,3) raw Cons.prems(4) ids] Cons.prems(6) f(4,6,7) by auto
  with f show ?case by (simp add: case_prod_beta)
qed

section \<open>Opening\<close>

text \<open>A successful init: two finger structures with room for six coordinates each.\<close>

definition open_ok :: "touchpanel_io \<Rightarrow> bool" where
  "open_ok io \<longleftrightarrow> 0 \<le> open_fd io \<and> 0 \<le> absX_ret io \<and> 0 \<le> absY_ret io \<and>
     (\<forall>i < 2. \<exists>f a. finger_mem io i = Some f \<and> coord_mem io i = Some a \<and> length a = 6)"

lemma init_mouse_gsm:
  assumes "open_ok io"
  shows "\<exists>g. init_gesture_state_machine (finger_mem io) (coord_mem io) sGeneralSettings 1 gsm_start = Some g \<and>
     mouse_gsm g \<and> sFingers g = [] \<and> curFingerId g = 0"
proof -
  have mem: "\<forall>i < nat (2 * 1). \<exists>f a. finger_mem io i = Some f \<and> coord_mem io i = Some a \<and>
             int (length a) = coordBufSize sGeneralSettings"
    using assms by (fastforce simp: open_ok_def sGeneralSettings_def)
  from init_gesture_state_machine_correct [OF mem, of gsm_start] obtain g where
    g: "init_gesture_state_machine (finger_mem io) (coord_mem io) sGeneralSettings 1 gsm_start = Some g"
    "gsm_inv g" "spGeneralSettings g = Some sGeneralSettings" "finger_count g = 2" "sFingers g = []"
    by (auto simp: gsm_start_def sGeneralSettings_def)
  moreover have "curFingerId g = 0"
    using g(1) by (auto simp: init_gesture_state_machine_def gsm_start_def elim!: bind_eq_SomeE)
  ultimately show ?thesis by (simp add: mouse_gsm_def)
qed

lemma touchpanel_start_idle: "queue_ok (touchpanel_event_list touchpanel_start)" "idle touchpanel_start"
  by (simp_all add: touchpanel_start_def queue_ok_def idle_def zero_event_def time_ok_def)

lemma touchpanel_open_correct:
  assumes "open_ok io" "mem \<noteq> NULL" "0 \<le> fb_fd io" "0 \<le> fb_ret io"
  shows "\<exists>s. touchpanel_module_open mem io d0 touchpanel_start = Some (NYX_ERROR_NONE, mem, s) \<and>
     tp_inv s \<and> idle s \<and> mouse_of s = \<lparr>m_x = 0, m_y = 0, m_button = 0, m_pointer = None, m_next = 0\<rparr> \<and>
     scaleX s = f32_div (f32 (of_int (fst (fb_res io)))) (f32 (of_int (absX_maximum io))) \<and>
     scaleY s = f32_div (f32 (of_int (snd (fb_res io)))) (f32 (of_int (absY_maximum io)))"
proof -
  obtain g where g: "init_gesture_state_machine (finger_mem io) (coord_mem io) sGeneralSettings 1 gsm_start = Some g"
    "mouse_gsm g" "sFingers g = []" "curFingerId g = 0"
    using init_mouse_gsm [OF assms(1)] by blast
  let ?s = "touchpanel_start\<lparr>current_event_ptr := None, touchpanel_event_fd := open_fd io, tp_gsm := g,
    scaleX := f32_div (f32 (of_int (fst (fb_res io)))) (f32 (of_int (absX_maximum io))),
    scaleY := f32_div (f32 (of_int (snd (fb_res io)))) (f32 (of_int (absY_maximum io)))\<rparr>"
  have "touchpanel_module_open mem io d0 touchpanel_start = Some (NYX_ERROR_NONE, mem, ?s)"
    using assms g(1)
    by (simp add: touchpanel_module_open_def init_touchpanel_def open_ok_def get_display_res_def Let_def
        case_prod_beta touchpanel_start_def)
  moreover have "tp_inv ?s" "idle ?s"
    using g touchpanel_start_idle by (simp_all add: tp_inv_def idle_def panel_coord_def in_i32_def
        INT_MIN_def INT_MAX_def) (simp_all add: touchpanel_start_def)
  moreover have "mouse_of ?s = \<lparr>m_x = 0, m_y = 0, m_button = 0, m_pointer = None, m_next = 0\<rparr>"
    using g by (simp add: mouse_of_def tp_pointer_def touchpanel_start_def)
  ultimately show ?thesis by (intro exI [of _ ?s]) simp
qed

end
