(* ===== verification/Touchpanel_Properties.thy ===== *)
theory Touchpanel_Properties
  imports Touchpanel_Mouse
begin

text \<open>
  The properties of the touchpanel module, with a click on a screen of 320 by 480 as the
  example.
\<close>

section \<open>Touches are well paired\<close>

text \<open>
  Touch items as a client wants them: a DOWN opens a touch, further items carry its finger until
  an UP closes it, and no two touches overlap. The first argument is the open touch.
\<close>

fun touch_ok :: "int option \<Rightarrow> (int \<times> touchpanel_state \<times> int \<times> int) list \<Rightarrow> bool" where
  "touch_ok p [] = True"
| "touch_ok None ((i, st, x, y) # rs) = (st = NYX_TOUCHPANEL_STATE_DOWN \<and> touch_ok (Some i) rs)"
| "touch_ok (Some j) ((i, st, x, y) # rs) =
     (i = j \<and> (st = NYX_TOUCHPANEL_STATE_UNDEFINED \<and> touch_ok (Some j) rs \<or>
               st = NYX_TOUCHPANEL_STATE_UP \<and> touch_ok None rs))"

definition open_touch :: "mouse \<Rightarrow> int option" where
  "open_touch m = map_option (\<lambda>(i, x, y). sint i * 1000) (m_pointer m)"

lemma mouse_scan_touch_ok:
  "touch_ok (open_touch (fst (mouse_scan b m))) rest \<Longrightarrow>
   touch_ok (open_touch m) (concat (map (map report_view) (snd (mouse_scan b m))) @ rest)"
  by (cases "(b, m_x m, m_y m, m_next m, m_pointer m)" rule: pointer_step.cases)
    (auto simp: mouse_scan_def open_touch_def report_view_def split: if_splits)

lemma mouse_input_touch_ok:
  assumes "touch_ok (open_touch (fst (mouse_input sx sy e m))) rest"
  shows "touch_ok (open_touch m) (concat (map (map report_view) (snd (mouse_input sx sy e m))) @ rest)"
proof -
  have upd: "open_touch (m\<lparr>m_x := a\<rparr>) = open_touch m" "open_touch (m\<lparr>m_y := a\<rparr>) = open_touch m"
    "open_touch (m\<lparr>m_button := a\<rparr>) = open_touch m" for a
    by (simp_all add: open_touch_def)
  show ?thesis
    using assms mouse_scan_touch_ok [of True "m\<lparr>m_button := ev_value e\<rparr>" rest]
      mouse_scan_touch_ok [of "m_button m \<noteq> 0" m rest]
    by (auto simp: mouse_input_def upd Let_def split: if_splits)
qed

lemma mouse_inputs_touch_ok:
  "touch_ok (open_touch m) (concat (map (map report_view) (snd (mouse_inputs sx sy es m))))"
proof (induction es arbitrary: m)
  case (Cons e es)
  from mouse_input_touch_ok [OF Cons.IH [of "fst (mouse_input sx sy e m)"]] show ?case
    by (simp add: case_prod_beta)
qed simp

section \<open>An example\<close>

definition click_io :: touchpanel_io where
  "click_io = \<lparr>open_fd = 3, absX_ret = 0, absX_maximum = 320, absY_ret = 0, absY_maximum = 480,
     finger_mem = (\<lambda>_. Some \<lparr>coords = \<lparr>pCoords = None, cb_head = 0, cb_tail = 0, numItems = 0, cb_size = 0\<rparr>,
       f_timestamp = \<lparr>ts_sec = 0, ts_nsec = 0\<rparr>, f_id = 0,
       f_state = \<lparr>gs_state = UNUSED, gs_startX = 0, gs_startY = 0, insideTapRadius = False,
                  startTime = \<lparr>ts_sec = 0, ts_nsec = 0\<rparr>\<rparr>,
       minDist = 0, minDistId = 0, lastWeight = 0, f_numEvents = 0\<rparr>),
     coord_mem = (\<lambda>_. Some (replicate 6 \<lparr>co_x = 0, co_y = 0, co_timeStamp = \<lparr>ts_sec = 0, ts_nsec = 0\<rparr>\<rparr>)),
     fb_fd = 4, fb_ret = 0, fb_res = (320, 480)\<rparr>"

definition click_event :: "u16 \<Rightarrow> u16 \<Rightarrow> int \<Rightarrow> input_io" where
  "click_event ty c v = \<lparr>poll_ret = 1, pollin = True, read_ret = 24, errno_EINTR = False,
     io_buf = \<lparr>ev_sec = 1, ev_usec = 2, ev_type = ty, ev_code = c, ev_value = v\<rparr>,
     io_time = \<lparr>tv_sec = 1, tv_usec = 2\<rparr>, io_junk = zero_event\<rparr>"

definition click :: "input_io list" where
  "click = [click_event EV_ABS ABS_X 10, click_event EV_ABS ABS_Y 20, click_event EV_KEY BTN_LEFT 1,
     click_event EV_SYN 0 0, click_event EV_KEY BTN_LEFT 0, click_event EV_SYN 0 0]"

lemma click_open_ok: "open_ok click_io" "0 \<le> fb_fd click_io" "0 \<le> fb_ret click_io"
  by (simp_all add: click_io_def open_ok_def)

lemma unit_scale: "f32_div (f32 320) (f32 320) = Some 1" "f32_div (f32 480) (f32 480) = Some 1"
  by code_simp+

lemma unit_scaled: "scaled 10 (Some 1) = Some 10" "scaled 20 (Some 1) = Some 20"
  by code_simp+

lemma click_raw_ok:
  assumes "scaleX s = Some 1" "scaleY s = Some 1"
  shows "\<forall>io \<in> set click. raw_ok s io"
  using assms unit_scaled
  by (simp add: click_def click_event_def raw_ok_def time_ok_def zero_event_def in_i32_def
      INT_MIN_def INT_MAX_def panel_coord_def input_codes)

lemma click_reports:
  assumes "scaleX s = Some 1" "scaleY s = Some 1"
  shows "snd (mouse_inputs (scale_of (scaleX s)) (scale_of (scaleY s)) (map io_buf click)
     \<lparr>m_x = 0, m_y = 0, m_button = 0, m_pointer = None, m_next = 0\<rparr>) =
     [[(0, NYX_TOUCHPANEL_STATE_DOWN, 10, 20)], [(0, NYX_TOUCHPANEL_STATE_UNDEFINED, 10, 20)],
      [(0, NYX_TOUCHPANEL_STATE_UP, 10, 20)]]"
  using assms unit_scaled
  by (simp add: click_def click_event_def mouse_input_def mouse_scan_def scale_of_def input_codes)

definition click_state :: touchpanel where
  "click_state = snd (snd (the (touchpanel_module_open 9 click_io 0 touchpanel_start)))"

lemma click_state_ok:
  "tp_inv click_state" "idle click_state"
  "mouse_of click_state = \<lparr>m_x = 0, m_y = 0, m_button = 0, m_pointer = None, m_next = 0\<rparr>"
  "scaleX click_state = Some 1" "scaleY click_state = Some 1"
proof -
  have "(9 :: ptr) \<noteq> NULL" by simp
  from touchpanel_open_correct [OF click_open_ok(1) this click_open_ok(2,3), of 0]
  obtain s where s: "touchpanel_module_open 9 click_io 0 touchpanel_start = Some (NYX_ERROR_NONE, 9, s)"
    "tp_inv s" "idle s" "mouse_of s = \<lparr>m_x = 0, m_y = 0, m_button = 0, m_pointer = None, m_next = 0\<rparr>"
    "scaleX s = f32_div (f32 (of_int (fst (fb_res click_io)))) (f32 (of_int (absX_maximum click_io)))"
    "scaleY s = f32_div (f32 (of_int (snd (fb_res click_io)))) (f32 (of_int (absY_maximum click_io)))"
    by blast
  have "click_state = s" by (simp add: click_state_def s(1))
  with s unit_scale show "tp_inv click_state" "idle click_state"
    "mouse_of click_state = \<lparr>m_x = 0, m_y = 0, m_button = 0, m_pointer = None, m_next = 0\<rparr>"
    "scaleX click_state = Some 1" "scaleY click_state = Some 1"
    by (simp_all add: click_io_def)
qed

section \<open>The properties\<close>

text \<open>
  C9: The whole pipeline from raw mouse events to touch events (\<open>handle_new_event\<close>, the finger
  tracker, the event queue and \<open>touchpanel_get_event\<close>) refines the abstract mouse: for any
  sequence of raw events with coordinates on the panel it is defined, and calling
  \<open>touchpanel_get_event\<close> yields, raw event by raw event, exactly the reports of the mouse; the
  module's state then again stands for the mouse's. The bound says that finger ids stay small
  enough to be multiplied by 1000.
\<close>

theorem touchpanel_refines_mouse:
  assumes "tp_inv s" "idle s" "\<forall>io \<in> set ios. raw_ok s io" "0 < max_events"
    and "ids_below k (mouse_of s)" "k + int (length ios) \<le> 2147000"
  shows "\<exists>es s'. feed_all max_events ios s = Some (es, s') \<and> tp_inv s' \<and> idle s' \<and>
     (mouse_of s', map (map item_report) es) =
       apsnd (map (map report_view))
         (mouse_inputs (scale_of (scaleX s)) (scale_of (scaleY s)) (map io_buf ios) (mouse_of s))"
  using feed_all_refines [OF assms] by (simp add: prod_eq_iff)

theorem touchpanel_refines_mouse_witness:
  "\<exists>es s'. feed_all 10 click click_state = Some (es, s') \<and>
     map (map item_report) es =
       [[(0, NYX_TOUCHPANEL_STATE_DOWN, 10, 20)], [(0, NYX_TOUCHPANEL_STATE_UNDEFINED, 10, 20)],
        [(0, NYX_TOUCHPANEL_STATE_UP, 10, 20)]]"
proof -
  have "ids_below 0 (mouse_of click_state)" "0 + int (length click) \<le> 2147000"
    by (simp_all add: ids_below_def click_state_ok click_def)
  with touchpanel_refines_mouse [OF click_state_ok(1,2) click_raw_ok [OF click_state_ok(4,5)], of 10 0]
  show ?thesis
    using click_reports [OF click_state_ok(4,5)]
    by (auto simp: prod_eq_iff click_state_ok(3) report_view_def)
qed

text \<open>
  C10: Whatever raw events arrive after opening, the touch items a client gets are well paired:
  a touch starts with DOWN, all its items carry the same finger number, it ends with UP, and
  the next one starts only after that.
\<close>

theorem touchpanel_touches_paired:
  assumes "tp_inv s" "idle s" "\<forall>io \<in> set ios. raw_ok s io" "0 < max_events"
    and "ids_below k (mouse_of s)" "k + int (length ios) \<le> 2147000" "sFingers (tp_gsm s) = []"
  shows "\<exists>es s'. feed_all max_events ios s = Some (es, s') \<and>
     touch_ok None (concat (map (map item_report) es))"
proof -
  have "open_touch (mouse_of s) = None"
    using assms(7) by (simp add: open_touch_def mouse_of_def tp_pointer_def)
  with mouse_inputs_touch_ok [of "mouse_of s" "scale_of (scaleX s)" "scale_of (scaleY s)" "map io_buf ios"]
    feed_all_refines [OF assms(1-6)]
  show ?thesis by auto
qed

theorem touchpanel_touches_paired_witness:
  "\<exists>es s'. feed_all 10 click click_state = Some (es, s') \<and>
     touch_ok None (concat (map (map item_report) es))"
proof -
  have ids: "ids_below 0 (mouse_of click_state)" "0 + int (length click) \<le> 2147000"
    by (simp_all add: ids_below_def click_state_ok click_def)
  have "tp_pointer (tp_gsm click_state) = None"
    using click_state_ok(3) by (simp add: mouse_of_def)
  then have "sFingers (tp_gsm click_state) = []"
    by (simp add: tp_pointer_def split: list.splits)
  with ids touchpanel_touches_paired [OF click_state_ok(1,2) click_raw_ok [OF click_state_ok(4,5)], of 10 0]
  show ?thesis by simp
qed

text \<open>
  Opening: when open, the two ioctls of the panel and the display succeed and the finger
  structures get their memory, the module is ready: no finger is down, nothing is queued, and
  the scales are the display resolution divided by the panel's maxima.
\<close>

theorem touchpanel_open_ready:
  assumes "open_ok io" "mem \<noteq> NULL" "0 \<le> fb_fd io" "0 \<le> fb_ret io"
  shows "\<exists>s. touchpanel_module_open mem io d0 touchpanel_start = Some (NYX_ERROR_NONE, mem, s) \<and>
     tp_inv s \<and> idle s \<and> sFingers (tp_gsm s) = [] \<and> ids_below 0 (mouse_of s) \<and>
     scaleX s = f32_div (f32 (of_int (fst (fb_res io)))) (f32 (of_int (absX_maximum io))) \<and>
     scaleY s = f32_div (f32 (of_int (snd (fb_res io)))) (f32 (of_int (absY_maximum io)))"
proof -
  obtain s where s: "touchpanel_module_open mem io d0 touchpanel_start = Some (NYX_ERROR_NONE, mem, s)"
    "tp_inv s" "idle s" "mouse_of s = \<lparr>m_x = 0, m_y = 0, m_button = 0, m_pointer = None, m_next = 0\<rparr>"
    "scaleX s = f32_div (f32 (of_int (fst (fb_res io)))) (f32 (of_int (absX_maximum io)))"
    "scaleY s = f32_div (f32 (of_int (snd (fb_res io)))) (f32 (of_int (absY_maximum io)))"
    using touchpanel_open_correct [OF assms, of d0] by blast
  have "tp_pointer (tp_gsm s) = None" using s(4) by (simp add: mouse_of_def)
  then have "sFingers (tp_gsm s) = []" by (simp add: tp_pointer_def split: list.splits)
  moreover have "ids_below 0 (mouse_of s)" by (simp add: s(4) ids_below_def)
  ultimately show ?thesis using s by blast
qed

theorem touchpanel_open_ready_witness:
  "\<exists>s. touchpanel_module_open 9 click_io 0 touchpanel_start = Some (NYX_ERROR_NONE, 9, s) \<and>
     tp_inv s \<and> scaleX s = Some 1"
proof -
  have "(9 :: ptr) \<noteq> NULL" by simp
  from touchpanel_open_ready [OF click_open_ok(1) this click_open_ok(2,3), of 0] unit_scale
  show ?thesis by (auto simp: click_io_def)
qed

text \<open>
  When the display cannot be opened, or its ioctl fails, the error is lost: the variable
  that \<open>init_touchpanel\<close> returns still holds the (successful) result of the ioctl before, so
  opening reports success although the event device has been closed again; the scales were
  never set, so every coordinate is scaled to 0.
\<close>

theorem touchpanel_open_without_display:
  assumes "open_ok io" "mem \<noteq> NULL" "fb_fd io < 0 \<or> fb_ret io < 0"
  shows "\<exists>s. touchpanel_module_open mem io d0 touchpanel_start = Some (NYX_ERROR_NONE, mem, s) \<and>
     scaleX s = Some 0 \<and> scaleY s = Some 0 \<and>
     (\<forall>v r. f32 (of_int v) = Some r \<longrightarrow> scaled v (scaleX s) = Some 0 \<and> scaled v (scaleY s) = Some 0)"
proof -
  have zero: "f32 0 = Some 0" by (simp add: f32_def fl_round_def pow2_def)
  have "\<exists>g. init_gesture_state_machine (finger_mem io) (coord_mem io) sGeneralSettings 1 gsm_start = Some g"
    using init_mouse_gsm [OF assms(1)] by blast
  then show ?thesis
    using assms zero
    by (auto simp: touchpanel_module_open_def init_touchpanel_def open_ok_def get_display_res_def
        Let_def touchpanel_start_def scaled_def f32_mul_def f32_to_int_def rat_trunc_def i32_def
        in_i32_def INT_MIN_def INT_MAX_def)
qed

theorem touchpanel_open_without_display_witness:
  "\<exists>s. touchpanel_module_open 9 (click_io\<lparr>fb_fd := -1\<rparr>) 0 touchpanel_start = Some (NYX_ERROR_NONE, 9, s) \<and>
     scaleX s = Some 0"
proof -
  have "open_ok (click_io\<lparr>fb_fd := -1\<rparr>)" "(9 :: ptr) \<noteq> NULL" "fb_fd (click_io\<lparr>fb_fd := -1\<rparr>) < 0"
    using click_open_ok(1) by (simp_all add: open_ok_def)
  with touchpanel_open_without_display [of "click_io\<lparr>fb_fd := -1\<rparr>" 9 0] show ?thesis by blast
qed

text \<open>
  Finger numbers overflow: the item's number is the id times 1000 in an int, so the first
  event of a touch whose id is 2147484 or more (the ids count the touches since start) has
  undefined behaviour; below that the number is the id times 1000.
\<close>

theorem touchpanel_finger_number:
  assumes "payload e = (EV_FINGERID, 0, v)" "0 \<le> v" "time_ok e" "0 < max_events"
  shows "(2147484 \<le> v \<longrightarrow> consume_event max_events mem2 e (Some []) = None) \<and>
     (v < 2147484 \<longrightarrow> (\<exists>t. consume_event max_events mem2 e (Some []) = Some (Some [t], None) \<and>
        ti_finger t = v * 1000 \<and> ti_state t = NYX_TOUCHPANEL_STATE_UNDEFINED))"
proof -
  obtain ts where "get_ts_tval e = Some ts" using get_ts_tval_ok [OF assms(3)] by blast
  then show ?thesis
    using assms
    by (auto simp: consume_event_def touch_event_get_next_item_def touch_event_set_current_item_def
        payload_def touch_item_reset_def i32_def in_i32_def INT_MIN_def INT_MAX_def)
qed

theorem touchpanel_finger_number_witness:
  "consume_event 10 True (zero_event\<lparr>ev_type := EV_FINGERID, ev_value := 2147484\<rparr>) (Some []) = None"
  using touchpanel_finger_number [of "zero_event\<lparr>ev_type := EV_FINGERID, ev_value := 2147484\<rparr>" 2147484 10 True]
  by (simp add: payload_def zero_event_def time_ok_def)

end
