(* ===== verification/Float_Error.thy ===== *)
theory Float_Error
  imports C_Float
begin

text \<open>
  The relative error of rounding to a float: at most 2^-24 for numbers between 2^-100 and 2^100.
\<close>

section \<open>Powers of two and exponents\<close>

lemma pow2_pos [simp]: "0 < pow2 k"
  by (simp add: pow2_def)

lemma pow2_neq_0 [simp]: "pow2 k \<noteq> 0"
  using pow2_pos [of k] by linarith

lemma pow2_powi: "pow2 k = 2 powi k"
  by (simp add: pow2_def power_int_def power_inverse inverse_eq_divide power_one_over)

lemma pow2_add: "pow2 (a + b) = pow2 a * pow2 b"
  by (simp add: pow2_powi power_int_add)

lemma pow2_mono: "a \<le> b \<Longrightarrow> pow2 a \<le> pow2 b"
  by (simp add: pow2_powi power_int_increasing)

lemma pow2_less: "pow2 a < pow2 b \<Longrightarrow> a < b"
  using pow2_mono [of b a] by (meson not_le)

lemma bit_length_nonneg: "0 \<le> bit_length n"
  by (induction n rule: bit_length.induct) (simp add: bit_length.simps)

lemma bit_length_bounds: "0 < n \<Longrightarrow> 2 ^ nat (bit_length n - 1) \<le> n \<and> n < 2 ^ nat (bit_length n)"
proof (induction n rule: bit_length.induct)
  case (1 n)
  note b = bit_length.simps [of n]
  show ?case
  proof (cases "n = 1")
    case True
    then show ?thesis by (simp add: bit_length.simps)
  next
    case False
    with "1.prems" have h: "0 < n div 2" by simp
    with 1 have IH: "2 ^ nat (bit_length (n div 2) - 1) \<le> n div 2" "n div 2 < 2 ^ nat (bit_length (n div 2))"
      by auto
    have pos: "0 < bit_length (n div 2)"
      using h bit_length_nonneg [of "n div 2 div 2"] by (simp add: bit_length.simps [of "n div 2"])
    then have "nat (bit_length (n div 2)) = Suc (nat (bit_length (n div 2) - 1))" by simp
    with IH(1) have "2 ^ nat (bit_length (n div 2)) \<le> n" by simp
    moreover from IH(2) have "n < 2 * 2 ^ nat (bit_length (n div 2))" by linarith
    ultimately show ?thesis
      using "1.prems" pos by (simp add: b nat_add_distrib)
  qed
qed

lemma exponent_of_bounds:
  assumes "0 < q"
  shows "pow2 (exponent_of q) \<le> q" and "q < pow2 (exponent_of q + 1)"
proof -
  obtain n d where nd: "quotient_of q = (n, d)" by fastforce
  have d: "0 < d" and q: "q = of_int n / of_int d"
    using quotient_of_denom_pos [OF nd] quotient_of_div [OF nd] by simp_all
  with assms have n: "0 < n" by (simp add: zero_less_divide_iff)
  let ?e = "bit_length n - bit_length d"
  have p: "pow2 (bit_length k) = of_int (2 ^ nat (bit_length k))" for k
    using bit_length_nonneg [of k] by (simp add: pow2_def)
  have l: "pow2 (bit_length k - 1) \<le> of_int k" "of_int k < pow2 (bit_length k)" if "0 < k" for k
  proof -
    have "0 < bit_length k"
      using that bit_length_nonneg [of "k div 2"] by (simp add: bit_length.simps [of k])
    then have "pow2 (bit_length k - 1) = of_int (2 ^ nat (bit_length k - 1))" by (simp add: pow2_def)
    then show "pow2 (bit_length k - 1) \<le> of_int k" "of_int k < pow2 (bit_length k)"
      using bit_length_bounds [OF that] unfolding p by (simp_all only: of_int_le_iff of_int_less_iff)
  qed
  have "pow2 (?e - 1) * of_int d \<le> pow2 (?e - 1) * pow2 (bit_length d)"
    using l(2) [OF d] by (intro mult_left_mono) (simp_all add: less_imp_le)
  also have "\<dots> = pow2 (bit_length n - 1)" by (simp flip: pow2_add)
  also have "\<dots> \<le> of_int n" by (rule l(1) [OF n])
  finally have lo: "pow2 (?e - 1) \<le> q" using d by (simp add: q pos_le_divide_eq)
  have "of_int n < pow2 (bit_length n)" by (rule l(2) [OF n])
  also have "pow2 (bit_length n) = pow2 (?e + 1) * pow2 (bit_length d - 1)" by (simp flip: pow2_add)
  also have "\<dots> \<le> pow2 (?e + 1) * of_int d"
    using l(1) [OF d] by (intro mult_left_mono) (simp_all add: less_imp_le)
  finally have hi: "q < pow2 (?e + 1)" using d by (simp add: q pos_divide_less_eq)
  have e: "exponent_of q = (if pow2 ?e \<le> q then ?e else ?e - 1)"
    by (simp add: exponent_of_def nd)
  show "pow2 (exponent_of q) \<le> q" "q < pow2 (exponent_of q + 1)"
    using lo hi by (auto simp: e)
qed

section \<open>Rounding\<close>

lemma f32_relative:
  assumes "pow2 (-100) \<le> q" and "q \<le> pow2 100"
  shows "\<exists>r. f32 q = Some r \<and> \<bar>r - q\<bar> \<le> q / 16777216"
proof -
  have q: "0 < q" using assms(1) pow2_pos [of "-100"] by linarith
  note e = exponent_of_bounds [OF q]
  have "pow2 (-100) < pow2 (exponent_of q + 1)" using assms(1) e(2) by linarith
  then have emin: "-126 \<le> exponent_of q" by (auto dest: pow2_less)
  let ?u = "pow2 (exponent_of q - 23)"
  let ?r = "of_int (rint_even (q / ?u)) * ?u"
  have r: "fl_round 24 (-126) q = ?r"
    using q emin by (simp add: fl_round_def Let_def max_def)
  have "\<bar>of_int (rint_even (q / ?u)) - q / ?u\<bar> * ?u \<le> 1 / 2 * ?u"
    by (intro mult_right_mono rint_even_near) (simp add: less_imp_le)
  moreover have "?r - q = (of_int (rint_even (q / ?u)) - q / ?u) * ?u"
    by (simp add: left_diff_distrib)
  then have "\<bar>?r - q\<bar> = \<bar>of_int (rint_even (q / ?u)) - q / ?u\<bar> * ?u"
    using pow2_pos [of "exponent_of q - 23"] by (simp only: abs_mult abs_of_pos)
  moreover have "?u * 8388608 = pow2 (exponent_of q)"
    by (simp add: pow2_add [of "exponent_of q" "-23", simplified] pow2_def [of "-23"])
  ultimately have err: "\<bar>?r - q\<bar> \<le> q / 16777216" using e(1) by linarith
  moreover have "\<bar>?r\<bar> < pow2 128"
  proof -
    have "\<bar>?r\<bar> \<le> 2 * q" using err q by linarith
    also have "\<dots> \<le> 2 * pow2 100" using assms(2) by simp
    also have "\<dots> < pow2 128" by (simp add: pow2_def)
    finally show ?thesis .
  qed
  ultimately show ?thesis by (simp add: f32_def r)
qed

text \<open>Relative errors as factors, and what operations do to them.\<close>

definition near :: "rat \<Rightarrow> rat \<Rightarrow> rat \<Rightarrow> bool" where
  "near c r q \<longleftrightarrow> 0 < q \<and> (1 - c) * q \<le> r \<and> r \<le> (1 + c) * q"

lemma f32_near:
  assumes "pow2 (-100) \<le> q" and "q \<le> pow2 100"
  obtains r where "f32 q = Some r" and "near (1 / 16777216) r q"
proof -
  obtain r where r: "f32 q = Some r" "\<bar>r - q\<bar> \<le> q / 16777216" using f32_relative [OF assms] by blast
  moreover have "0 < q" using assms(1) pow2_pos [of "-100"] by linarith
  moreover from r(2) have "r - q \<le> q / 16777216" "q - r \<le> q / 16777216" by linarith+
  ultimately have "near (1 / 16777216) r q" by (simp add: near_def left_diff_distrib distrib_right)
  with that r(1) show ?thesis .
qed

lemma near_weaken: "near c r q \<Longrightarrow> c \<le> d \<Longrightarrow> near d r q"
proof -
  assume n: "near c r q" and d: "c \<le> d"
  then have "(1 - d) * q \<le> (1 - c) * q" "(1 + c) * q \<le> (1 + d) * q"
    by (auto simp: near_def intro!: mult_right_mono)
  then show "near d r q" using n unfolding near_def by linarith
qed

lemma near_trans:
  assumes "near a r q" and "near b q p" and "0 \<le> a" "a < 1" "0 \<le> b" "b < 1"
  shows "near (a + b + a * b) r p"
proof -
  have 1: "(1 - b) * p \<le> q" "q \<le> (1 + b) * p" "0 < p" using assms(2) by (simp_all add: near_def)
  have 2: "(1 - a) * q \<le> r" "r \<le> (1 + a) * q" using assms(1) by (simp_all add: near_def)
  have "(1 - a) * ((1 - b) * p) \<le> (1 - a) * q" using 1 assms by (intro mult_left_mono) auto
  moreover have "(1 + a) * q \<le> (1 + a) * ((1 + b) * p)" using 1 assms by (intro mult_left_mono) auto
  moreover have "0 \<le> 2 * (a * b) * p" using assms 1 by simp
  ultimately show ?thesis using 1 2 by (simp add: near_def algebra_simps)
qed

lemma near_mult:
  assumes "near a r q" and "near b r' q'" and "0 \<le> a" "a < 1" "0 \<le> b" "b < 1"
  shows "near (a + b + a * b) (r * r') (q * q')"
proof -
  have 1: "(1 - a) * q \<le> r" "r \<le> (1 + a) * q" "0 < q" "(1 - b) * q' \<le> r'" "r' \<le> (1 + b) * q'" "0 < q'"
    using assms(1,2) by (simp_all add: near_def)
  have pos: "0 \<le> (1 - a) * q" "0 \<le> (1 - b) * q'" using 1 assms by simp_all
  have lo: "((1 - a) * q) * ((1 - b) * q') \<le> r * r'" using 1 pos by (intro mult_mono) auto
  have hi: "r * r' \<le> ((1 + a) * q) * ((1 + b) * q')" using 1 pos by (intro mult_mono) auto
  have "0 \<le> 2 * (a * b) * (q * q')" using assms 1 by simp
  with lo hi 1 show ?thesis by (simp add: near_def algebra_simps)
qed

lemma near_inverse:
  assumes "near a r q" and "0 \<le> a" "a \<le> 1 / 2"
  shows "near (a + 2 * a * a) (1 / r) (1 / q)"
proof -
  have 1: "(1 - a) * q \<le> r" "r \<le> (1 + a) * q" "0 < q" using assms(1) by (simp_all add: near_def)
  have pos: "0 < (1 - a) * q" using 1 assms by simp
  then have r: "0 < r" using 1 by linarith
  have "1 / r \<le> 1 / ((1 - a) * q)" using 1 pos r by (intro divide_left_mono) auto
  also have "\<dots> \<le> (1 + (a + 2 * a * a)) * (1 / q)"
  proof -
    have "1 \<le> (1 + (a + 2 * a * a)) * (1 - a)"
    proof -
      have "(1 + (a + 2 * a * a)) * (1 - a) = 1 + a * a * (1 - 2 * a)" by (simp add: algebra_simps)
      moreover have "0 \<le> a * a * (1 - 2 * a)" using assms by simp
      ultimately show ?thesis by linarith
    qed
    then have "1 / (1 - a) \<le> 1 + (a + 2 * a * a)" using assms by (simp add: pos_divide_le_eq)
    then have "1 / (1 - a) * (1 / q) \<le> (1 + (a + 2 * a * a)) * (1 / q)"
      using 1 by (intro mult_right_mono) auto
    then show ?thesis by simp
  qed
  finally have hi: "1 / r \<le> (1 + (a + 2 * a * a)) * (1 / q)" .
  have "(1 - (a + 2 * a * a)) * (1 / q) \<le> (1 - a) / q"
    using 1 assms by (simp add: divide_right_mono)
  also have "\<dots> \<le> 1 / ((1 + a) * q)"
  proof -
    have "(1 - a) * (1 + a) \<le> 1" by (simp add: algebra_simps)
    then show ?thesis using 1 assms by (simp add: field_simps)
  qed
  also have "\<dots> \<le> 1 / r" using 1 r assms by (intro divide_left_mono) auto
  finally show ?thesis using hi 1 by (simp add: near_def)
qed

lemma near_range:
  assumes "near c r q" and "c \<le> 1 / 2"
  shows "q / 2 \<le> r" and "r \<le> 2 * q"
proof -
  have "near (1 / 2) r q" using assms by (rule near_weaken)
  then have "q / 2 \<le> r \<and> r \<le> 2 * q" by (auto simp: near_def)
  then show "q / 2 \<le> r" and "r \<le> 2 * q" by simp_all
qed

lemma near_pos: "near c r q \<Longrightarrow> c \<le> 1 / 2 \<Longrightarrow> 0 < r"
  using near_range(1) [of c r q] unfolding near_def by linarith

section \<open>Products and quotients of floats\<close>

lemma pow2_100: "pow2 100 = 1267650600228229401496703205376" "pow2 (-100) = 1 / 1267650600228229401496703205376"
  by (simp_all add: pow2_def)

text \<open>Numbers with room for an error on either side.\<close>

definition mid_range :: "rat \<Rightarrow> bool" where
  "mid_range q \<longleftrightarrow> 1 / 1000000000000000000000000 \<le> q \<and> q \<le> 1000000000000000000000000"

lemma f32_near_mid:
  assumes "near e x q" and "e \<le> 1 / 2" and "mid_range q"
  obtains r where "f32 x = Some r" and "near (1 / 16777216) r x"
proof -
  have "pow2 (-100) \<le> x" "x \<le> pow2 100"
    using near_range [OF assms(1,2)] assms(3) unfolding mid_range_def pow2_100 by linarith+
  then show ?thesis using that by (rule f32_near)
qed

lemma product_error:
  fixes a b :: rat
  assumes "0 \<le> a" "a \<le> 1 / 8" "0 \<le> b" "b \<le> 1 / 8"
  shows "0 \<le> a + b + a * b" and "a + b + a * b \<le> 1 / 2"
proof -
  have "a * b \<le> 1 / 8 * (1 / 8)" using assms by (intro mult_mono) auto
  then show "a + b + a * b \<le> 1 / 2" using assms by simp
  show "0 \<le> a + b + a * b" using assms by simp
qed

lemma f32_mul_near:
  assumes n: "near a p P" "near b q Q" and a: "0 \<le> a" "a \<le> 1 / 8" and b: "0 \<le> b" "b \<le> 1 / 8"
    and m: "mid_range (P * Q)"
    and d: "1 / 16777216 + (a + b + a * b) + 1 / 16777216 * (a + b + a * b) \<le> d"
  obtains r where "f32_mul (Some p) (Some q) = Some r" and "near d r (P * Q)"
proof -
  note e = product_error [OF a b]
  have pq: "near (a + b + a * b) (p * q) (P * Q)" by (rule near_mult [OF n]) (use a b in auto)
  obtain r where r: "f32 (p * q) = Some r" "near (1 / 16777216) r (p * q)" by (rule f32_near_mid [OF pq e(2) m])
  have "near d r (P * Q)"
    by (rule near_weaken [OF near_trans [OF r(2) pq] d]) (use e in auto)
  with r(1) that show ?thesis by (simp add: f32_mul_def)
qed

lemma f32_div_near:
  assumes n: "near a p P" "near b q Q" and a: "0 \<le> a" "a \<le> 1 / 8" and b: "0 \<le> b" "b \<le> 1 / 16"
    and m: "mid_range (P / Q)"
    and d: "1 / 16777216 + (a + (b + 2 * b * b) + a * (b + 2 * b * b)) +
      1 / 16777216 * (a + (b + 2 * b * b) + a * (b + 2 * b * b)) \<le> d"
  obtains r where "f32_div (Some p) (Some q) = Some r" and "near d r (P / Q)"
proof -
  have "b * b \<le> 1 / 16 * (1 / 16)" using b by (intro mult_mono) auto
  then have b2: "0 \<le> b + 2 * b * b" "b + 2 * b * b \<le> 1 / 8" using b by (auto simp: algebra_simps)
  have i: "near (b + 2 * b * b) (1 / q) (1 / Q)" by (rule near_inverse [OF n(2)]) (use b in auto)
  have m': "mid_range (P * (1 / Q))" using m by simp
  obtain r where r: "f32_mul (Some p) (Some (1 / q)) = Some r" "near d r (P * (1 / Q))"
    by (rule f32_mul_near [OF n(1) i a b2 m' d])
  have "q \<noteq> 0" using near_pos [OF n(2)] b by auto
  with r that show ?thesis by (simp add: f32_mul_def f32_div_def)
qed

text \<open>The error of two and of three roundings.\<close>

lemma float_errors:
  fixes c :: rat
  defines "c \<equiv> 1 / 16777216"
  shows "c + (c + c + c * c) + c * (c + c + c * c) \<le> 1 / 5000000"
    and "c + (c + (c + 2 * c * c) + c * (c + 2 * c * c)) + c * (c + (c + 2 * c * c) + c * (c + 2 * c * c)) \<le> 1 / 5000000"
    and "c + (1 / 5000000 + (c + 2 * c * c) + 1 / 5000000 * (c + 2 * c * c)) +
      c * (1 / 5000000 + (c + 2 * c * c) + 1 / 5000000 * (c + 2 * c * c)) \<le> 1 / 2097152"
    and "c + (c + 1 / 5000000 + c * (1 / 5000000)) + c * (c + 1 / 5000000 + c * (1 / 5000000)) \<le> 1 / 2097152"
  unfolding c_def by simp_all

lemma f32_int_near:
  fixes N :: rat
  assumes "1 \<le> N" and "N \<le> 4294967296"
  obtains r where "f32 N = Some r" and "near (1 / 16777216) r N"
  by (rule f32_near [of N]) (use assms in \<open>simp_all add: pow2_100\<close>)

end
