(* ===== verification/Touchpanel_Scaling.thy ===== *)
theory Touchpanel_Scaling
  imports Touchpanel_Mouse Float_Error
begin

text \<open>
  The scaling of raw coordinates in binary32: the screen's resolution over the panel's maximum,
  times the raw value, truncated.
\<close>

lemma f32_0: "f32 0 = Some 0"
  by (simp add: f32_def fl_round_def pow2_def)

text \<open>The product before it is truncated: three roundings.\<close>

lemma scale_product_near:
  fixes v res mx :: rat
  assumes v: "1 \<le> v" "v \<le> mx" and mx: "mx \<le> 4294967296" and res: "1 \<le> res" "res \<le> 4294967296"
  obtains p where "f32_mul (f32 v) (f32_div (f32 res) (f32 mx)) = Some p" and "near (1 / 2097152) p (v * (res / mx))"
proof -
  obtain a where a: "f32 v = Some a" "near (1 / 16777216) a v" by (rule f32_int_near [of v]) (use v mx in auto)
  obtain b where b: "f32 res = Some b" "near (1 / 16777216) b res" by (rule f32_int_near [OF res])
  obtain m where m: "f32 mx = Some m" "near (1 / 16777216) m mx" by (rule f32_int_near [of mx]) (use v mx in auto)
  have q: "1 / 4294967296 \<le> res / mx" "res / mx \<le> 4294967296 / 1"
    using v mx res by (intro frac_le; simp)+
  then have 1: "mid_range (res / mx)" unfolding mid_range_def by linarith
  obtain s where s: "f32_div (Some b) (Some m) = Some s" "near (1 / 5000000) s (res / mx)"
    by (rule f32_div_near [OF b(2) m(2) _ _ _ _ 1 float_errors(2)]) simp_all
  have "1 * (1 / 4294967296) \<le> v * (res / mx)" "v * (res / mx) \<le> 4294967296 * 4294967296"
    using q v mx by (intro mult_mono; simp)+
  then have 2: "mid_range (v * (res / mx))" unfolding mid_range_def by linarith
  obtain p where p: "f32_mul (Some a) (Some s) = Some p" "near (1 / 2097152) p (v * (res / mx))"
    by (rule f32_mul_near [OF a(2) s(2) _ _ _ _ 2 float_errors(4)]) simp_all
  show ?thesis by (rule that [OF _ p(2)]) (simp add: a(1) b(1) m(1) s(1) p(1))
qed

lemma int_rat_bounds: "a \<le> b \<Longrightarrow> (of_int a :: rat) \<le> of_int b"
  by simp

text \<open>The coordinate is on the panel, and off by less than one pixel and a little.\<close>

lemma scaled_near:
  assumes v: "0 \<le> v" "v \<le> mx" and mx: "1 \<le> mx" "mx \<le> 2147483647" and res: "1 \<le> res" "res \<le> 32767"
  obtains x where "scaled v (f32_div (f32 (of_int res)) (f32 (of_int mx))) = Some x" and "0 \<le> x" and "x \<le> res"
    and "of_int x \<le> (1 + 1 / 2097152) * (of_int v * of_int res / of_int mx :: rat)"
    and "(1 - 1 / 2097152) * (of_int v * of_int res / of_int mx :: rat) < of_int x + 1"
proof (cases "v = 0")
  case True
  have r: "(1 :: rat) \<le> of_int res" "(of_int res :: rat) \<le> 4294967296" "(1 :: rat) \<le> of_int mx" "(of_int mx :: rat) \<le> 4294967296"
    using res mx by simp_all
  obtain p where "f32_mul (f32 1) (f32_div (f32 (of_int res)) (f32 (of_int mx))) = Some p"
    by (rule scale_product_near [of 1 "of_int mx" "of_int res"]) (use r in simp_all)
  then obtain s where s: "f32_div (f32 (of_int res)) (f32 (of_int mx)) = Some s"
    by (auto simp: f32_mul_def elim!: bind_eq_SomeE)
  have "scaled v (f32_div (f32 (of_int res)) (f32 (of_int mx))) = Some 0"
    unfolding scaled_def s True by (simp add: f32_0 f32_mul_def f32_to_int_small)
  with True res show ?thesis by (intro that [of 0]) auto
next
  case False
  let ?q = "of_int v * (of_int res / of_int mx) :: rat"
  have r: "(1 :: rat) \<le> of_int res" "(of_int res :: rat) \<le> 32767" "(1 :: rat) \<le> of_int mx"
    "(of_int mx :: rat) \<le> 2147483647" "(1 :: rat) \<le> of_int v" "(of_int v :: rat) \<le> of_int mx"
    using False v res mx by simp_all
  obtain p where p: "f32_mul (f32 (of_int v)) (f32_div (f32 (of_int res)) (f32 (of_int mx))) = Some p"
      "near (1 / 2097152) p ?q"
    by (rule scale_product_near [of "of_int v" "of_int mx" "of_int res"]) (use r in simp_all)
  have "of_int v / of_int mx \<le> (1 :: rat)" using r by simp
  then have "of_int v / of_int mx * of_int res \<le> (1 * of_int res :: rat)"
    using r by (intro mult_right_mono) auto
  then have q: "?q \<le> of_int res" by (simp add: mult.commute)
  have n: "0 < ?q" "(1 - 1 / 2097152) * ?q \<le> p" "p \<le> (1 + 1 / 2097152) * ?q"
    using p(2) by (simp_all add: near_def)
  have p0: "0 \<le> p" using near_pos [OF p(2)] by simp
  have "(1 + 1 / 2097152) * ?q \<le> (1 + 1 / 2097152) * of_int res" by (rule mult_left_mono [OF q]) simp
  also have "\<dots> < of_int res + 1" using r by (simp add: distrib_right)
  finally have "p < of_int (res + 1)" using n(3) by simp
  then have "\<lfloor>p\<rfloor> < res + 1" by (simp only: floor_less_iff)
  then have le: "\<lfloor>p\<rfloor> \<le> res" by simp
  have "p < 2147483648" using \<open>p < of_int (res + 1)\<close> r by simp
  then have sc: "scaled v (f32_div (f32 (of_int res)) (f32 (of_int mx))) = Some \<lfloor>p\<rfloor>"
    unfolding scaled_def p(1) by (rule f32_to_int_small [OF p0])
  have f: "of_int \<lfloor>p\<rfloor> \<le> p" "p < of_int \<lfloor>p\<rfloor> + 1" by linarith+
  have eq: "of_int v * of_int res / of_int mx = ?q" by simp
  show ?thesis
  proof (rule that [OF sc _ le])
    show "0 \<le> \<lfloor>p\<rfloor>" using p0 by simp
    show "of_int \<lfloor>p\<rfloor> \<le> (1 + 1 / 2097152) * (of_int v * of_int res / of_int mx :: rat)"
      unfolding eq using f n by linarith
    show "(1 - 1 / 2097152) * (of_int v * of_int res / of_int mx :: rat) < of_int \<lfloor>p\<rfloor> + 1"
      unfolding eq using f n by linarith
  qed
qed

end
