(* ===== verification/Touchpanel_Endtoend.thy ===== *)
theory Touchpanel_Endtoend
  imports Touchpanel_Properties Touchpanel_Scaling
begin

text \<open>
  From opening the device to the touches a client gets: the coordinates are on the screen, and a
  touch ends when the button is released.
\<close>

section \<open>The raw events\<close>

definition button_event :: "input_event \<Rightarrow> bool" where
  "button_event e \<longleftrightarrow> ev_type e = EV_KEY \<and> (ev_code e = BTN_TOUCH \<or> ev_code e = BTN_LEFT)"

lemma mouse_input_cases:
  obtains (x) "ev_type e = EV_ABS" "ev_code e = ABS_X" "\<not> button_event e"
      "mouse_input sx sy e m = (m\<lparr>m_x := sx (ev_value e)\<rparr>, [])"
  | (y) "ev_type e = EV_ABS" "ev_code e = ABS_Y" "\<not> button_event e"
      "mouse_input sx sy e m = (m\<lparr>m_y := sy (ev_value e)\<rparr>, [])"
  | (release) "button_event e" "ev_value e = 0" "mouse_input sx sy e m = mouse_scan True (m\<lparr>m_button := 0\<rparr>)"
  | (press) "button_event e" "ev_value e \<noteq> 0" "mouse_input sx sy e m = (m\<lparr>m_button := ev_value e\<rparr>, [])"
  | (sync) "ev_type e = EV_SYN" "\<not> button_event e" "mouse_input sx sy e m = mouse_scan (m_button m \<noteq> 0) m"
  | (none) rs where "ev_type e \<noteq> EV_SYN" "\<not> button_event e" "mouse_input sx sy e m = (m, rs)" "concat rs = []"
proof -
  have d: "EV_KEY \<noteq> EV_ABS" "EV_SYN \<noteq> EV_KEY" "EV_SYN \<noteq> EV_ABS" by (simp_all add: input_codes)
  consider (1) "ev_type e = EV_ABS" | (2) "button_event e" | (3) "ev_type e = EV_SYN"
    | (4) "ev_type e \<noteq> EV_ABS" "\<not> button_event e" "ev_type e \<noteq> EV_SYN" by blast
  then show ?thesis
  proof cases
    case 1
    then have b: "\<not> button_event e" "ev_type e \<noteq> EV_SYN" using d by (simp_all add: button_event_def)
    show ?thesis
    proof (cases "ev_code e = ABS_X \<or> ev_code e = ABS_Y")
      case True
      with 1 b x y show ?thesis by (cases "ev_code e = ABS_X") (simp_all add: mouse_input_def)
    next
      case False
      show ?thesis by (rule none [of "snd (mouse_input sx sy e m)"])
        (use 1 b d False in \<open>auto simp: mouse_input_def\<close>)
    qed
  next
    case 2
    then have "ev_type e = EV_KEY" "ev_code e = BTN_TOUCH \<or> ev_code e = BTN_LEFT" by (simp_all add: button_event_def)
    with 2 release press d show ?thesis by (cases "ev_value e = 0") (simp_all add: mouse_input_def)
  next
    case 3
    with d sync show ?thesis by (simp add: mouse_input_def button_event_def)
  next
    case 4
    show ?thesis by (rule none [of "snd (mouse_input sx sy e m)"])
      (use 4 in \<open>auto simp: mouse_input_def button_event_def\<close>)
  qed
qed

section \<open>Coordinates\<close>

definition on_screen :: "int \<Rightarrow> int \<Rightarrow> int \<Rightarrow> int \<Rightarrow> bool" where
  "on_screen xr yr x y \<longleftrightarrow> 0 \<le> x \<and> x \<le> xr \<and> 0 \<le> y \<and> y \<le> yr"

definition mouse_on :: "int \<Rightarrow> int \<Rightarrow> mouse \<Rightarrow> bool" where
  "mouse_on xr yr m \<longleftrightarrow> on_screen xr yr (m_x m) (m_y m) \<and>
     (\<forall>i x y. m_pointer m = Some (i, x, y) \<longrightarrow> on_screen xr yr x y)"

definition reports_on :: "int \<Rightarrow> int \<Rightarrow> report list list \<Rightarrow> bool" where
  "reports_on xr yr rs \<longleftrightarrow> (\<forall>(i, st, x, y) \<in> set (concat rs). on_screen xr yr x y)"

text \<open>The scales keep the raw coordinates of an event on the screen.\<close>

definition scales_on :: "int \<Rightarrow> int \<Rightarrow> (int \<Rightarrow> int) \<Rightarrow> (int \<Rightarrow> int) \<Rightarrow> input_event \<Rightarrow> bool" where
  "scales_on xr yr sx sy e \<longleftrightarrow>
     (ev_type e = EV_ABS \<and> ev_code e = ABS_X \<longrightarrow> 0 \<le> sx (ev_value e) \<and> sx (ev_value e) \<le> xr) \<and>
     (ev_type e = EV_ABS \<and> ev_code e = ABS_Y \<longrightarrow> 0 \<le> sy (ev_value e) \<and> sy (ev_value e) \<le> yr)"

lemma mouse_scan_on:
  assumes "mouse_on xr yr m"
  shows "mouse_on xr yr (fst (mouse_scan b m)) \<and> reports_on xr yr (snd (mouse_scan b m))"
  using assms
  by (cases "(b, m_x m, m_y m, m_next m, m_pointer m)" rule: pointer_step.cases)
    (auto simp: mouse_scan_def mouse_on_def reports_on_def)

lemma mouse_input_on:
  assumes "mouse_on xr yr m" and "scales_on xr yr sx sy e"
  shows "mouse_on xr yr (fst (mouse_input sx sy e m)) \<and> reports_on xr yr (snd (mouse_input sx sy e m))"
proof (cases rule: mouse_input_cases [of e sx sy m])
  case release
  have "mouse_on xr yr (m\<lparr>m_button := 0\<rparr>)" using assms(1) by (simp add: mouse_on_def)
  from mouse_scan_on [OF this] show ?thesis unfolding release .
next
  case sync
  show ?thesis unfolding sync by (rule mouse_scan_on [OF assms(1)])
qed (use assms in \<open>auto simp: scales_on_def mouse_on_def on_screen_def reports_on_def\<close>)

lemma mouse_inputs_on:
  assumes "mouse_on xr yr m" and "\<forall>e \<in> set es. scales_on xr yr sx sy e"
  shows "reports_on xr yr (snd (mouse_inputs sx sy es m))"
  using assms
proof (induction es arbitrary: m)
  case Nil
  then show ?case by (simp add: reports_on_def)
next
  case (Cons e es)
  with mouse_input_on [of xr yr m sx sy e] show ?case
    by (auto simp: case_prod_beta reports_on_def)
qed

section \<open>What the kernel delivers\<close>

definition kernel_event :: "int \<Rightarrow> int \<Rightarrow> input_io \<Rightarrow> bool" where
  "kernel_event mx my io \<longleftrightarrow> 0 < poll_ret io \<and> pollin io \<and> 0 \<le> read_ret io \<and>
     0 \<le> tv_usec (io_time io) \<and> tv_usec (io_time io) < 1000000 \<and>
     time_ok (io_buf io) \<and> time_ok (io_junk io) \<and> in_i32 (ev_value (io_buf io)) \<and>
     (ev_type (io_buf io) = EV_ABS \<and> ev_code (io_buf io) = ABS_X \<longrightarrow>
        0 \<le> ev_value (io_buf io) \<and> ev_value (io_buf io) \<le> mx) \<and>
     (ev_type (io_buf io) = EV_ABS \<and> ev_code (io_buf io) = ABS_Y \<longrightarrow>
        0 \<le> ev_value (io_buf io) \<and> ev_value (io_buf io) \<le> my)"

definition sane_screen :: "int \<Rightarrow> int \<Rightarrow> bool" where
  "sane_screen res mx \<longleftrightarrow> 1 \<le> res \<and> res \<le> 32767 \<and> 1 \<le> mx \<and> mx \<le> 2147483647"

lemma scale_on:
  assumes "sane_screen res mx" and "0 \<le> v" "v \<le> mx"
  shows "\<exists>x. scaled v (f32_div (f32 (of_int res)) (f32 (of_int mx))) = Some x \<and> panel_coord x \<and>
    scale_of (f32_div (f32 (of_int res)) (f32 (of_int mx))) v = x \<and> 0 \<le> x \<and> x \<le> res"
proof -
  obtain x where "scaled v (f32_div (f32 (of_int res)) (f32 (of_int mx))) = Some x" "0 \<le> x" "x \<le> res"
    using assms unfolding sane_screen_def by (elim conjE scaled_near [of v mx res])
  with assms(1) show ?thesis by (auto simp: panel_coord_def scale_of_def sane_screen_def)
qed

lemma kernel_event_ok:
  assumes "kernel_event mx my io" and "sane_screen xr mx" "sane_screen yr my"
    and "scaleX s = f32_div (f32 (of_int xr)) (f32 (of_int mx))"
    and "scaleY s = f32_div (f32 (of_int yr)) (f32 (of_int my))"
  shows "raw_ok s io \<and> scales_on xr yr (scale_of (scaleX s)) (scale_of (scaleY s)) (io_buf io)"
  using assms(1) scale_on [OF assms(2), of "ev_value (io_buf io)"] scale_on [OF assms(3), of "ev_value (io_buf io)"]
  unfolding raw_ok_def scales_on_def kernel_event_def assms(4,5) by blast

section \<open>The end of a touch\<close>

text \<open>The touch that is open after some items.\<close>

fun touch_after :: "int option \<Rightarrow> (int \<times> touchpanel_state \<times> int \<times> int) list \<Rightarrow> int option" where
  "touch_after p [] = p"
| "touch_after p ((i, st, x, y) # rs) = touch_after (if st = NYX_TOUCHPANEL_STATE_UP then None else Some i) rs"

lemma touch_after_append [simp]: "touch_after p (rs @ rs') = touch_after (touch_after p rs) rs'"
  by (induction p rs rule: touch_after.induct) simp_all

lemma touch_after_None:
  "touch_after p rs = None \<Longrightarrow> rs \<noteq> [] \<Longrightarrow> fst (snd (last rs)) = NYX_TOUCHPANEL_STATE_UP"
  by (induction p rs rule: touch_after.induct) (auto split: if_splits)

lemma mouse_scan_after:
  "touch_after (open_touch m) (concat (map (map report_view) (snd (mouse_scan b m)))) = open_touch (fst (mouse_scan b m))"
  by (cases "(b, m_x m, m_y m, m_next m, m_pointer m)" rule: pointer_step.cases)
    (auto simp: mouse_scan_def open_touch_def report_view_def)

lemma mouse_input_after:
  "touch_after (open_touch m) (concat (map (map report_view) (snd (mouse_input sx sy e m)))) =
   open_touch (fst (mouse_input sx sy e m))"
proof -
  have upd: "open_touch (m\<lparr>m_x := a\<rparr>) = open_touch m" "open_touch (m\<lparr>m_y := a\<rparr>) = open_touch m"
    "open_touch (m\<lparr>m_button := a\<rparr>) = open_touch m" for a
    by (simp_all add: open_touch_def)
  show ?thesis
  proof (cases rule: mouse_input_cases [of e sx sy m])
    case release
    show ?thesis unfolding release using mouse_scan_after [of "m\<lparr>m_button := 0\<rparr>" True] by (simp only: upd)
  next
    case sync
    show ?thesis unfolding sync by (rule mouse_scan_after)
  next
    case (none rs)
    show ?thesis
      unfolding none fst_conv snd_conv map_concat [symmetric] none(4) list.map touch_after.simps ..
  qed (simp_all add: upd)
qed

lemma mouse_inputs_after:
  "touch_after (open_touch m) (concat (map (map report_view) (snd (mouse_inputs sx sy es m)))) =
   open_touch (fst (mouse_inputs sx sy es m))"
proof (induction es arbitrary: m)
  case (Cons e es)
  from Cons.IH [of "fst (mouse_input sx sy e m)"] show ?case
    by (simp add: case_prod_beta mouse_input_after)
qed simp

lemma mouse_inputs_append:
  "fst (mouse_inputs sx sy (es @ es') m) = fst (mouse_inputs sx sy es' (fst (mouse_inputs sx sy es m)))"
  by (induction es arbitrary: m) (simp_all add: case_prod_beta)

text \<open>A release stays until the button is touched again, and then a synchronisation ends the touch.\<close>

lemma mouse_input_button:
  "m_button (fst (mouse_input sx sy e m)) = (if button_event e then ev_value e else m_button m)"
  by (cases rule: mouse_input_cases [of e sx sy m]) (simp_all add: mouse_scan_def case_prod_beta)

lemma mouse_inputs_button:
  "\<forall>e \<in> set es. button_event e \<longrightarrow> ev_value e = 0 \<Longrightarrow> m_button m = 0 \<Longrightarrow>
   m_button (fst (mouse_inputs sx sy es m)) = 0"
  by (induction es arbitrary: m) (simp_all add: case_prod_beta mouse_input_button)

lemma mouse_sync_ends:
  assumes "m_button m = 0" and "ev_type e = EV_SYN"
  shows "open_touch (fst (mouse_input sx sy e m)) = None"
  using assms
  by (cases "m_pointer m") (auto simp: mouse_input_def mouse_scan_def open_touch_def input_codes)

lemma release_ends:
  assumes "button_event r" "ev_value r = 0" and "\<forall>e \<in> set bs. button_event e \<longrightarrow> ev_value e = 0"
    and "ev_type e = EV_SYN"
  shows "open_touch (fst (mouse_inputs sx sy (as @ r # bs @ [e]) m)) = None"
proof -
  let ?m1 = "fst (mouse_inputs sx sy as m)"
  have "m_button (fst (mouse_input sx sy r ?m1)) = 0" by (simp add: mouse_input_button assms(1,2))
  from mouse_sync_ends [OF mouse_inputs_button [OF assms(3) this] assms(4)]
  show ?thesis by (simp add: mouse_inputs_append case_prod_beta)
qed

section \<open>The properties\<close>

text \<open>A device that opens, with a panel and a screen of sensible sizes.\<close>

definition device_ok :: "touchpanel_io \<Rightarrow> bool" where
  "device_ok io \<longleftrightarrow> open_ok io \<and> 0 \<le> fb_fd io \<and> 0 \<le> fb_ret io \<and>
     sane_screen (fst (fb_res io)) (absX_maximum io) \<and> sane_screen (snd (fb_res io)) (absY_maximum io)"

lemma open_and_feed:
  assumes dev: "device_ok io" and mem: "mem \<noteq> NULL" and max: "0 < max_events"
    and raw: "\<forall>e \<in> set ios. kernel_event (absX_maximum io) (absY_maximum io) e"
    and few: "length ios \<le> 2147000"
  obtains s es s' sx sy m0 where "touchpanel_module_open mem io d0 touchpanel_start = Some (NYX_ERROR_NONE, mem, s)"
    and "feed_all max_events ios s = Some (es, s')" and "mouse_on (fst (fb_res io)) (snd (fb_res io)) m0"
    and "open_touch m0 = None" and "mouse_of s' = fst (mouse_inputs sx sy (map io_buf ios) m0)"
    and "map (map item_report) es = map (map report_view) (snd (mouse_inputs sx sy (map io_buf ios) m0))"
    and "\<forall>e \<in> set (map io_buf ios). scales_on (fst (fb_res io)) (snd (fb_res io)) sx sy e"
proof -
  let ?m0 = "\<lparr>m_x = 0, m_y = 0, m_button = 0, m_pointer = None, m_next = 0\<rparr>"
  have d: "open_ok io" "0 \<le> fb_fd io" "0 \<le> fb_ret io"
    "sane_screen (fst (fb_res io)) (absX_maximum io)" "sane_screen (snd (fb_res io)) (absY_maximum io)"
    using dev by (simp_all add: device_ok_def)
  obtain s where s: "touchpanel_module_open mem io d0 touchpanel_start = Some (NYX_ERROR_NONE, mem, s)"
    "tp_inv s" "idle s" "mouse_of s = ?m0"
    "scaleX s = f32_div (f32 (of_int (fst (fb_res io)))) (f32 (of_int (absX_maximum io)))"
    "scaleY s = f32_div (f32 (of_int (snd (fb_res io)))) (f32 (of_int (absY_maximum io)))"
    using touchpanel_open_correct [OF d(1) mem d(2,3), of d0] by blast
  have ok: "raw_ok s e \<and> scales_on (fst (fb_res io)) (snd (fb_res io)) (scale_of (scaleX s)) (scale_of (scaleY s)) (io_buf e)"
    if "e \<in> set ios" for e
    using kernel_event_ok [OF _ d(4,5) s(5,6)] raw that by blast
  have ids: "ids_below 0 (mouse_of s)" "0 + int (length ios) \<le> 2147000"
    using few by (simp_all add: s(4) ids_below_def)
  obtain es s' where "feed_all max_events ios s = Some (es, s')"
    "mouse_of s' = fst (mouse_inputs (scale_of (scaleX s)) (scale_of (scaleY s)) (map io_buf ios) ?m0)"
    "map (map item_report) es = map (map report_view) (snd (mouse_inputs (scale_of (scaleX s)) (scale_of (scaleY s)) (map io_buf ios) ?m0))"
    using feed_all_refines [OF s(2,3) _ max ids] ok unfolding s(4) by blast
  moreover have "mouse_on (fst (fb_res io)) (snd (fb_res io)) ?m0" "open_touch ?m0 = None"
    using d(4,5) by (simp_all add: mouse_on_def on_screen_def sane_screen_def open_touch_def)
  ultimately show ?thesis using that [OF s(1)] ok by simp
qed

lemma items_on_screen:
  assumes "reports_on xr yr rs" and "map (map item_report) es = map (map report_view) rs" and "t \<in> set (concat es)"
  shows "on_screen xr yr (ti_x t) (ti_y t)"
proof -
  have "item_report t \<in> set (concat (map (map item_report) es))" using assms(3) by auto
  then have "item_report t \<in> report_view ` set (concat rs)"
    unfolding assms(2) by (simp only: map_concat [symmetric] set_map)
  then obtain r where "r \<in> set (concat rs)" "item_report t = report_view r" by blast
  with assms(1) show ?thesis by (auto simp: reports_on_def item_report_def report_view_def split: prod.splits)
qed

text \<open>
  C11: From the device file to the client: with a panel and a screen of sizes up to 32767 pixels, the
  module opens, and whatever the kernel delivers then, raw coordinates within the panel's limits,
  nothing is undefined; the touches are well paired, and every coordinate that a client gets is on
  the screen (its far edge included).
\<close>

theorem touchpanel_end_to_end:
  assumes "device_ok io" and "mem \<noteq> NULL" and "0 < max_events"
    and "\<forall>e \<in> set ios. kernel_event (absX_maximum io) (absY_maximum io) e" and "length ios \<le> 2147000"
  shows "\<exists>s es s'. touchpanel_module_open mem io d0 touchpanel_start = Some (NYX_ERROR_NONE, mem, s) \<and>
    feed_all max_events ios s = Some (es, s') \<and> touch_ok None (concat (map (map item_report) es)) \<and>
    (\<forall>t \<in> set (concat es). 0 \<le> ti_x t \<and> ti_x t \<le> fst (fb_res io) \<and> 0 \<le> ti_y t \<and> ti_y t \<le> snd (fb_res io))"
proof -
  obtain s es s' sx sy m0 where f: "touchpanel_module_open mem io d0 touchpanel_start = Some (NYX_ERROR_NONE, mem, s)"
    "feed_all max_events ios s = Some (es, s')" "mouse_on (fst (fb_res io)) (snd (fb_res io)) m0" "open_touch m0 = None"
    "map (map item_report) es = map (map report_view) (snd (mouse_inputs sx sy (map io_buf ios) m0))"
    "\<forall>e \<in> set (map io_buf ios). scales_on (fst (fb_res io)) (snd (fb_res io)) sx sy e"
    by (rule open_and_feed [OF assms]) blast
  have "touch_ok None (concat (map (map item_report) es))"
    using mouse_inputs_touch_ok [of m0 sx sy "map io_buf ios"] by (simp only: f(4,5))
  with f(1,2) items_on_screen [OF mouse_inputs_on [OF f(3,6)] f(5)] show ?thesis
    unfolding on_screen_def by blast
qed

text \<open>
  C12: A touch ends: whatever happened before, once the button is released (however often) and the
  kernel then sends a synchronisation without the button having been pressed again, the client
  has got the UP of every touch: no touch is open, and the last item is an UP if there is any.
\<close>

theorem touchpanel_release_ends_touch:
  assumes "device_ok io" and "mem \<noteq> NULL" and "0 < max_events"
    and "\<forall>e \<in> set ios. kernel_event (absX_maximum io) (absY_maximum io) e" and "length ios \<le> 2147000"
    and "map io_buf ios = as @ rel # bs @ [syn]" and "button_event rel" "ev_value rel = 0"
    and "\<forall>e \<in> set bs. button_event e \<longrightarrow> ev_value e = 0" and "ev_type syn = EV_SYN"
  shows "\<exists>s es s'. touchpanel_module_open mem io d0 touchpanel_start = Some (NYX_ERROR_NONE, mem, s) \<and>
    feed_all max_events ios s = Some (es, s') \<and> sFingers (tp_gsm s') = [] \<and>
    (concat es \<noteq> [] \<longrightarrow> ti_state (last (concat es)) = NYX_TOUCHPANEL_STATE_UP)"
proof -
  obtain s es s' sx sy m0 where f: "touchpanel_module_open mem io d0 touchpanel_start = Some (NYX_ERROR_NONE, mem, s)"
    "feed_all max_events ios s = Some (es, s')" "open_touch m0 = None"
    "mouse_of s' = fst (mouse_inputs sx sy (map io_buf ios) m0)"
    "map (map item_report) es = map (map report_view) (snd (mouse_inputs sx sy (map io_buf ios) m0))"
    by (rule open_and_feed [OF assms(1-5)]) blast
  have o: "open_touch (mouse_of s') = None"
    unfolding f(4) assms(6) by (rule release_ends [OF assms(7-10)])
  then have "tp_pointer (tp_gsm s') = None" by (simp add: open_touch_def mouse_of_def)
  then have fingers: "sFingers (tp_gsm s') = []" by (simp add: tp_pointer_def split: list.splits)
  have "touch_after None (concat (map (map item_report) es)) = None"
    using mouse_inputs_after [of m0 sx sy "map io_buf ios"] o by (simp only: f(3,4,5))
  then have "touch_after None (map item_report (concat es)) = None" by (simp only: map_concat)
  then have "concat es \<noteq> [] \<longrightarrow> ti_state (last (concat es)) = NYX_TOUCHPANEL_STATE_UP"
    using touch_after_None [of None "map item_report (concat es)"] by (auto simp: last_map item_report_def)
  with f(1,2) fingers show ?thesis by blast
qed

text \<open>
  C13: The scaled coordinate of a raw value within the panel's limits: it is defined and on the screen,
  and off the exact value by less than one pixel and a relative error of 2^-21, upwards only by
  the latter.
\<close>

theorem touchpanel_scaled_bounds:
  assumes "sane_screen res mx" and "0 \<le> v" "v \<le> mx"
  shows "\<exists>x. scaled v (f32_div (f32 (of_int res)) (f32 (of_int mx))) = Some x \<and> 0 \<le> x \<and> x \<le> res \<and>
    of_int x \<le> (1 + 1 / 2097152) * (of_int v * of_int res / of_int mx :: rat) \<and>
    (1 - 1 / 2097152) * (of_int v * of_int res / of_int mx :: rat) < of_int x + 1"
proof -
  have "1 \<le> mx" "mx \<le> 2147483647" "1 \<le> res" "res \<le> 32767" using assms(1) by (simp_all add: sane_screen_def)
  then obtain x where "scaled v (f32_div (f32 (of_int res)) (f32 (of_int mx))) = Some x" "0 \<le> x" "x \<le> res"
    "of_int x \<le> (1 + 1 / 2097152) * (of_int v * of_int res / of_int mx :: rat)"
    "(1 - 1 / 2097152) * (of_int v * of_int res / of_int mx :: rat) < of_int x + 1"
    by (rule scaled_near [OF assms(2,3)])
  then show ?thesis by blast
qed

section \<open>Witnesses\<close>

lemma click_device_ok: "device_ok click_io"
  using click_open_ok by (simp add: device_ok_def click_io_def sane_screen_def)

lemma click_kernel: "\<forall>e \<in> set click. kernel_event (absX_maximum click_io) (absY_maximum click_io) e"
  by (auto simp: click_def click_event_def click_io_def kernel_event_def time_ok_def zero_event_def
      in_i32_def INT_MIN_def INT_MAX_def input_codes)

theorem touchpanel_end_to_end_witness:
  "\<exists>s es s'. touchpanel_module_open 9 click_io 0 touchpanel_start = Some (NYX_ERROR_NONE, 9, s) \<and>
    feed_all 10 click s = Some (es, s') \<and> (\<forall>t \<in> set (concat es). ti_x t \<le> 320)"
proof -
  have "(9 :: ptr) \<noteq> NULL" "(0 :: nat) < 10" "length click \<le> 2147000" by (simp_all add: click_def)
  from touchpanel_end_to_end [OF click_device_ok this(1,2) click_kernel this(3), of 0] show ?thesis
    by (fastforce simp: click_io_def)
qed

theorem touchpanel_release_ends_touch_witness:
  "\<exists>s es s'. touchpanel_module_open 9 click_io 0 touchpanel_start = Some (NYX_ERROR_NONE, 9, s) \<and>
    feed_all 10 click s = Some (es, s') \<and> sFingers (tp_gsm s') = []"
proof -
  have h: "(9 :: ptr) \<noteq> NULL" "(0 :: nat) < 10" "length click \<le> 2147000" by (simp_all add: click_def)
  have c: "map io_buf click = take 4 (map io_buf click) @ io_buf (click_event EV_KEY BTN_LEFT 0) # [] @ [io_buf (click_event EV_SYN 0 0)]"
    by (simp add: click_def)
  have b: "button_event (io_buf (click_event EV_KEY BTN_LEFT 0))" "ev_value (io_buf (click_event EV_KEY BTN_LEFT 0)) = 0"
    "\<forall>e \<in> set []. button_event e \<longrightarrow> ev_value e = 0" "ev_type (io_buf (click_event EV_SYN 0 0)) = EV_SYN"
    by (simp_all add: button_event_def click_event_def)
  from touchpanel_release_ends_touch [OF click_device_ok h(1,2) click_kernel h(3) c b, of 0] show ?thesis by blast
qed

text \<open>The far edge is reached: the largest raw value is scaled past the last pixel.\<close>

theorem touchpanel_scaled_bounds_witness:
  "scaled 320 (f32_div (f32 (of_int 320)) (f32 (of_int 320))) = Some 320 \<and>
   (\<exists>x. scaled 500 (f32_div (f32 (of_int 1024)) (f32 (of_int 32767))) = Some x \<and> 0 \<le> x \<and> x \<le> 1024)"
proof -
  have "sane_screen 1024 32767" by (simp add: sane_screen_def)
  from touchpanel_scaled_bounds [OF this, of 500]
  have "\<exists>x. scaled 500 (f32_div (f32 (of_int 1024)) (f32 (of_int 32767))) = Some x \<and> 0 \<le> x \<and> x \<le> 1024" by auto
  moreover have "scaled 320 (f32_div (f32 (of_int 320)) (f32 (of_int 320))) = Some 320" by code_simp
  ultimately show ?thesis by blast
qed

end
