(* ===== verification/Keys.thy ===== *)
theory Keys
  imports Touch_Event
begin

text \<open>
  keys.c of the emulator: batches of raw input events become key events, one per call. The
  interface \<open>batch_source\<close> says what a client of such a module relies on. What poll and read
  answer is an argument, and so are the constants of nyx-lib that the module returns.
\<close>

section \<open>Data\<close>

datatype key_type =
    NYX_KEY_TYPE_STANDARD
  | NYX_KEY_TYPE_CUSTOM

datatype custom_key =
    NYX_KEYS_CUSTOM_KEY_HOME
  | NYX_KEYS_CUSTOM_KEY_VOL_UP
  | NYX_KEYS_CUSTOM_KEY_VOL_DOWN
  | NYX_KEYS_CUSTOM_KEY_POWER_ON
  | NYX_KEYS_CUSTOM_KEY_MEDIA_PLAY
  | NYX_KEYS_CUSTOM_KEY_MEDIA_PAUSE
  | NYX_KEYS_CUSTOM_KEY_MEDIA_STOP
  | NYX_KEYS_CUSTOM_KEY_MEDIA_NEXT
  | NYX_KEYS_CUSTOM_KEY_MEDIA_PREVIOUS
  | NYX_KEYS_CUSTOM_KEY_SEARCH
  | NYX_KEYS_CUSTOM_KEY_BRIGHTNESS_DOWN
  | NYX_KEYS_CUSTOM_KEY_BRIGHTNESS_UP
  | NYX_KEYS_CUSTOM_KEY_VOL_MUTE
  | NYX_KEYS_CUSTOM_KEY_MEDIA_REWIND
  | NYX_KEYS_CUSTOM_KEY_MEDIA_FASTFORWARD

text \<open>\<open>InputEvent_t\<close>; its time is never read.\<close>

record raw_key =
  k_type :: u16
  k_code :: u16
  k_value :: int

text \<open>\<open>nyx_event_keys_t\<close>.\<close>

record keys_event =
  key_type :: key_type
  ke_key :: int
  key_is_press :: bool
  key_is_auto_repeat :: bool

text \<open>
  The numbers of the nyx-lib constants: the custom keys, and the key type that is 0 (what calloc
  leaves in a new event).
\<close>

record keys_lib =
  custom_code :: "custom_key \<Rightarrow> int"
  zero_key_type :: key_type

text \<open>
  The static variables of the file and of \<open>keys_get_event\<close>, and the device's field.
\<close>

record keys =
  keypad_event_fd :: int
  raw_events :: "raw_key list"
  event_count :: int
  event_iter :: nat
  keys_current :: "keys_event option"

definition MAX_EVENTS :: nat where
  "MAX_EVENTS = 64"

definition sizeof_InputEvent :: int where
  "sizeof_InputEvent = 24"

definition zero_raw_key :: raw_key where
  "zero_raw_key = \<lparr>k_type = 0, k_code = 0, k_value = 0\<rparr>"

definition keys_start :: keys where
  "keys_start = \<lparr>keypad_event_fd = 0, raw_events = replicate MAX_EVENTS zero_raw_key,
     event_count = 0, event_iter = 0, keys_current = None\<rparr>"

section \<open>Opening and closing\<close>

definition keys_event_create :: "keys_lib \<Rightarrow> bool \<Rightarrow> keys_event option" where
  "keys_event_create lib mem =
     (if mem then Some \<lparr>key_type = zero_key_type lib, ke_key = 0, key_is_press = False,
                        key_is_auto_repeat = False\<rparr>
      else None)"

definition keys_release_event :: "ptr \<Rightarrow> ptr \<Rightarrow> nyx_error" where
  "keys_release_event d e =
     (if d = NULL then NYX_ERROR_INVALID_HANDLE
      else if e = NULL then NYX_ERROR_INVALID_HANDLE
      else NYX_ERROR_NONE)"

text \<open>
  \<open>device\<close> says whether the build names an input device, and \<open>open_fd\<close> what open returns.
\<close>

definition init_keypad :: "bool \<Rightarrow> int \<Rightarrow> keys \<Rightarrow> int \<times> keys" where
  "init_keypad device open_fd s =
     (if device then
        (let s' = s\<lparr>keypad_event_fd := open_fd\<rparr> in
         if keypad_event_fd s' < 0 then (-1, s') else (0, s'))
      else (-1, s))"

text \<open>The result of \<open>init_keypad\<close> is not looked at.\<close>

definition keys_module_open ::
  "ptr \<Rightarrow> bool \<Rightarrow> int \<Rightarrow> ptr \<Rightarrow> keys \<Rightarrow> nyx_error \<times> ptr \<times> keys" where
  "keys_module_open mem device open_fd d0 s =
     (if mem = NULL then (NYX_ERROR_OUT_OF_MEMORY, d0, s)
      else (let (_, s') = init_keypad device open_fd (s\<lparr>keys_current := None\<rparr>) in
            (NYX_ERROR_NONE, mem, s')))"

definition keys_module_close :: "ptr \<Rightarrow> keys \<Rightarrow> nyx_error \<times> keys" where
  "keys_module_close d s =
     (if d = NULL then (NYX_ERROR_INVALID_HANDLE, s)
      else (NYX_ERROR_NONE, s\<lparr>keys_current := None\<rparr>))"

definition keys_get_event_source :: "ptr \<Rightarrow> int option \<Rightarrow> keys \<Rightarrow> nyx_error \<times> int option" where
  "keys_get_event_source d f s =
     (if d = NULL then (NYX_ERROR_INVALID_HANDLE, f)
      else case f of
        None \<Rightarrow> (NYX_ERROR_INVALID_VALUE, None)
      | Some _ \<Rightarrow> (NYX_ERROR_NONE, Some (keypad_event_fd s)))"

section \<open>Key codes\<close>

text \<open>
  \<open>lookup_key\<close>: the switch, with the codes of linux/input.h (KEY_HOME is 102, KEY_VOLUMEUP 115,
  and so on), then the codes that no case names. The key type is read and written through a
  pointer; the result is the key and the key type.
\<close>

definition custom_key_of :: "u16 \<Rightarrow> custom_key option" where
  "custom_key_of keyCode =
     (if keyCode = 102 then Some NYX_KEYS_CUSTOM_KEY_HOME
      else if keyCode = 115 then Some NYX_KEYS_CUSTOM_KEY_VOL_UP
      else if keyCode = 114 then Some NYX_KEYS_CUSTOM_KEY_VOL_DOWN
      else if keyCode = 107 then Some NYX_KEYS_CUSTOM_KEY_POWER_ON
      else if keyCode = 207 then Some NYX_KEYS_CUSTOM_KEY_MEDIA_PLAY
      else if keyCode = 119 then Some NYX_KEYS_CUSTOM_KEY_MEDIA_PAUSE
      else if keyCode = 128 then Some NYX_KEYS_CUSTOM_KEY_MEDIA_STOP
      else if keyCode = 407 then Some NYX_KEYS_CUSTOM_KEY_MEDIA_NEXT
      else if keyCode = 412 then Some NYX_KEYS_CUSTOM_KEY_MEDIA_PREVIOUS
      else if keyCode = 217 then Some NYX_KEYS_CUSTOM_KEY_SEARCH
      else if keyCode = 224 then Some NYX_KEYS_CUSTOM_KEY_BRIGHTNESS_DOWN
      else if keyCode = 225 then Some NYX_KEYS_CUSTOM_KEY_BRIGHTNESS_UP
      else if keyCode = 113 then Some NYX_KEYS_CUSTOM_KEY_VOL_MUTE
      else if keyCode = 168 then Some NYX_KEYS_CUSTOM_KEY_MEDIA_REWIND
      else if keyCode = 208 then Some NYX_KEYS_CUSTOM_KEY_MEDIA_FASTFORWARD
      else None)"

definition KEY_LEFTSHIFT :: u16 where
  "KEY_LEFTSHIFT = 42"

definition lookup_key :: "keys_lib \<Rightarrow> u16 \<Rightarrow> key_type \<Rightarrow> int \<times> key_type" where
  "lookup_key lib keyCode key_type_out =
     (let (key, ty) = (case custom_key_of keyCode of
            Some c \<Rightarrow> (custom_code lib c, NYX_KEY_TYPE_CUSTOM)
          | None \<Rightarrow> (0, key_type_out)) in
      if ty \<noteq> NYX_KEY_TYPE_CUSTOM
      then (if keyCode = KEY_LEFTSHIFT then uint KEY_LEFTSHIFT else uint keyCode, ty)
      else (key, ty))"

section \<open>Reading\<close>

text \<open>
  One answer of read: the number of bytes (-1 for an error), whether errno is EINTR, and the
  array afterwards.
\<close>

type_synonym read_answer = "int \<times> bool \<times> raw_key list"

text \<open>
  The loop of \<open>read_input_event\<close>, which may not end; \<open>answers n\<close> is the answer of the n-th read.
\<close>

partial_function (option) read_loop ::
  "(nat \<Rightarrow> read_answer) \<Rightarrow> nat \<Rightarrow> (int \<times> raw_key list) option" where
  "read_loop answers n =
     (case answers n of (rd, eintr, buf) \<Rightarrow>
        if 0 < rd then Some (rd div sizeof_InputEvent, buf)
        else if rd < 0 \<and> \<not> eintr then Some (-1, buf)
        else read_loop answers (Suc n))"

record keys_io =
  k_poll_ret :: int
  k_pollin :: bool
  k_answers :: "nat \<Rightarrow> read_answer"
  k_mem :: bool

text \<open>\<open>pEvents\<close> may be NULL.\<close>

definition keys_read_input_event ::
  "keys_io \<Rightarrow> raw_key list option \<Rightarrow> (int \<times> raw_key list option) option" where
  "keys_read_input_event io pEvents =
     (case pEvents of
        None \<Rightarrow> Some (-1, None)
      | Some a \<Rightarrow>
          if k_poll_ret io \<le> 0 then Some (0, Some a)
          else if k_pollin io then do {
            (n, a') \<leftarrow> read_loop (k_answers io) 0;
            Some (n, Some a') }
          else Some (0, Some a))"

section \<open>Getting events\<close>

text \<open>
  The loop: \<open>n\<close> entries are left. The result is the generated event, if any, the device's
  current event and the new \<open>event_iter\<close>. \<open>None\<close>: the current event is NULL and is written to,
  or the array ends too early.
\<close>

fun keys_loop ::
  "keys_lib \<Rightarrow> raw_key list \<Rightarrow> nat \<Rightarrow> nat \<Rightarrow> keys_event option \<Rightarrow>
   (keys_event option \<times> keys_event option \<times> nat) option" where
  "keys_loop lib raw 0 iter current = Some (None, current, iter)"
| "keys_loop lib raw (Suc n) iter current = do {
     ev \<leftarrow> arr_get raw (int iter);
     if k_type ev = EV_KEY then do {
       c \<leftarrow> current;
       let (key, ty) = lookup_key lib (k_code ev) NYX_KEY_TYPE_STANDARD;
       Some (Some (c\<lparr>key_type := ty, ke_key := key, key_is_press := (k_value ev \<noteq> 0),
                     key_is_auto_repeat := (1 < k_value ev)\<rparr>), None, Suc iter) }
     else keys_loop lib raw n (Suc iter) current }"

text \<open>
  The second result is what is written to \<open>*e\<close>; nothing is written when it is \<open>None\<close>.
\<close>

definition keys_get_event ::
  "keys_lib \<Rightarrow> keys_io \<Rightarrow> keys \<Rightarrow> (nyx_error \<times> keys_event option \<times> keys) option" where
  "keys_get_event lib io s = do {
     s1 \<leftarrow> (if event_iter s = 0 then do {
              (n, buf) \<leftarrow> keys_read_input_event io (Some (raw_events s));
              a \<leftarrow> buf;
              Some (s\<lparr>event_count := n, raw_events := a, keys_current := None\<rparr>) }
            else Some s);
     let current = (if keys_current s1 = None then keys_event_create lib (k_mem io)
                    else keys_current s1);
     (gen, current', iter) \<leftarrow>
       keys_loop lib (raw_events s1) (nat (event_count s1) - event_iter s1) (event_iter s1) current;
     Some (NYX_ERROR_NONE, gen,
           s1\<lparr>keys_current := current',
              event_iter := (if event_count s1 \<le> int iter then 0 else iter)\<rparr>) }"

end
