(* ===== verification/Keys_Properties.thy ===== *)
theory Keys_Properties
  imports Keys
begin

text \<open>
  The key module hands out the key events of a batch one by one, in order and without losing
  any; and when reading a batch returns at all.
\<close>

section \<open>The interface: a source of batches\<close>

text \<open>
  A batch is a list of raw entries of which some translate to an event. \<open>call\<close> takes the entries
  up to and including the first that translates.
\<close>

definition first_event :: "('x \<Rightarrow> 'e option) \<Rightarrow> 'x list \<Rightarrow> 'e option" where
  "first_event tr xs = (case dropWhile (\<lambda>x. tr x = None) xs of [] \<Rightarrow> None | x # _ \<Rightarrow> tr x)"

definition after_first :: "('x \<Rightarrow> 'e option) \<Rightarrow> 'x list \<Rightarrow> 'x list" where
  "after_first tr xs = tl (dropWhile (\<lambda>x. tr x = None) xs)"

lemma first_event_Cons [simp]:
  "first_event tr (x # xs) = (case tr x of None \<Rightarrow> first_event tr xs | Some e \<Rightarrow> Some e)"
  by (simp add: first_event_def split: option.split)

lemma after_first_Cons [simp]:
  "after_first tr (x # xs) = (case tr x of None \<Rightarrow> after_first tr xs | Some e \<Rightarrow> xs)"
  by (simp add: after_first_def split: option.split)

lemma first_event_Nil [simp]: "first_event tr [] = None" "after_first tr [] = []"
  by (simp_all add: first_event_def after_first_def)

lemma length_after_first: "length (after_first tr xs) \<le> length xs - 1"
  unfolding after_first_def using length_dropWhile_le [of "\<lambda>x. tr x = None" xs] by simp

lemma map_filter_first:
  "List.map_filter tr xs = option_list (first_event tr xs) @ List.map_filter tr (after_first tr xs)"
  by (induction xs) (simp_all add: map_filter_simps split: option.split)

locale batch_source =
  fixes pending :: "'s \<Rightarrow> 'x list"
    and call :: "'s \<Rightarrow> ('e option \<times> 's) option"
    and translate :: "'x \<Rightarrow> 'e option"
    and ready :: "'s \<Rightarrow> bool"
  assumes call_step: "ready s \<Longrightarrow> pending s \<noteq> [] \<Longrightarrow>
      \<exists>s'. call s = Some (first_event translate (pending s), s') \<and> ready s' \<and>
           pending s' = after_first translate (pending s)"
begin

fun drain :: "nat \<Rightarrow> 's \<Rightarrow> ('e list \<times> 's) option" where
  "drain 0 s = Some ([], s)"
| "drain (Suc n) s =
     (if pending s = [] then Some ([], s)
      else do {
        (e, s1) \<leftarrow> call s;
        (es, s2) \<leftarrow> drain n s1;
        Some (option_list e @ es, s2) })"

text \<open>As many calls as there are entries hand out everything, in order.\<close>

lemma drain_all:
  "ready s \<Longrightarrow> length (pending s) \<le> n \<Longrightarrow>
   \<exists>s'. drain n s = Some (List.map_filter translate (pending s), s') \<and> ready s' \<and> pending s' = []"
proof (induction n arbitrary: s)
  case 0
  then show ?case by (simp add: map_filter_simps)
next
  case (Suc n)
  show ?case
  proof (cases "pending s = []")
    case True
    with Suc.prems show ?thesis by (simp add: map_filter_simps)
  next
    case False
    from call_step [OF Suc.prems(1) False] obtain s1 where
      s1: "call s = Some (first_event translate (pending s), s1)" "ready s1"
        "pending s1 = after_first translate (pending s)" by blast
    have "length (pending s1) \<le> n"
      using Suc.prems(2) length_after_first [of translate "pending s"] by (simp add: s1(3))
    from Suc.IH [OF s1(2) this] obtain s2 where
      "drain n s1 = Some (List.map_filter translate (pending s1), s2)" "ready s2" "pending s2 = []"
      by blast
    with s1 False map_filter_first [of translate "pending s"] show ?thesis by simp
  qed
qed

end

section \<open>The key module is one\<close>

definition translate_key :: "keys_lib \<Rightarrow> raw_key \<Rightarrow> keys_event option" where
  "translate_key lib ev =
     (if k_type ev = EV_KEY
      then Some \<lparr>key_type = snd (lookup_key lib (k_code ev) NYX_KEY_TYPE_STANDARD),
                 ke_key = fst (lookup_key lib (k_code ev) NYX_KEY_TYPE_STANDARD),
                 key_is_press = (k_value ev \<noteq> 0), key_is_auto_repeat = (1 < k_value ev)\<rparr>
      else None)"

text \<open>The loop hands out the first key event of the entries that are left.\<close>

lemma keys_loop_first:
  assumes "iter + n \<le> length raw"
  shows "\<exists>cur iter'. keys_loop lib raw n iter (Some c) =
      Some (first_event (translate_key lib) (take n (drop iter raw)), cur, iter') \<and>
     iter \<le> iter' \<and> iter' \<le> iter + n \<and>
     take (iter + n - iter') (drop iter' raw) = after_first (translate_key lib) (take n (drop iter raw))"
  using assms
proof (induction n arbitrary: iter)
  case (Suc n)
  then have split: "take (Suc n) (drop iter raw) = raw ! iter # take n (drop (Suc iter) raw)"
    by (metis Cons_nth_drop_Suc Suc_le_lessD add_Suc_right le_add1 le_trans not_less_eq_eq take_Suc_Cons)
  have get: "arr_get raw (int iter) = Some (raw ! iter)" using Suc.prems by (simp add: arr_get_nat)
  show ?case
  proof (cases "k_type (raw ! iter) = EV_KEY")
    case True
    then show ?thesis using Suc.prems
      by (auto simp: get split translate_key_def case_prod_beta Let_def intro!: exI [of _ "Suc iter"])
  next
    case False
    from Suc.IH [of "Suc iter"] Suc.prems obtain cur iter' where
      "keys_loop lib raw n (Suc iter) (Some c) =
         Some (first_event (translate_key lib) (take n (drop (Suc iter) raw)), cur, iter')"
      "Suc iter \<le> iter'" "iter' \<le> Suc iter + n"
      "take (Suc iter + n - iter') (drop iter' raw)
         = after_first (translate_key lib) (take n (drop (Suc iter) raw))"
      by auto
    moreover have "translate_key lib (raw ! iter) = None" using False by (simp add: translate_key_def)
    ultimately show ?thesis using False by (auto simp: get split)
  qed
qed simp

definition keys_pending :: "keys \<Rightarrow> raw_key list" where
  "keys_pending s =
     (if event_iter s = 0 then []
      else take (nat (event_count s) - event_iter s) (drop (event_iter s) (raw_events s)))"

definition keys_ready :: "keys \<Rightarrow> bool" where
  "keys_ready s \<longleftrightarrow> nat (event_count s) \<le> length (raw_events s) \<and> (event_iter s = 0 \<or> int (event_iter s) < event_count s)"

text \<open>A call when no reading is needed: only calloc matters.\<close>

definition no_input :: keys_io where
  "no_input = \<lparr>k_poll_ret = 0, k_pollin = False, k_answers = (\<lambda>_. (-1, False, [])), k_mem = True\<rparr>"

definition keys_call :: "keys_lib \<Rightarrow> keys \<Rightarrow> (keys_event option \<times> keys) option" where
  "keys_call lib s = map_option snd (keys_get_event lib no_input s)"

text \<open>What one call does with the entries from \<open>event_iter\<close> on.\<close>

lemma keys_serve:
  assumes "nat (event_count s1) \<le> length (raw_events s1)" "int (event_iter s1) \<le> max 0 (event_count s1)"
  defines "evs \<equiv> take (nat (event_count s1) - event_iter s1) (drop (event_iter s1) (raw_events s1))"
  shows "\<exists>cur iter.
     keys_loop lib (raw_events s1) (nat (event_count s1) - event_iter s1) (event_iter s1) (Some c)
       = Some (first_event (translate_key lib) evs, cur, iter) \<and>
     keys_ready (s1\<lparr>keys_current := cur, event_iter := (if event_count s1 \<le> int iter then 0 else iter)\<rparr>) \<and>
     keys_pending (s1\<lparr>keys_current := cur, event_iter := (if event_count s1 \<le> int iter then 0 else iter)\<rparr>)
       = after_first (translate_key lib) evs"
proof -
  have le: "event_iter s1 \<le> nat (event_count s1)" using assms(2) by (simp add: max_def split: if_splits)
  then have "event_iter s1 + (nat (event_count s1) - event_iter s1) \<le> length (raw_events s1)"
    using assms(1) by simp
  from keys_loop_first [OF this, of lib c] obtain cur iter where
    l: "keys_loop lib (raw_events s1) (nat (event_count s1) - event_iter s1) (event_iter s1) (Some c)
       = Some (first_event (translate_key lib) evs, cur, iter)"
      "event_iter s1 \<le> iter" "iter \<le> nat (event_count s1)"
      "take (nat (event_count s1) - iter) (drop iter (raw_events s1)) = after_first (translate_key lib) evs"
    using le by (auto simp: evs_def)
  show ?thesis
  proof (cases "event_count s1 \<le> int iter")
    case True
    then have "nat (event_count s1) - iter = 0" by simp
    with l(4) have "after_first (translate_key lib) evs = []" by simp
    with True l(1) assms(1) show ?thesis by (auto simp: keys_ready_def keys_pending_def)
  next
    case False
    have "iter = 0 \<Longrightarrow> after_first (translate_key lib) evs = []"
    proof -
      assume "iter = 0"
      then have "event_iter s1 = 0" using l(2) by simp
      then have "length evs = nat (event_count s1)" using assms(1) by (simp add: evs_def)
      moreover have "length (after_first (translate_key lib) evs) = nat (event_count s1)"
        using l(4) \<open>iter = 0\<close> assms(1) by (metis diff_zero drop0 length_take min.absorb2)
      ultimately show ?thesis using length_after_first [of "translate_key lib" evs] by auto
    qed
    with False l assms(1) show ?thesis by (auto simp: keys_ready_def keys_pending_def)
  qed
qed

interpretation keys_source: batch_source keys_pending "keys_call lib" "translate_key lib" keys_ready
  for lib
proof (unfold_locales, goal_cases)
  case (1 s)
  then have it: "event_iter s \<noteq> 0" by (auto simp: keys_pending_def split: if_splits)
  obtain c where c: "(if keys_current s = None then keys_event_create lib True else keys_current s) = Some c"
    by (cases "keys_current s") (auto simp: keys_event_create_def)
  have "int (event_iter s) \<le> max 0 (event_count s)" using 1(1) it by (simp add: keys_ready_def)
  with keys_serve [of s lib c] 1(1) it c show ?case
    by (auto simp: keys_call_def keys_get_event_def no_input_def keys_ready_def keys_pending_def)
qed

section \<open>Reading a batch\<close>

text \<open>An answer that ends the loop, and what the loop makes of it.\<close>

definition decisive :: "read_answer \<Rightarrow> bool" where
  "decisive = (\<lambda>(rd, eintr, buf). 0 < rd \<or> rd < 0 \<and> \<not> eintr)"

definition read_result :: "read_answer \<Rightarrow> int \<times> raw_key list" where
  "read_result = (\<lambda>(rd, eintr, buf). (if 0 < rd then rd div sizeof_InputEvent else -1, buf))"

lemma read_loop_step:
  "read_loop answers n =
     (if decisive (answers n) then Some (read_result (answers n)) else read_loop answers (Suc n))"
  by (subst read_loop.simps) (auto simp: decisive_def read_result_def split: prod.split)

lemma read_loop_finds:
  "decisive (answers (n + k)) \<Longrightarrow> (\<And>j. j < k \<Longrightarrow> \<not> decisive (answers (n + j))) \<Longrightarrow>
   read_loop answers n = Some (read_result (answers (n + k)))"
proof (induction k arbitrary: n)
  case 0
  then show ?case by (simp add: read_loop_step)
next
  case (Suc k)
  have "\<not> decisive (answers n)" using Suc.prems(2) [of 0] by simp
  moreover have "read_loop answers (Suc n) = Some (read_result (answers (Suc n + k)))"
    using Suc.prems(1) Suc.prems(2) [of "Suc _"] by (intro Suc.IH) simp_all
  ultimately show ?case by (simp add: read_loop_step [of answers n])
qed

lemma read_loop_decisive: "read_loop answers n = Some r \<Longrightarrow> \<exists>m \<ge> n. decisive (answers m)"
proof (induction rule: read_loop.raw_induct [rotated, consumes 1])
  case (1 f answers n r)
  show ?case
  proof (cases "decisive (answers n)")
    case False
    with 1(2) have "f answers (Suc n) = Some r"
      by (auto simp: decisive_def split: prod.splits if_splits)
    with 1(1) show ?thesis using Suc_leD by blast
  qed blast
qed

lemma read_loop_first:
  assumes "decisive (answers m)" "n \<le> m"
  shows "\<exists>k. read_loop answers n = Some (read_result (answers (n + k))) \<and> decisive (answers (n + k)) \<and>
    (\<forall>j < k. \<not> decisive (answers (n + j)))"
proof -
  define k where "k = (LEAST k. decisive (answers (n + k)))"
  have "decisive (answers (n + (m - n)))" using assms by simp
  then have k: "decisive (answers (n + k))" unfolding k_def by (rule LeastI)
  have "\<not> decisive (answers (n + j))" if "j < k" for j
    using that not_less_Least unfolding k_def by blast
  with k show ?thesis using read_loop_finds [of answers n k] by blast
qed

section \<open>The properties\<close>

text \<open>\<open>keys_get_event\<close> until a batch has been handed out.\<close>

fun keys_drain :: "keys_lib \<Rightarrow> nat \<Rightarrow> keys \<Rightarrow> (keys_event list \<times> keys) option" where
  "keys_drain lib 0 s = Some ([], s)"
| "keys_drain lib (Suc n) s =
     (if keys_pending s = [] then Some ([], s)
      else do {
        (e, s1) \<leftarrow> keys_call lib s;
        (es, s2) \<leftarrow> keys_drain lib n s1;
        Some (option_list e @ es, s2) })"

lemma keys_drain_eq: "keys_drain lib n s = batch_source.drain keys_pending (keys_call lib) n s"
proof (induction n arbitrary: s)
  case (Suc n)
  then have "keys_drain lib n = batch_source.drain keys_pending (keys_call lib) n" by (rule ext)
  then show ?case by simp
qed simp

lemmas keys_drain_all = keys_source.drain_all [folded keys_drain_eq]

text \<open>The read that fills the array of 64 events.\<close>

definition batch_ready :: "keys_io \<Rightarrow> nat \<Rightarrow> raw_key list \<Rightarrow> bool" where
  "batch_ready io n buf \<longleftrightarrow> 0 < k_poll_ret io \<and> k_pollin io \<and> k_mem io \<and>
     read_loop (k_answers io) 0 = Some (int n, buf) \<and> n \<le> length buf"

text \<open>
  The key module hands out a batch completely and in order: the call that reads it, and then
  one call per entry until none is left, give exactly the translations of its EV_KEY entries,
  one event per call, and leave the module ready to read the next batch.
\<close>

theorem keys_batch_in_order:
  assumes "event_iter s = 0" "batch_ready io n buf"
  shows "\<exists>e s1 es s2. keys_get_event lib io s = Some (NYX_ERROR_NONE, e, s1) \<and>
     keys_drain lib n s1 = Some (es, s2) \<and>
     option_list e @ es = List.map_filter (translate_key lib) (take n buf) \<and>
     event_iter s2 = 0"
proof -
  let ?s = "s\<lparr>event_count := int n, raw_events := buf, keys_current := None\<rparr>"
  obtain c where c: "keys_event_create lib True = Some c" by (simp add: keys_event_create_def)
  from keys_serve [of ?s lib c] assms obtain cur iter where
    l: "keys_loop lib buf n 0 (Some c) = Some (first_event (translate_key lib) (take n buf), cur, iter)"
    and s1: "keys_ready (?s\<lparr>keys_current := cur, event_iter := (if int n \<le> int iter then 0 else iter)\<rparr>)"
      "keys_pending (?s\<lparr>keys_current := cur, event_iter := (if int n \<le> int iter then 0 else iter)\<rparr>)
         = after_first (translate_key lib) (take n buf)"
    by (auto simp: batch_ready_def)
  let ?s1 = "?s\<lparr>keys_current := cur, event_iter := (if int n \<le> int iter then 0 else iter)\<rparr>"
  have call: "keys_get_event lib io s
      = Some (NYX_ERROR_NONE, first_event (translate_key lib) (take n buf), ?s1)"
    using assms l c by (simp add: keys_get_event_def keys_read_input_event_def batch_ready_def)
  have "length (keys_pending ?s1) \<le> n"
    using s1(2) length_after_first [of "translate_key lib" "take n buf"] by simp
  from keys_drain_all [OF s1(1) this] obtain s2 where
    d: "keys_drain lib n ?s1 = Some (List.map_filter (translate_key lib) (keys_pending ?s1), s2)"
      "keys_ready s2" "keys_pending s2 = []" by blast
  have "event_iter s2 = 0"
    using d(2,3) by (auto simp: keys_pending_def keys_ready_def split: if_splits)
  then show ?thesis
    using call d(1) s1(2) map_filter_first [of "translate_key lib" "take n buf"] by auto
qed

definition ex_keys_lib :: keys_lib where
  "ex_keys_lib = \<lparr>custom_code = (\<lambda>_. 1), zero_key_type = NYX_KEY_TYPE_STANDARD\<rparr>"

definition ex_batch :: "raw_key list" where
  "ex_batch = [\<lparr>k_type = 1, k_code = 30, k_value = 1\<rparr>, \<lparr>k_type = 0, k_code = 0, k_value = 0\<rparr>,
     \<lparr>k_type = 1, k_code = 102, k_value = 0\<rparr>] @ replicate 61 zero_raw_key"

definition ex_keys_io :: keys_io where
  "ex_keys_io = \<lparr>k_poll_ret = 1, k_pollin = True,
     k_answers = (\<lambda>n. if n = 0 then (-1, True, ex_batch) else (72, False, ex_batch)), k_mem = True\<rparr>"

theorem keys_batch_in_order_witness:
  "\<exists>e s1 es s2. keys_get_event ex_keys_lib ex_keys_io keys_start = Some (NYX_ERROR_NONE, e, s1) \<and>
     keys_drain ex_keys_lib 3 s1 = Some (es, s2) \<and>
     option_list e @ es =
       [\<lparr>key_type = NYX_KEY_TYPE_STANDARD, ke_key = 30, key_is_press = True, key_is_auto_repeat = False\<rparr>,
        \<lparr>key_type = NYX_KEY_TYPE_CUSTOM, ke_key = 1, key_is_press = False, key_is_auto_repeat = False\<rparr>]"
proof -
  have "read_loop (k_answers ex_keys_io) 0 = Some (3, ex_batch)"
    by (simp add: read_loop_step [of _ 0] read_loop_step [of _ "Suc 0"] decisive_def read_result_def
        ex_keys_io_def sizeof_InputEvent_def signed_divide_int_def)
  then have "batch_ready ex_keys_io 3 ex_batch"
    by (simp add: batch_ready_def ex_keys_io_def) (simp add: ex_batch_def)
  moreover have "event_iter keys_start = 0" by (simp add: keys_start_def)
  moreover have "List.map_filter (translate_key ex_keys_lib) (take 3 ex_batch) =
      [\<lparr>key_type = NYX_KEY_TYPE_STANDARD, ke_key = 30, key_is_press = True, key_is_auto_repeat = False\<rparr>,
       \<lparr>key_type = NYX_KEY_TYPE_CUSTOM, ke_key = 1, key_is_press = False, key_is_auto_repeat = False\<rparr>]"
    by (simp add: ex_batch_def map_filter_simps translate_key_def EV_KEY_def lookup_key_def
        custom_key_of_def KEY_LEFTSHIFT_def ex_keys_lib_def)
  ultimately show ?thesis using keys_batch_in_order [of keys_start ex_keys_io 3 ex_batch ex_keys_lib]
    by auto
qed

text \<open>
  C15: Reading returns exactly when some read eventually gives data or fails for another reason
  than a signal; its result is that of the first such read. A read that gives 0 bytes (the end
  of the file, for instance an unplugged keypad) is repeated: if reads only do that, the call
  never returns.
\<close>

theorem keys_read_returns:
  "(read_loop answers 0 \<noteq> None \<longleftrightarrow> (\<exists>m. decisive (answers m))) \<and>
   (\<forall>r. read_loop answers 0 = Some r \<longrightarrow>
      (\<exists>k. decisive (answers k) \<and> (\<forall>j < k. \<not> decisive (answers j)) \<and> r = read_result (answers k))) \<and>
   ((\<forall>m. fst (answers m) = 0) \<longrightarrow> read_loop answers 0 = None)"
proof -
  have first: "\<exists>k. read_loop answers 0 = Some (read_result (answers k)) \<and> decisive (answers k) \<and>
      (\<forall>j < k. \<not> decisive (answers j))" if "decisive (answers m)" for m
    using read_loop_first [of answers m 0] that by simp
  have dec: "\<exists>m. decisive (answers m)" if "read_loop answers 0 = Some r" for r
    using read_loop_decisive [OF that] by blast
  have zero: "\<not> decisive (answers m)" if "\<forall>m. fst (answers m) = 0" for m
    using that by (auto simp: decisive_def split: prod.split) (metis fst_conv less_irrefl)+
  have "read_loop answers 0 \<noteq> None \<longleftrightarrow> (\<exists>m. decisive (answers m))"
    using first dec by blast
  moreover have "\<exists>k. decisive (answers k) \<and> (\<forall>j < k. \<not> decisive (answers j)) \<and> r = read_result (answers k)"
    if r: "read_loop answers 0 = Some r" for r
  proof -
    obtain m where "decisive (answers m)" using dec [OF r] by blast
    from first [OF this] r show ?thesis by auto
  qed
  moreover have "read_loop answers 0 = None" if "\<forall>m. fst (answers m) = 0"
    using dec zero [OF that] by (cases "read_loop answers 0") blast+
  ultimately show ?thesis by blast
qed

theorem keys_read_returns_witness:
  "read_loop (\<lambda>_. (0, False, [])) 0 = None"
  using keys_read_returns [of "\<lambda>_. (0, False, [])"] by simp

text \<open>
  A batch without key events: the call returns NYX_ERROR_NONE but stores nothing in \<open>*e\<close>
  (the caller's old pointer stays), and the whole batch is used up.
\<close>

theorem keys_no_key_event:
  assumes "event_iter s = 0" "batch_ready io n buf" "\<forall>ev \<in> set (take n buf). k_type ev \<noteq> EV_KEY"
  shows "\<exists>s1. keys_get_event lib io s = Some (NYX_ERROR_NONE, None, s1) \<and> event_iter s1 = 0"
proof -
  have "\<forall>ev \<in> set (take n buf). translate_key lib ev = None"
    using assms(3) by (simp add: translate_key_def)
  then have dw: "dropWhile (\<lambda>x. translate_key lib x = None) (take n buf) = []" by simp
  have none: "first_event (translate_key lib) (take n buf) = None"
    "after_first (translate_key lib) (take n buf) = []"
    unfolding first_event_def after_first_def dw by simp_all
  let ?s = "s\<lparr>event_count := int n, raw_events := buf, keys_current := None\<rparr>"
  obtain c where c: "keys_event_create lib True = Some c" by (simp add: keys_event_create_def)
  from keys_serve [of ?s lib c] assms none obtain cur iter where
    l: "keys_loop lib buf n 0 (Some c) = Some (None, cur, iter)"
    and s1: "keys_ready (?s\<lparr>keys_current := cur, event_iter := (if int n \<le> int iter then 0 else iter)\<rparr>)"
      "keys_pending (?s\<lparr>keys_current := cur, event_iter := (if int n \<le> int iter then 0 else iter)\<rparr>) = []"
    by (auto simp: batch_ready_def)
  have "(if int n \<le> int iter then 0 else iter) = 0"
    using s1 by (auto simp: keys_pending_def keys_ready_def split: if_splits)
  then show ?thesis
    using assms l c by (simp add: keys_get_event_def keys_read_input_event_def batch_ready_def)
qed

theorem keys_no_key_event_witness:
  "\<exists>s1. keys_get_event ex_keys_lib (ex_keys_io\<lparr>k_answers := (\<lambda>_. (24, False, [zero_raw_key]))\<rparr>) keys_start
     = Some (NYX_ERROR_NONE, None, s1) \<and> event_iter s1 = 0"
proof -
  let ?io = "ex_keys_io\<lparr>k_answers := (\<lambda>_. (24, False, [zero_raw_key]))\<rparr>"
  have "batch_ready ?io 1 [zero_raw_key]"
    by (simp add: batch_ready_def ex_keys_io_def read_loop_step [of _ 0] decisive_def read_result_def
        sizeof_InputEvent_def signed_divide_int_def)
  moreover have "event_iter keys_start = 0" by (simp add: keys_start_def)
  ultimately show ?thesis
    using keys_no_key_event [of keys_start ?io 1 "[zero_raw_key]" ex_keys_lib]
    by (simp add: zero_raw_key_def EV_KEY_def)
qed

text \<open>
  \<open>lookup_key\<close> called for a standard key: the fifteen custom codes are translated, to
  different custom keys, and every other code is the key itself.
\<close>

theorem keys_lookup:
  "(case custom_key_of code of
      Some c \<Rightarrow> lookup_key lib code NYX_KEY_TYPE_STANDARD = (custom_code lib c, NYX_KEY_TYPE_CUSTOM)
    | None \<Rightarrow> lookup_key lib code NYX_KEY_TYPE_STANDARD = (uint code, NYX_KEY_TYPE_STANDARD)) \<and>
   (custom_key_of code \<noteq> None \<and> custom_key_of code = custom_key_of code' \<longrightarrow> code = code') \<and>
   (\<forall>c. \<exists>k. custom_key_of k = Some c)"
proof (intro conjI)
  show "custom_key_of code \<noteq> None \<and> custom_key_of code = custom_key_of code' \<longrightarrow> code = code'"
    by (simp add: custom_key_of_def)
  have "custom_key_of 102 = Some NYX_KEYS_CUSTOM_KEY_HOME"
    "custom_key_of 115 = Some NYX_KEYS_CUSTOM_KEY_VOL_UP"
    "custom_key_of 114 = Some NYX_KEYS_CUSTOM_KEY_VOL_DOWN"
    "custom_key_of 107 = Some NYX_KEYS_CUSTOM_KEY_POWER_ON"
    "custom_key_of 207 = Some NYX_KEYS_CUSTOM_KEY_MEDIA_PLAY"
    "custom_key_of 119 = Some NYX_KEYS_CUSTOM_KEY_MEDIA_PAUSE"
    "custom_key_of 128 = Some NYX_KEYS_CUSTOM_KEY_MEDIA_STOP"
    "custom_key_of 407 = Some NYX_KEYS_CUSTOM_KEY_MEDIA_NEXT"
    "custom_key_of 412 = Some NYX_KEYS_CUSTOM_KEY_MEDIA_PREVIOUS"
    "custom_key_of 217 = Some NYX_KEYS_CUSTOM_KEY_SEARCH"
    "custom_key_of 224 = Some NYX_KEYS_CUSTOM_KEY_BRIGHTNESS_DOWN"
    "custom_key_of 225 = Some NYX_KEYS_CUSTOM_KEY_BRIGHTNESS_UP"
    "custom_key_of 113 = Some NYX_KEYS_CUSTOM_KEY_VOL_MUTE"
    "custom_key_of 168 = Some NYX_KEYS_CUSTOM_KEY_MEDIA_REWIND"
    "custom_key_of 208 = Some NYX_KEYS_CUSTOM_KEY_MEDIA_FASTFORWARD"
    by (simp_all add: custom_key_of_def)
  then have "\<exists>k. custom_key_of k = Some c" for c by (cases c) blast+
  then show "\<forall>c. \<exists>k. custom_key_of k = Some c" by blast
qed (simp add: lookup_key_def KEY_LEFTSHIFT_def split: option.split)

theorem keys_lookup_witness: "custom_key_of 102 \<noteq> custom_key_of 115"
  using keys_lookup [where code = 102 and code' = 115 and lib = ex_keys_lib] by (simp add: custom_key_of_def)

end
