(* ===== verification/Keys_Liveness.thy ===== *)
theory Keys_Liveness
  imports Keys_Properties
begin

text \<open>
  Progress of the key module: a client that keeps calling gets every key event that is ever read,
  however the batches come in, with empty polls and failed reads between them.
\<close>

section \<open>Calls\<close>

text \<open>
  A call with memory for an event. Where it has to read, poll finds nothing or the read loop ends
  with \<open>n\<close> events in \<open>buf\<close> (none when it fails).
\<close>

definition delivers :: "keys_io \<Rightarrow> nat \<Rightarrow> raw_key list \<Rightarrow> bool" where
  "delivers io n buf \<longleftrightarrow> k_mem io \<and>
     ((k_poll_ret io \<le> 0 \<or> \<not> k_pollin io) \<and> n = 0 \<or>
      0 < k_poll_ret io \<and> k_pollin io \<and>
        (\<exists>c. read_loop (k_answers io) 0 = Some (c, buf) \<and> n = nat c \<and> n \<le> length buf))"

lemma delivers_read:
  assumes "delivers io n buf"
  obtains c a where "keys_read_input_event io (Some raw) = Some (c, Some a)" and "nat c = n"
    and "n \<le> length a" and "take n a = take n buf"
proof (cases "k_poll_ret io \<le> 0 \<or> \<not> k_pollin io")
  case True
  with assms that [of 0 raw] show ?thesis by (auto simp: delivers_def keys_read_input_event_def)
next
  case False
  with assms obtain c where "read_loop (k_answers io) 0 = Some (c, buf)" "n = nat c" "n \<le> length buf"
    by (auto simp: delivers_def)
  with False that [of c buf] show ?thesis by (simp add: keys_read_input_event_def)
qed

lemma created: "(if keys_current s = None then keys_event_create lib True else keys_current s) \<noteq> None"
  by (simp add: keys_event_create_def)

text \<open>The call that reads hands out the first event of the batch and keeps the rest.\<close>

lemma call_reads:
  assumes "event_iter s = 0" and "delivers io n buf"
  shows "\<exists>s1. keys_get_event lib io s = Some (NYX_ERROR_NONE, first_event (translate_key lib) (take n buf), s1) \<and>
    keys_ready s1 \<and> keys_pending s1 = after_first (translate_key lib) (take n buf)"
proof -
  obtain c a where r: "keys_read_input_event io (Some (raw_events s)) = Some (c, Some a)" "nat c = n"
    "n \<le> length a" "take n a = take n buf" by (rule delivers_read [OF assms(2)])
  let ?s = "s\<lparr>event_count := c, raw_events := a, keys_current := None\<rparr>"
  obtain e where e: "keys_event_create lib True = Some e" by (simp add: keys_event_create_def)
  have "k_mem io" using assms(2) by (simp add: delivers_def)
  with keys_serve [of ?s lib e] r assms(1) e show ?thesis
    by (auto simp: keys_get_event_def)
qed

text \<open>A call while events are left does not read.\<close>

lemma call_serves:
  assumes "keys_ready s" and "event_iter s \<noteq> 0" and "k_mem io"
  shows "\<exists>s1. keys_get_event lib io s = Some (NYX_ERROR_NONE, first_event (translate_key lib) (keys_pending s), s1) \<and>
    keys_ready s1 \<and> keys_pending s1 = after_first (translate_key lib) (keys_pending s)"
proof -
  obtain c where c: "(if keys_current s = None then keys_event_create lib True else keys_current s) = Some c"
    using created [of s lib] by blast
  have le: "nat (event_count s) \<le> length (raw_events s)" "int (event_iter s) \<le> max 0 (event_count s)"
    using assms(1,2) by (simp_all add: keys_ready_def)
  have p: "keys_pending s = take (nat (event_count s) - event_iter s) (drop (event_iter s) (raw_events s))"
    using assms(2) by (simp add: keys_pending_def)
  obtain cur iter where "keys_loop lib (raw_events s) (nat (event_count s) - event_iter s) (event_iter s) (Some c) =
      Some (first_event (translate_key lib) (keys_pending s), cur, iter)"
    "keys_ready (s\<lparr>keys_current := cur, event_iter := (if event_count s \<le> int iter then 0 else iter)\<rparr>)"
    "keys_pending (s\<lparr>keys_current := cur, event_iter := (if event_count s \<le> int iter then 0 else iter)\<rparr>) =
      after_first (translate_key lib) (keys_pending s)"
    using keys_serve [OF le, of lib c] unfolding p by blast
  with assms(2,3) c show ?thesis by (cases "keys_current s") (simp_all add: keys_get_event_def)
qed

lemma ready_pending: "keys_ready s \<Longrightarrow> event_iter s = 0 \<longleftrightarrow> keys_pending s = []"
  by (auto simp: keys_ready_def keys_pending_def)

section \<open>A client\<close>

text \<open>
  \<open>n\<close> calls from the \<open>k\<close>-th reading on, where \<open>B k\<close> is what poll and the reads answer then. The
  result has the events and the number of readings.
\<close>

fun keys_client ::
  "keys_lib \<Rightarrow> (nat \<Rightarrow> keys_io) \<Rightarrow> nat \<Rightarrow> nat \<Rightarrow> keys \<Rightarrow> (keys_event list \<times> nat \<times> keys) option" where
  "keys_client lib B 0 k s = Some ([], k, s)"
| "keys_client lib B (Suc n) k s = do {
     (_, e, s1) \<leftarrow> keys_get_event lib (B k) s;
     (es, k', s2) \<leftarrow> keys_client lib B n (if event_iter s = 0 then Suc k else k) s1;
     Some (option_list e @ es, k', s2) }"

lemma keys_client_add:
  "keys_client lib B n k s = Some (es, k1, s1) \<Longrightarrow> keys_client lib B m k1 s1 = Some (es', k2, s2) \<Longrightarrow>
   keys_client lib B (n + m) k s = Some (es @ es', k2, s2)"
proof (induction n arbitrary: k s es)
  case (Suc n)
  from Suc.prems(1) obtain r e s0 es0 where "keys_get_event lib (B k) s = Some (r, e, s0)"
    "keys_client lib B n (if event_iter s = 0 then Suc k else k) s0 = Some (es0, k1, s1)"
    "es = option_list e @ es0"
    by (auto elim!: bind_eq_SomeE)
  with Suc.IH [OF this(2) Suc.prems(2)] show ?case by simp
qed simp

text \<open>What is left of a batch is handed out.\<close>

lemma client_rest:
  assumes mem: "\<And>k. k_mem (B k)"
  shows "keys_ready s \<Longrightarrow> length (keys_pending s) \<le> m \<Longrightarrow>
    \<exists>n s'. n \<le> m \<and> keys_client lib B n k s = Some (List.map_filter (translate_key lib) (keys_pending s), k, s') \<and>
      keys_ready s' \<and> event_iter s' = 0"
proof (induction m arbitrary: s)
  case 0
  then have "event_iter s = 0" by (simp add: ready_pending)
  with 0 show ?case by (intro exI [of _ 0]) (simp add: map_filter_simps)
next
  case (Suc m)
  show ?case
  proof (cases "event_iter s = 0")
    case True
    with Suc.prems(1) have "keys_pending s = []" by (simp add: ready_pending)
    with True Suc.prems(1) show ?thesis by (intro exI [of _ 0]) (simp add: map_filter_simps)
  next
    case False
    from call_serves [OF Suc.prems(1) this mem] obtain s1 where
      s1: "keys_get_event lib (B k) s = Some (NYX_ERROR_NONE, first_event (translate_key lib) (keys_pending s), s1)"
      "keys_ready s1" "keys_pending s1 = after_first (translate_key lib) (keys_pending s)" by blast
    have "length (keys_pending s1) \<le> m"
      using Suc.prems(2) length_after_first [of "translate_key lib" "keys_pending s"] by (simp add: s1(3))
    from Suc.IH [OF s1(2) this] obtain n s' where "n \<le> m" "keys_ready s'" "event_iter s' = 0"
      "keys_client lib B n k s1 = Some (List.map_filter (translate_key lib) (keys_pending s1), k, s')" by blast
    then show ?thesis
      using False s1 map_filter_first [of "translate_key lib" "keys_pending s"] by (intro exI [of _ "Suc n"]) auto
  qed
qed

lemma client_batch:
  assumes d: "\<And>k. delivers (B k) (len k) (buf k)" and s: "event_iter s = 0"
  shows "\<exists>n s'. n \<le> Suc (len k) \<and> event_iter s' = 0 \<and>
    keys_client lib B n k s = Some (List.map_filter (translate_key lib) (take (len k) (buf k)), Suc k, s')"
proof -
  have mem: "\<And>k. k_mem (B k)" using d by (simp add: delivers_def)
  obtain s1 where s1: "keys_get_event lib (B k) s =
      Some (NYX_ERROR_NONE, first_event (translate_key lib) (take (len k) (buf k)), s1)"
    "keys_ready s1" "keys_pending s1 = after_first (translate_key lib) (take (len k) (buf k))"
    using call_reads [OF s d] by blast
  have "length (keys_pending s1) \<le> len k"
    using length_after_first [of "translate_key lib" "take (len k) (buf k)"] by (simp add: s1(3))
  from client_rest [where B = B, OF mem s1(2) this] obtain n s' where "n \<le> len k" "event_iter s' = 0"
    "keys_client lib B n (Suc k) s1 = Some (List.map_filter (translate_key lib) (keys_pending s1), Suc k, s')" by blast
  then show ?thesis
    using s s1 map_filter_first [of "translate_key lib" "take (len k) (buf k)"] by (intro exI [of _ "Suc n"]) auto
qed

section \<open>The property\<close>

lemma client_batches:
  assumes d: "\<And>k. delivers (B k) (len k) (buf k)" and s: "event_iter s = 0"
  shows "\<exists>n s'. n \<le> (\<Sum>k < K. Suc (len k)) \<and> event_iter s' = 0 \<and>
    keys_client lib B n 0 s =
      Some (concat (map (\<lambda>k. List.map_filter (translate_key lib) (take (len k) (buf k))) [0..<K]), K, s')"
proof (induction K)
  case 0
  with s show ?case by simp
next
  case (Suc K)
  then obtain n s1 where n: "n \<le> (\<Sum>k < K. Suc (len k))" "event_iter s1 = 0" "keys_client lib B n 0 s =
      Some (concat (map (\<lambda>k. List.map_filter (translate_key lib) (take (len k) (buf k))) [0..<K]), K, s1)" by blast
  obtain m s2 where m: "m \<le> Suc (len K)" "event_iter s2 = 0"
    "keys_client lib B m K s1 = Some (List.map_filter (translate_key lib) (take (len K) (buf K)), Suc K, s2)"
    using client_batch [where B = B and len = len and buf = buf, OF d n(2)] by blast
  have "n + m \<le> (\<Sum>k < Suc K. Suc (len k))" using n(1) m(1) by simp
  with keys_client_add [OF n(3) m(3)] m(2) show ?case by (intro exI [of _ "n + m"]) auto
qed

text \<open>
  C14: Every key event is delivered in the end. The readings of a client that keeps calling bring
  batches of \<open>len k\<close> raw events, some of them empty because nothing was there or reading failed.
  Then for every number of batches there is a number of calls, at most one per raw event and one
  per batch, that hands out exactly the key events of these batches, in order; so every key event
  of every batch comes out.
\<close>

theorem keys_every_event_delivered:
  assumes d: "\<And>k. delivers (B k) (len k) (buf k)" and s: "event_iter s = 0"
  shows "(\<forall>K. \<exists>n s'. n \<le> (\<Sum>k < K. Suc (len k)) \<and> event_iter s' = 0 \<and> keys_client lib B n 0 s =
      Some (concat (map (\<lambda>k. List.map_filter (translate_key lib) (take (len k) (buf k))) [0..<K]), K, s')) \<and>
    (\<forall>k i. i < len k \<and> i < length (buf k) \<and> k_type (buf k ! i) = EV_KEY \<longrightarrow>
      (\<exists>n es K s'. keys_client lib B n 0 s = Some (es, K, s') \<and> the (translate_key lib (buf k ! i)) \<in> set es))"
proof -
  note batches = client_batches [where B = B and len = len and buf = buf and lib = lib, OF d s]
  have "\<exists>n es K s'. keys_client lib B n 0 s = Some (es, K, s') \<and> the (translate_key lib (buf k ! i)) \<in> set es"
    if "i < len k" "i < length (buf k)" "k_type (buf k ! i) = EV_KEY" for k i
  proof -
    have "buf k ! i \<in> set (take (len k) (buf k))" using that by (auto simp: in_set_conv_nth intro!: exI [of _ i])
    moreover have "translate_key lib (buf k ! i) \<noteq> None" using that(3) by (simp add: translate_key_def)
    ultimately have "the (translate_key lib (buf k ! i)) \<in> set (List.map_filter (translate_key lib) (take (len k) (buf k)))"
      by (force simp: List.map_filter_def)
    moreover obtain n s' where "keys_client lib B n 0 s =
        Some (concat (map (\<lambda>k. List.map_filter (translate_key lib) (take (len k) (buf k))) [0..<Suc k]), Suc k, s')"
      using batches [of "Suc k"] by blast
    ultimately show ?thesis by force
  qed
  then show ?thesis using batches by blast
qed

text \<open>Three entries with two keys, then nothing for ever.\<close>

theorem keys_every_event_delivered_witness:
  "\<exists>n es K s'. keys_client ex_keys_lib (\<lambda>k. if k = 0 then ex_keys_io else no_input) n 0 keys_start = Some (es, K, s') \<and>
    \<lparr>key_type = NYX_KEY_TYPE_CUSTOM, ke_key = 1, key_is_press = False, key_is_auto_repeat = False\<rparr> \<in> set es"
proof -
  let ?B = "\<lambda>k :: nat. if k = 0 then ex_keys_io else no_input" and ?len = "\<lambda>k :: nat. if k = 0 then 3 else 0 :: nat"
  have "read_loop (k_answers ex_keys_io) 0 = Some (3, ex_batch)"
    by (simp add: read_loop_step [of _ 0] read_loop_step [of _ "Suc 0"] decisive_def read_result_def
        ex_keys_io_def sizeof_InputEvent_def signed_divide_int_def)
  then have d: "delivers (?B k) (?len k) ex_batch" for k
    by (simp add: delivers_def no_input_def ex_batch_def ex_keys_io_def)
  have "event_iter keys_start = 0" by (simp add: keys_start_def)
  note t = keys_every_event_delivered [where B = ?B and len = ?len and buf = "\<lambda>_. ex_batch" and lib = ex_keys_lib, OF d this]
  have "2 < ?len 0 \<and> 2 < length ex_batch \<and> k_type (ex_batch ! 2) = EV_KEY" by (simp add: ex_batch_def EV_KEY_def)
  with conjunct2 [OF t] have "\<exists>n es K s'. keys_client ex_keys_lib ?B n 0 keys_start = Some (es, K, s') \<and>
      the (translate_key ex_keys_lib (ex_batch ! 2)) \<in> set es" by blast
  moreover have "the (translate_key ex_keys_lib (ex_batch ! 2)) =
      \<lparr>key_type = NYX_KEY_TYPE_CUSTOM, ke_key = 1, key_is_press = False, key_is_auto_repeat = False\<rparr>"
    by (simp add: ex_batch_def translate_key_def EV_KEY_def lookup_key_def custom_key_of_def
        KEY_LEFTSHIFT_def ex_keys_lib_def)
  ultimately show ?thesis by simp
qed

end
