(* ===== verification/C_Time.thy ===== *)
theory C_Time
  imports Nyx_Prelude
begin

text \<open>
  The part of the C library's time functions that the system module uses: \<open>gmtime_r\<close> and
  \<open>timegm\<close>, on the proleptic Gregorian calendar. Times are unbounded integers; the limits of
  \<open>time_t\<close> and of the int that holds the year are not modelled.
\<close>

section \<open>Broken-down time\<close>

record tm =
  tm_sec :: int
  tm_min :: int
  tm_hour :: int
  tm_mday :: int
  tm_mon :: int
  tm_year :: int
  tm_isdst :: int

section \<open>Years\<close>

text \<open>Days from 0001-01-01 to the first day of year \<open>y\<close>.\<close>

definition days_before_year :: "int \<Rightarrow> int" where
  "days_before_year y = 365 * (y - 1) + (y - 1) div 4 - (y - 1) div 100 + (y - 1) div 400"

definition leap_year :: "int \<Rightarrow> bool" where
  "leap_year y \<longleftrightarrow> y mod 4 = 0 \<and> (y mod 100 \<noteq> 0 \<or> y mod 400 = 0)"

lemma div_succ: "0 < n \<Longrightarrow> y div n - (y - 1) div n = (if y mod n = 0 then 1 else 0)" for y n :: int
proof -
  assume n: "0 < n"
  define q r where "q = y div n" and "r = y mod n"
  have y: "y = n * q + r" by (simp add: q_def r_def)
  have r: "0 \<le> r" "r < n" using n by (simp_all add: r_def)
  show ?thesis
  proof (cases "r = 0")
    case True
    then have "y - 1 = n * (q - 1) + (n - 1)" by (simp add: y algebra_simps)
    then have "(y - 1) div n = q - 1" by (rule int_div_pos_eq [of _ _ _ "n - 1"]) (use n in simp_all)
    with True show ?thesis by (simp add: q_def r_def)
  next
    case False
    have "y - 1 = n * q + (r - 1)" by (simp add: y)
    then have "(y - 1) div n = q" by (rule int_div_pos_eq [of _ _ _ "r - 1"]) (use r False in simp_all)
    with False show ?thesis by (simp add: q_def r_def)
  qed
qed

lemma mod_multiples: "y mod 400 = 0 \<Longrightarrow> y mod 100 = 0" "y mod 100 = 0 \<Longrightarrow> y mod 4 = 0" for y :: int
  using dvd_trans [of 100 400 y] dvd_trans [of 4 100 y] by (simp_all add: mod_eq_0_iff_dvd)

lemma days_before_year_Suc:
  "days_before_year (y + 1) = days_before_year y + (if leap_year y then 366 else 365)"
proof -
  define a b c :: int where "a = y div 4 - (y - 1) div 4" and "b = y div 100 - (y - 1) div 100"
    and "c = y div 400 - (y - 1) div 400"
  have "days_before_year (y + 1) = days_before_year y + 365 + a - b + c"
    by (simp add: days_before_year_def a_def b_def c_def)
  moreover have "a = (if y mod 4 = 0 then 1 else 0)" "b = (if y mod 100 = 0 then 1 else 0)"
    "c = (if y mod 400 = 0 then 1 else 0)"
    unfolding a_def b_def c_def by (rule div_succ; simp)+
  moreover note mod_multiples [of y]
  ultimately show ?thesis
    unfolding leap_year_def
    by (cases "y mod 400 = 0"; cases "y mod 100 = 0"; cases "y mod 4 = 0") (simp_all only: simp_thms if_True if_False, simp_all)
qed

lemma days_before_year_less: "days_before_year y < days_before_year (y + 1)"
  by (simp add: days_before_year_Suc)

text \<open>The year of a day, searched upwards from \<open>y\<close>.\<close>

function year_from :: "int \<Rightarrow> int \<Rightarrow> int" where
  "year_from d y = (if d < days_before_year (y + 1) then y else year_from d (y + 1))"
  by auto
termination
proof (relation "measure (\<lambda>(d, y). nat (d - days_before_year y))", goal_cases)
  case (2 d y)
  then show ?case using days_before_year_less [of y] by simp
qed simp

declare year_from.simps [simp del]

definition year_of :: "int \<Rightarrow> int" where
  "year_of d = year_from d (min (d div 365) (d div 366) + 1)"

lemma year_from_bounds:
  "days_before_year y \<le> d \<Longrightarrow>
   days_before_year (year_from d y) \<le> d \<and> d < days_before_year (year_from d y + 1)"
  by (induction d y rule: year_from.induct) (subst (1 2) year_from.simps, simp)

lemma year_of_bounds: "days_before_year (year_of d) \<le> d" "d < days_before_year (year_of d + 1)"
proof -
  let ?q = "min (d div 365) (d div 366)"
  have "days_before_year (?q + 1) \<le> d"
  proof (cases "0 \<le> d")
    case True
    define q where "q = d div 366"
    have pos: "0 \<le> q" using True by (simp add: q_def pos_imp_zdiv_nonneg_iff)
    have "?q = q" using zdiv_mono2 [of d 365 366] True by (simp add: q_def)
    moreover have "q div 4 \<le> q" "q div 400 \<le> q div 100"
      using pos zdiv_mono2 [of q 1 4] zdiv_mono2 [of q 100 400] by simp_all
    moreover have "366 * q \<le> d" using mult_div_mod_eq [of 366 d] pos_mod_sign [of 366 d] by (simp add: q_def)
    ultimately show ?thesis by (simp add: days_before_year_def)
  next
    case False
    define q where "q = d div 365"
    have neg: "q < 0" using False by (simp add: q_def pos_imp_zdiv_neg_iff)
    have "?q = q" using zdiv_mono2_neg [of d 365 366] False by (simp add: q_def)
    moreover have "q div 4 \<le> q div 100" "q div 400 \<le> 0"
      using neg zdiv_mono2_neg [of q 4 100] pos_imp_zdiv_neg_iff [of 400 q] by simp_all
    moreover have "365 * q \<le> d" using mult_div_mod_eq [of 365 d] pos_mod_sign [of 365 d] by (simp add: q_def)
    ultimately show ?thesis by (simp add: days_before_year_def)
  qed
  from year_from_bounds [OF this]
  show "days_before_year (year_of d) \<le> d" "d < days_before_year (year_of d + 1)"
    by (simp_all add: year_of_def)
qed

section \<open>Months\<close>

definition month_lengths :: "int \<Rightarrow> int list" where
  "month_lengths y = [31, if leap_year y then 29 else 28, 31, 30, 31, 30, 31, 31, 30, 31, 30, 31]"

fun month_search :: "int list \<Rightarrow> int \<Rightarrow> int \<Rightarrow> int \<times> int" where
  "month_search [] m yd = (m, yd)"
| "month_search (len # lens) m yd =
     (if yd < len then (m, yd) else month_search lens (m + 1) (yd - len))"

lemma month_search_sum:
  assumes "0 \<le> yd" "yd < sum_list lens" "month_search lens m yd = (m', rest)"
  shows "m \<le> m'" "m' < m + int (length lens)" "0 \<le> rest" "rest < lens ! nat (m' - m)"
    "sum_list (take (nat (m' - m)) lens) + rest = yd"
  using assms
proof (induction lens m yd arbitrary: m' rest rule: month_search.induct)
  case (2 len lens m yd)
  {
    case 1
    then show ?case using "2.IH"(1) by (force split: if_splits)
  next
    case 2
    then show ?case using "2.IH"(2) by (force split: if_splits)
  next
    case 3
    then show ?case using "2.IH"(3) by (force split: if_splits)
  next
    case 4
    then show ?case
    proof (cases "yd < len")
      case False
      with 4 have "m + 1 \<le> m'" "rest < lens ! nat (m' - (m + 1))"
        using "2.IH"(1) [OF False] "2.IH"(4) [OF False] by auto
      moreover from this have "nat (m' - m) = Suc (nat (m' - (m + 1)))" by simp
      ultimately show ?thesis by simp
    qed (use 4 in auto)
  next
    case 5
    then show ?case
    proof (cases "yd < len")
      case False
      with 5 have "m + 1 \<le> m'" "sum_list (take (nat (m' - (m + 1))) lens) + rest = yd - len"
        using "2.IH"(1) [OF False] "2.IH"(5) [OF False] by auto
      moreover from this have "nat (m' - m) = Suc (nat (m' - (m + 1)))" by simp
      ultimately show ?thesis by simp
    qed (use 5 in auto)
  }
qed simp_all

lemma sum_month_lengths: "sum_list (month_lengths y) = (if leap_year y then 366 else 365)"
  by (simp add: month_lengths_def)

section \<open>The two functions\<close>

definition EPOCH_DAY :: int where
  "EPOCH_DAY = 719162"

definition gmtime :: "int \<Rightarrow> tm" where
  "gmtime t =
     (let d = t div 86400 + EPOCH_DAY; s = t mod 86400; y = year_of d;
          (m, md) = month_search (month_lengths y) 0 (d - days_before_year y) in
      \<lparr>tm_sec = s mod 60, tm_min = s div 60 mod 60, tm_hour = s div 3600, tm_mday = md + 1,
       tm_mon = m, tm_year = y - 1900, tm_isdst = 0\<rparr>)"

text \<open>Months outside 0 to 11 carry into the year, other fields just add up.\<close>

definition timegm :: "tm \<Rightarrow> int" where
  "timegm t =
     (let y = tm_year t + 1900 + tm_mon t div 12;
          d = days_before_year y + sum_list (take (nat (tm_mon t mod 12)) (month_lengths y))
              + tm_mday t - 1 - EPOCH_DAY in
      d * 86400 + tm_hour t * 3600 + tm_min t * 60 + tm_sec t)"

lemma timegm_isdst [simp]: "timegm (t\<lparr>tm_isdst := i\<rparr>) = timegm t"
  by (simp add: timegm_def)

lemma seconds_split: "s div 3600 * 3600 + s div 60 mod 60 * 60 + s mod 60 = s" for s :: int
proof -
  have "s div 3600 = s div 60 div 60" by (simp add: zdiv_zmult2_eq [symmetric])
  moreover have "s div 60 div 60 * 60 + s div 60 mod 60 = s div 60" by simp
  moreover have "s div 60 * 60 + s mod 60 = s" by simp
  ultimately show ?thesis by linarith
qed

lemma gmtime_fields:
  fixes t :: int
  defines "g \<equiv> gmtime t"
  shows "0 \<le> tm_mon g" "tm_mon g < 12" "1 \<le> tm_mday g"
    "tm_mday g \<le> month_lengths (tm_year g + 1900) ! nat (tm_mon g)"
    "0 \<le> tm_hour g" "tm_hour g < 24" "0 \<le> tm_min g" "tm_min g < 60" "0 \<le> tm_sec g" "tm_sec g < 60"
    "timegm g = t"
proof -
  let ?d = "t div 86400 + EPOCH_DAY" and ?s = "t mod 86400"
  let ?y = "year_of ?d"
  obtain m md where s: "month_search (month_lengths ?y) 0 (?d - days_before_year ?y) = (m, md)"
    by fastforce
  have "0 \<le> ?d - days_before_year ?y" "?d - days_before_year ?y < sum_list (month_lengths ?y)"
    using year_of_bounds [of ?d] by (simp_all add: sum_month_lengths days_before_year_Suc)
  note ms = month_search_sum [OF this s]
  have len: "length (month_lengths ?y) = 12" by (simp add: month_lengths_def)
  have g: "g = \<lparr>tm_sec = ?s mod 60, tm_min = ?s div 60 mod 60, tm_hour = ?s div 3600, tm_mday = md + 1,
       tm_mon = m, tm_year = ?y - 1900, tm_isdst = 0\<rparr>"
    by (simp add: g_def gmtime_def Let_def s)
  show "0 \<le> tm_mon g" "tm_mon g < 12" "1 \<le> tm_mday g"
    "tm_mday g \<le> month_lengths (tm_year g + 1900) ! nat (tm_mon g)"
    using ms len by (simp_all add: g)
  have "0 \<le> ?s" "?s < 86400" by simp_all
  then show "0 \<le> tm_hour g" "tm_hour g < 24" "0 \<le> tm_min g" "tm_min g < 60" "0 \<le> tm_sec g" "tm_sec g < 60"
    by (simp_all add: g div_less_iff_less_mult pos_imp_zdiv_nonneg_iff)
  have "m div 12 = 0" "m mod 12 = m" using ms(1,2) len by simp_all
  moreover have "days_before_year ?y + sum_list (take (nat m) (month_lengths ?y)) + (md + 1) - 1 - EPOCH_DAY
      = t div 86400"
    using ms(5) by simp
  ultimately have "timegm g = t div 86400 * 86400 + ?s div 3600 * 3600 + ?s div 60 mod 60 * 60 + ?s mod 60"
    by (simp only: timegm_def g Let_def tm.simps diff_add_cancel add_0_right)
  then show "timegm g = t"
    using seconds_split [of ?s] div_mult_mod_eq [of t 86400] by linarith
qed

end
