(* ===== verification/Rtc.thy ===== *)
theory Rtc
  imports C_Time
begin

text \<open>
  rtc.c: the helpers around the real-time clock driver. The driver is an argument: a record of
  the answers of open, ioctl and read on a device state of any type. The file is modelled as
  it is built for a device (DEV_RTC_IMPLEMENTED is 1).
\<close>

section \<open>The driver\<close>

text \<open>\<open>struct rtc_time\<close> has the fields of \<open>struct tm\<close>; an alarm adds two flags.\<close>

type_synonym rtc_tm = tm

record rtc_wkalrm =
  al_enabled :: bool
  al_pending :: bool
  al_time :: rtc_tm

text \<open>
  \<open>drv_alarm_rd\<close> returns what the struct holds afterwards when the ioctl succeeds. \<open>drv_read\<close>
  is a read of one long: its result and the data.
\<close>

record 'r rtc_driver =
  drv_open :: "string \<Rightarrow> 'r \<Rightarrow> int \<times> 'r"
  drv_close :: "int \<Rightarrow> 'r \<Rightarrow> 'r"
  drv_rd_time :: "int \<Rightarrow> 'r \<Rightarrow> rtc_tm option \<times> 'r"
  drv_alarm_set :: "int \<Rightarrow> rtc_wkalrm \<Rightarrow> 'r \<Rightarrow> bool \<times> 'r"
  drv_alarm_rd :: "int \<Rightarrow> 'r \<Rightarrow> rtc_wkalrm option \<times> 'r"
  drv_read :: "int \<Rightarrow> 'r \<Rightarrow> int \<times> 64 word \<times> 'r"

section \<open>State\<close>

text \<open>
  The static variables: the descriptor, the channel of the watch (the descriptor it was made
  for and the function it calls) and the last expiry asked for.
\<close>

record 'r rtc =
  rtc_fd :: int
  rtc_channel :: "(int \<times> ptr) option"
  curr_expiry :: int
  rtc_dev :: 'r

definition rtc_start :: "'r \<Rightarrow> 'r rtc" where
  "rtc_start r = \<lparr>rtc_fd = -1, rtc_channel = None, curr_expiry = 0, rtc_dev = r\<rparr>"

section \<open>Conversions\<close>

definition rtc_time_to_tm :: "rtc_tm \<Rightarrow> tm" where
  "rtc_time_to_tm r =
     \<lparr>tm_sec = tm_sec r, tm_min = tm_min r, tm_hour = tm_hour r, tm_mday = tm_mday r,
      tm_mon = tm_mon r, tm_year = tm_year r, tm_isdst = -1\<rparr>"

definition tm_to_rtc_time :: "tm \<Rightarrow> rtc_tm" where
  "tm_to_rtc_time t =
     \<lparr>tm_sec = tm_sec t, tm_min = tm_min t, tm_hour = tm_hour t, tm_mday = tm_mday t,
      tm_mon = tm_mon t, tm_year = tm_year t, tm_isdst = -1\<rparr>"

definition tm_to_rtc_wkalrm :: "tm \<Rightarrow> rtc_wkalrm" where
  "tm_to_rtc_wkalrm t = \<lparr>al_enabled = True, al_pending = False, al_time = tm_to_rtc_time t\<rparr>"

lemma timegm_conversions [simp]:
  "timegm (rtc_time_to_tm t) = timegm t" "timegm (tm_to_rtc_time t) = timegm t"
  by (simp_all add: timegm_def rtc_time_to_tm_def tm_to_rtc_time_def)

section \<open>Opening and closing\<close>

definition rtc_open :: "'r rtc_driver \<Rightarrow> 'r rtc \<Rightarrow> bool \<times> 'r rtc" where
  "rtc_open D s =
     (if 0 \<le> rtc_fd s then (True, s)
      else (let (fd, r) = drv_open D ''/dev/rtc'' (rtc_dev s) in
        if fd < 0
        then (let (fd', r') = drv_open D ''/dev/rtc0'' r in
              (\<not> fd' < 0, s\<lparr>rtc_fd := fd', rtc_dev := r'\<rparr>))
        else (True, s\<lparr>rtc_fd := fd, rtc_dev := r\<rparr>)))"

definition rtc_close :: "'r rtc_driver \<Rightarrow> 'r rtc \<Rightarrow> 'r rtc" where
  "rtc_close D s =
     (if 0 \<le> rtc_fd s then s\<lparr>rtc_dev := drv_close D (rtc_fd s) (rtc_dev s), rtc_fd := -1\<rparr> else s)"

definition rtc_add_watch :: "ptr \<Rightarrow> 'r rtc \<Rightarrow> bool \<times> 'r rtc" where
  "rtc_add_watch func s =
     (True, if rtc_channel s = None then s\<lparr>rtc_channel := Some (rtc_fd s, func)\<rparr> else s)"

text \<open>Shutting the channel down closes its descriptor, and \<open>rtc_close\<close> closes \<open>rtc_fd\<close>.\<close>

definition rtc_clear_watch :: "'r rtc_driver \<Rightarrow> 'r rtc \<Rightarrow> bool \<times> 'r rtc" where
  "rtc_clear_watch D s =
     (True,
      case rtc_channel s of
        None \<Rightarrow> s
      | Some (fd, _) \<Rightarrow>
          rtc_close D (s\<lparr>rtc_dev := drv_close D fd (rtc_dev s), rtc_channel := None\<rparr>))"

definition rtc_getfd :: "'r rtc \<Rightarrow> int" where
  "rtc_getfd s = rtc_fd s"

section \<open>The clock\<close>

definition rtc_read :: "'r rtc_driver \<Rightarrow> 'r rtc \<Rightarrow> tm option \<times> 'r rtc" where
  "rtc_read D s =
     (case drv_rd_time D (rtc_fd s) (rtc_dev s) of
        (None, r) \<Rightarrow> (None, s\<lparr>rtc_dev := r\<rparr>)
      | (Some t, r) \<Rightarrow> (Some (rtc_time_to_tm t), s\<lparr>rtc_dev := r\<rparr>))"

text \<open>The result and what is stored in \<open>*time\<close>: nothing on failure.\<close>

definition rtc_time :: "'r rtc_driver \<Rightarrow> int option \<Rightarrow> 'r rtc \<Rightarrow> int \<times> int option \<times> 'r rtc" where
  "rtc_time D time s =
     (case rtc_read D s of
        (None, s') \<Rightarrow> (-1, time, s')
      | (Some tm, s') \<Rightarrow>
          (let t = timegm tm in (t, if time = None then None else Some t, s')))"

section \<open>Alarms\<close>

definition rtc_set_alarm :: "'r rtc_driver \<Rightarrow> rtc_wkalrm option \<Rightarrow> 'r rtc \<Rightarrow> bool \<times> 'r rtc" where
  "rtc_set_alarm D alarm s =
     (case alarm of
        None \<Rightarrow> (False, s)
      | Some a \<Rightarrow>
          (let (ok, r) = drv_alarm_set D (rtc_fd s) a (rtc_dev s) in (ok, s\<lparr>rtc_dev := r\<rparr>)))"

definition rtc_set_alarm_time :: "'r rtc_driver \<Rightarrow> int \<Rightarrow> 'r rtc \<Rightarrow> bool \<times> 'r rtc" where
  "rtc_set_alarm_time D expiry s =
     (if expiry = curr_expiry s then (True, s)
      else
        (let s1 = s\<lparr>curr_expiry := expiry\<rparr>;
             (_, now', s2) = rtc_time D (Some 0) s1;
             now = the now';
             expiry' = (if expiry < now + 2 then now + 2 else expiry) in
         rtc_set_alarm D (Some (tm_to_rtc_wkalrm (gmtime expiry'))) s2))"

text \<open>On failure the caller's struct is marked as not enabled.\<close>

definition rtc_read_alarm ::
  "'r rtc_driver \<Rightarrow> rtc_wkalrm option \<Rightarrow> 'r rtc \<Rightarrow> bool \<times> rtc_wkalrm option \<times> 'r rtc" where
  "rtc_read_alarm D alarm s =
     (case alarm of
        None \<Rightarrow> (False, None, s)
      | Some a \<Rightarrow>
          (case drv_alarm_rd D (rtc_fd s) (rtc_dev s) of
             (None, r) \<Rightarrow> (False, Some (a\<lparr>al_enabled := False\<rparr>), s\<lparr>rtc_dev := r\<rparr>)
           | (Some a', r) \<Rightarrow> (True, Some a', s\<lparr>rtc_dev := r\<rparr>)))"

text \<open>\<open>junk\<close> is the uninitialised local alarm.\<close>

definition rtc_read_alarm_time ::
  "'r rtc_driver \<Rightarrow> rtc_wkalrm \<Rightarrow> int \<Rightarrow> 'r rtc \<Rightarrow> bool \<times> int \<times> 'r rtc" where
  "rtc_read_alarm_time D junk time s =
     (case rtc_read_alarm D (Some junk) s of
        (True, Some alarm, s') \<Rightarrow> (True, timegm (rtc_time_to_tm (al_time alarm)), s')
      | (_, _, s') \<Rightarrow> (False, time, s'))"

text \<open>The time written when the plain clearing fails: 1985-03-14 23:29:00 (the day of the week and of
  the year, which \<open>tm\<close> leaves out, are set as well).\<close>

definition reset_time :: "rtc_tm \<Rightarrow> rtc_tm" where
  "reset_time t = t\<lparr>tm_sec := 0, tm_min := 29, tm_hour := 23, tm_mday := 14, tm_mon := 2,
     tm_year := 85, tm_isdst := 0\<rparr>"

definition rtc_clear_alarm :: "'r rtc_driver \<Rightarrow> rtc_wkalrm \<Rightarrow> 'r rtc \<Rightarrow> bool \<times> 'r rtc" where
  "rtc_clear_alarm D junk s =
     (let (_, a, s1) = rtc_read_alarm D (Some junk) s; alarm = the a in
      if al_enabled alarm then
        (let alarm1 = alarm\<lparr>al_enabled := False\<rparr>;
             (ok, r) = drv_alarm_set D (rtc_fd s1) alarm1 (rtc_dev s1);
             s2 = s1\<lparr>rtc_dev := r\<rparr> in
         if \<not> ok then
           (let (ok', r') = drv_alarm_set D (rtc_fd s2)
                  (alarm1\<lparr>al_time := reset_time (al_time alarm1)\<rparr>) (rtc_dev s2) in
            (ok', s2\<lparr>rtc_dev := r'\<rparr>))
         else (True, s2))
      else (True, s1))"

lemma rtc_clear_alarm_keeps:
  "rtc_fd (snd (rtc_clear_alarm D junk s)) = rtc_fd s"
  "curr_expiry (snd (rtc_clear_alarm D junk s)) = curr_expiry s"
  "rtc_channel (snd (rtc_clear_alarm D junk s)) = rtc_channel s"
  by (auto simp: rtc_clear_alarm_def rtc_read_alarm_def Let_def split: prod.split option.split)

definition RTC_AF :: "64 word" where
  "RTC_AF = 0x20"

definition rtc_check_alarm :: "'r rtc_driver \<Rightarrow> rtc_wkalrm \<Rightarrow> 'r rtc \<Rightarrow> bool \<times> 'r rtc" where
  "rtc_check_alarm D junk s =
     (let (ret, data, r) = drv_read D (rtc_fd s) (rtc_dev s); s1 = s\<lparr>rtc_dev := r\<rparr> in
      if ret < 0 then (False, s1)
      else if and data RTC_AF \<noteq> 0 then (True, snd (rtc_clear_alarm D junk s1))
      else (False, s1))"

text \<open>The watch: whether it stays, whether it calls its function, and the state before the call.\<close>

definition rtc_event :: "'r rtc_driver \<Rightarrow> rtc_wkalrm \<Rightarrow> 'r rtc \<Rightarrow> bool \<times> bool \<times> 'r rtc" where
  "rtc_event D junk s = (let (fired, s') = rtc_check_alarm D junk s in (True, fired, s'))"

end
