(* ===== verification/System_Module.thy ===== *)
theory System_Module
  imports Rtc
begin

text \<open>
  system.c of the emulator: the operations of the system module, each guarded by the device
  handle, on top of the clock helpers.
\<close>

section \<open>State\<close>

text \<open>\<open>nyxDev\<close> and \<open>alarm_fired_callback\<close> are addresses; NULL is 0.\<close>

record 'r system =
  nyxDev :: ptr
  alarm_fired_callback :: ptr
  sys_rtc :: "'r rtc"

definition system_start :: "'r \<Rightarrow> 'r system" where
  "system_start r = \<lparr>nyxDev = NULL, alarm_fired_callback = NULL, sys_rtc = rtc_start r\<rparr>"

text \<open>The address of \<open>AlarmFiredCB\<close>; which one does not matter.\<close>

definition AlarmFiredCB_addr :: ptr where
  "AlarmFiredCB_addr = 1"

text \<open>Which callback a fired alarm calls, with the device.\<close>

definition AlarmFiredCB :: "'r system \<Rightarrow> (ptr \<times> ptr) option" where
  "AlarmFiredCB s =
     (if alarm_fired_callback s \<noteq> NULL then Some (alarm_fired_callback s, nyxDev s) else None)"

section \<open>Opening and closing\<close>

text \<open>\<open>mem\<close> is what calloc returns; the second result is \<open>*d\<close>.\<close>

definition system_module_open :: "ptr \<Rightarrow> ptr \<Rightarrow> 'r system \<Rightarrow> nyx_error \<times> ptr \<times> 'r system" where
  "system_module_open mem d0 s =
     (if nyxDev s \<noteq> NULL then (NYX_ERROR_NONE, d0, s)
      else (let s' = s\<lparr>nyxDev := mem\<rparr> in
            if nyxDev s' = NULL then (NYX_ERROR_OUT_OF_MEMORY, d0, s')
            else (NYX_ERROR_NONE, nyxDev s', s')))"

definition system_module_close :: "'r rtc_driver \<Rightarrow> 'r system \<Rightarrow> nyx_error \<times> 'r system" where
  "system_module_close D s = (NYX_ERROR_NONE, s\<lparr>sys_rtc := rtc_close D (sys_rtc s)\<rparr>)"

section \<open>Operations\<close>

definition system_set_alarm ::
  "'r rtc_driver \<Rightarrow> rtc_wkalrm \<Rightarrow> int \<times> ptr \<Rightarrow> ptr \<Rightarrow> 'r system \<Rightarrow> nyx_error \<times> unit \<times> 'r system" where
  "system_set_alarm D junk = (\<lambda>(time, callback_func) handle s.
     if handle \<noteq> nyxDev s then (NYX_ERROR_INVALID_HANDLE, (), s)
     else
       (let (opened, r1) = rtc_open D (sys_rtc s); s1 = s\<lparr>sys_rtc := r1\<rparr> in
        if \<not> opened then (NYX_ERROR_INVALID_OPERATION, (), s1)
        else if time = 0 then
          (NYX_ERROR_NONE, (), s1\<lparr>sys_rtc := snd (rtc_clear_alarm D junk r1)\<rparr>)
        else
          (let (ok, r2) = rtc_set_alarm_time D time r1; s2 = s1\<lparr>sys_rtc := r2\<rparr> in
           if \<not> ok then (NYX_ERROR_INVALID_OPERATION, (), s2)
           else if callback_func \<noteq> NULL then
             (NYX_ERROR_NONE, (),
              s2\<lparr>alarm_fired_callback := callback_func,
                 sys_rtc := snd (rtc_add_watch AlarmFiredCB_addr r2)\<rparr>)
           else
             (NYX_ERROR_NONE, (),
              s2\<lparr>alarm_fired_callback := NULL, sys_rtc := snd (rtc_clear_watch D r2)\<rparr>))))"

text \<open>
  \<open>rtc_read_alarm_time(time) < 0\<close> compares a bool with 0: it is false whatever was read.
\<close>

definition bool_int :: "bool \<Rightarrow> int" where
  "bool_int b = (if b then 1 else 0)"

definition system_query_next_alarm ::
  "'r rtc_driver \<Rightarrow> rtc_wkalrm \<Rightarrow> int \<Rightarrow> ptr \<Rightarrow> 'r system \<Rightarrow> nyx_error \<times> int \<times> 'r system" where
  "system_query_next_alarm D junk time handle s =
     (if handle \<noteq> nyxDev s then (NYX_ERROR_INVALID_HANDLE, time, s)
      else
        (let (opened, r1) = rtc_open D (sys_rtc s); s1 = s\<lparr>sys_rtc := r1\<rparr> in
         if \<not> opened then (NYX_ERROR_INVALID_OPERATION, time, s1)
         else
           (let (ok, time', r2) = rtc_read_alarm_time D junk time r1; s2 = s1\<lparr>sys_rtc := r2\<rparr> in
            if bool_int ok < 0 then (NYX_ERROR_INVALID_OPERATION, time', s2)
            else (NYX_ERROR_NONE, time', s2))))"

text \<open>\<open>time\<close> may be NULL here.\<close>

definition system_query_rtc_time ::
  "'r rtc_driver \<Rightarrow> int option \<Rightarrow> ptr \<Rightarrow> 'r system \<Rightarrow> nyx_error \<times> int option \<times> 'r system" where
  "system_query_rtc_time D time handle s =
     (if handle \<noteq> nyxDev s then (NYX_ERROR_INVALID_HANDLE, time, s)
      else
        (let (opened, r1) = rtc_open D (sys_rtc s); s1 = s\<lparr>sys_rtc := r1\<rparr> in
         if \<not> opened then (NYX_ERROR_INVALID_OPERATION, time, s1)
         else
           (let (t, time', r2) = rtc_time D time r1; s2 = s1\<lparr>sys_rtc := r2\<rparr> in
            if t < 0 then (NYX_ERROR_INVALID_OPERATION, time', s2)
            else (NYX_ERROR_NONE, time', s2))))"

text \<open>
  The power operations: the shell command (or the sleep) they run. \<open>access_ret\<close> is what access
  says about the suspend script, \<open>success\<close> whether the caller wants to know.
\<close>

datatype shutdown_type =
    NYX_SYSTEM_NORMAL_SHUTDOWN
  | NYX_SYSTEM_EMERG_SHUTDOWN
  | NYX_SYSTEM_TEST_SHUTDOWN

datatype power_action = Sleep nat | Shell string

definition system_suspend ::
  "int \<Rightarrow> bool option \<Rightarrow> ptr \<Rightarrow> 'r system \<Rightarrow> nyx_error \<times> bool option \<times> power_action list" where
  "system_suspend access_ret success handle s =
     (if handle \<noteq> nyxDev s then (NYX_ERROR_INVALID_HANDLE, success, [])
      else (NYX_ERROR_NONE, map_option (\<lambda>_. True) success,
            [if access_ret \<noteq> 0 \<or> success = None then Sleep 5 else Shell ''/usr/sbin/suspend_action'']))"

definition system_shutdown ::
  "shutdown_type \<Rightarrow> ptr \<Rightarrow> 'r system \<Rightarrow> nyx_error \<times> power_action list" where
  "system_shutdown type handle s =
     (if handle \<noteq> nyxDev s then (NYX_ERROR_INVALID_HANDLE, [])
      else (NYX_ERROR_NONE,
            [case type of
               NYX_SYSTEM_EMERG_SHUTDOWN \<Rightarrow> Shell ''halt -f''
             | _ \<Rightarrow> Shell ''shutdown -h now'']))"

definition system_reboot ::
  "shutdown_type \<Rightarrow> ptr \<Rightarrow> 'r system \<Rightarrow> nyx_error \<times> power_action list" where
  "system_reboot type handle s =
     (if handle \<noteq> nyxDev s then (NYX_ERROR_INVALID_HANDLE, [])
      else (NYX_ERROR_NONE,
            [case type of
               NYX_SYSTEM_EMERG_SHUTDOWN \<Rightarrow> Shell ''reboot -f''
             | _ \<Rightarrow> Shell ''reboot'']))"

definition system_erase_partition :: nyx_error where
  "system_erase_partition = NYX_ERROR_NOT_IMPLEMENTED"

section \<open>The handle guards every operation\<close>

lemma system_dev_unchanged:
  "nyxDev (snd (snd (system_set_alarm D junk i h s))) = nyxDev s"
  "nyxDev (snd (snd (system_query_next_alarm D junk t h s))) = nyxDev s"
  "nyxDev (snd (snd (system_query_rtc_time D to h s))) = nyxDev s"
  by (auto simp: system_set_alarm_def system_query_next_alarm_def system_query_rtc_time_def Let_def
      split: prod.split)

interpretation set_alarm: handle_guarded nyxDev "system_set_alarm D junk" "\<lambda>_. ()" for D junk
  by (unfold_locales, simp add: system_set_alarm_def split: prod.split, rule system_dev_unchanged)

interpretation query_next_alarm: handle_guarded nyxDev "system_query_next_alarm D junk" "\<lambda>t. t" for D junk
  by (unfold_locales, simp add: system_query_next_alarm_def split: prod.split, rule system_dev_unchanged)

interpretation query_rtc_time: handle_guarded nyxDev "system_query_rtc_time D" "\<lambda>t. t" for D
  by (unfold_locales, simp add: system_query_rtc_time_def split: prod.split, rule system_dev_unchanged)

end
