(* ===== verification/System_Properties.thy ===== *)
theory System_Properties
  imports System_Module
begin

text \<open>
  The properties of the system module: alarms and the clock. The example is a clock that keeps
  its time, an alarm and a count of its closings.
\<close>

section \<open>An example driver\<close>

record ex_clock =
  ec_time :: int
  ec_alarm :: rtc_wkalrm

definition ex_driver :: "ex_clock rtc_driver" where
  "ex_driver = \<lparr>drv_open = (\<lambda>_ r. (5, r)), drv_close = (\<lambda>_ r. r),
     drv_rd_time = (\<lambda>_ r. (Some (gmtime (ec_time r)), r)),
     drv_alarm_set = (\<lambda>_ a r. (True, r\<lparr>ec_alarm := a\<rparr>)),
     drv_alarm_rd = (\<lambda>_ r. (Some (ec_alarm r), r)),
     drv_read = (\<lambda>_ r. (8, 0x20, r))\<rparr>"

definition ex_alarm :: rtc_wkalrm where
  "ex_alarm = \<lparr>al_enabled = False, al_pending = False, al_time = gmtime 0\<rparr>"

definition ex_system :: "ex_clock system" where
  "ex_system = \<lparr>nyxDev = 7, alarm_fired_callback = NULL,
     sys_rtc = \<lparr>rtc_fd = 5, rtc_channel = None, curr_expiry = 0,
                rtc_dev = \<lparr>ec_time = 1000, ec_alarm = ex_alarm\<rparr>\<rparr>\<rparr>"

section \<open>Setting an alarm\<close>

lemma open_rtc: "0 \<le> rtc_fd r \<Longrightarrow> rtc_open D r = (True, r)"
  by (simp add: rtc_open_def)

text \<open>\<open>rtc_set_alarm_time\<close> for a new expiry, when the clock can be read.\<close>

lemma set_alarm_time_new:
  assumes "expiry \<noteq> curr_expiry s" "drv_rd_time D (rtc_fd s) (rtc_dev s) = (Some tm, ra)"
    and "drv_alarm_set D (rtc_fd s)
           (tm_to_rtc_wkalrm (gmtime (max expiry (timegm tm + 2)))) ra = (ok, rb)"
  shows "rtc_set_alarm_time D expiry s = (ok, s\<lparr>curr_expiry := expiry, rtc_dev := rb\<rparr>)"
proof -
  have "max expiry (timegm tm + 2) = (if expiry < timegm tm + 2 then timegm tm + 2 else expiry)"
    by (simp add: max_def)
  note set = assms(3) [unfolded this]
  with assms(1,2) show ?thesis
    by (cases "expiry < timegm tm + 2")
      (simp_all add: rtc_set_alarm_time_def rtc_time_def rtc_read_def rtc_set_alarm_def Let_def)
qed

lemma system_set_alarm_new:
  assumes "handle = nyxDev s" "0 \<le> rtc_fd (sys_rtc s)" "t \<noteq> 0" "t \<noteq> curr_expiry (sys_rtc s)" "cb \<noteq> NULL"
    and "drv_rd_time D (rtc_fd (sys_rtc s)) (rtc_dev (sys_rtc s)) = (Some tm, ra)"
    and "drv_alarm_set D (rtc_fd (sys_rtc s))
           (tm_to_rtc_wkalrm (gmtime (max t (timegm tm + 2)))) ra = (ok, rb)"
  shows "system_set_alarm D junk (t, cb) handle s =
     (if ok
      then (NYX_ERROR_NONE, (),
            s\<lparr>alarm_fired_callback := cb,
              sys_rtc := snd (rtc_add_watch AlarmFiredCB_addr
                ((sys_rtc s)\<lparr>curr_expiry := t, rtc_dev := rb\<rparr>))\<rparr>)
      else (NYX_ERROR_INVALID_OPERATION, (),
            s\<lparr>sys_rtc := (sys_rtc s)\<lparr>curr_expiry := t, rtc_dev := rb\<rparr>\<rparr>))"
  using assms set_alarm_time_new [OF assms(4,6,7)]
  by (simp add: system_set_alarm_def open_rtc)

section \<open>The properties\<close>

text \<open>
  C16: Setting an alarm for a new time with a callback asks the driver for exactly one alarm,
  enabled, at the requested time but at least two seconds from now; the result is the driver's,
  and only a success registers the callback.
\<close>

theorem system_alarm_floor:
  assumes "handle = nyxDev s" "0 \<le> rtc_fd (sys_rtc s)" "t \<noteq> 0" "t \<noteq> curr_expiry (sys_rtc s)" "cb \<noteq> NULL"
    and "drv_rd_time D (rtc_fd (sys_rtc s)) (rtc_dev (sys_rtc s)) = (Some tm, ra)"
    and "drv_alarm_set D (rtc_fd (sys_rtc s))
           \<lparr>al_enabled = True, al_pending = False,
            al_time = (gmtime (max t (timegm tm + 2)))\<lparr>tm_isdst := -1\<rparr>\<rparr> ra = (ok, rb)"
  shows "\<exists>s'. system_set_alarm D junk (t, cb) handle s =
       (if ok then NYX_ERROR_NONE else NYX_ERROR_INVALID_OPERATION, (), s') \<and>
     rtc_dev (sys_rtc s') = rb \<and>
     AlarmFiredCB s' = (if ok then Some (cb, nyxDev s) else AlarmFiredCB s)"
proof -
  have "tm_to_rtc_wkalrm u = \<lparr>al_enabled = True, al_pending = False, al_time = u\<lparr>tm_isdst := -1\<rparr>\<rparr>" for u
    by (cases u) (simp add: tm_to_rtc_wkalrm_def tm_to_rtc_time_def)
  with assms(7) have "drv_alarm_set D (rtc_fd (sys_rtc s))
      (tm_to_rtc_wkalrm (gmtime (max t (timegm tm + 2)))) ra = (ok, rb)" by simp
  from system_set_alarm_new [OF assms(1-6) this] assms(5) show ?thesis
    by (auto simp: rtc_add_watch_def AlarmFiredCB_def)
qed

theorem system_alarm_floor_witness:
  "\<exists>s'. system_set_alarm ex_driver ex_alarm (900, 3) 7 ex_system = (NYX_ERROR_NONE, (), s') \<and>
     timegm (al_time (ec_alarm (rtc_dev (sys_rtc s')))) = 1002 \<and> AlarmFiredCB s' = Some (3, 7)"
proof -
  let ?r = "\<lparr>ec_time = 1000, ec_alarm = ex_alarm\<rparr> :: ex_clock"
  let ?a = "\<lparr>al_enabled = True, al_pending = False, al_time = (gmtime (max 900 (1000 + 2)))\<lparr>tm_isdst := -1\<rparr>\<rparr>"
  have "\<exists>s'. system_set_alarm ex_driver ex_alarm (900, 3) 7 ex_system =
       (if True then NYX_ERROR_NONE else NYX_ERROR_INVALID_OPERATION, (), s') \<and>
     rtc_dev (sys_rtc s') = ?r\<lparr>ec_alarm := ?a\<rparr> \<and>
     AlarmFiredCB s' = (if True then Some (3, nyxDev ex_system) else AlarmFiredCB ex_system)"
    by (rule system_alarm_floor [where tm = "gmtime 1000" and ra = ?r])
      (simp_all add: ex_system_def ex_driver_def gmtime_fields(11))
  then show ?thesis by (auto simp: gmtime_fields(11) ex_system_def)
qed

text \<open>
  The documented behaviour of the driver that reading back needs: after a successful
  RTC_WKALM_SET, RTC_WKALM_RD gives the alarm that was set.
\<close>

definition alarm_readback :: "'r rtc_driver \<Rightarrow> bool" where
  "alarm_readback D \<longleftrightarrow>
     (\<forall>fd a r r'. drv_alarm_set D fd a r = (True, r') \<longrightarrow> (\<exists>r''. drv_alarm_rd D fd r' = (Some a, r'')))"

lemma ex_driver_readback: "alarm_readback ex_driver"
  by (simp add: alarm_readback_def ex_driver_def)

text \<open>
  C17: Round trip: with a driver that can read its alarm back, querying the next alarm right after
  setting one gives the time that was requested, or two seconds from now when that is later;
  the way through broken-down time (gmtime, the driver's structures, timegm) loses nothing.
\<close>

theorem system_alarm_roundtrip:
  assumes "alarm_readback D" "handle = nyxDev s" "0 \<le> rtc_fd (sys_rtc s)" "t \<noteq> 0"
    and "t \<noteq> curr_expiry (sys_rtc s)" "cb \<noteq> NULL"
    and "drv_rd_time D (rtc_fd (sys_rtc s)) (rtc_dev (sys_rtc s)) = (Some tm, ra)"
    and "system_set_alarm D junk (t, cb) handle s = (NYX_ERROR_NONE, (), s')"
  shows "\<exists>s''. system_query_next_alarm D junk' time0 handle s'
     = (NYX_ERROR_NONE, max t (timegm tm + 2), s'')"
proof -
  let ?a = "tm_to_rtc_wkalrm (gmtime (max t (timegm tm + 2)))"
  obtain ok rb where set: "drv_alarm_set D (rtc_fd (sys_rtc s)) ?a ra = (ok, rb)" by fastforce
  note new = system_set_alarm_new [OF assms(2-7) set, of junk]
  then have ok: "ok" using assms(8) by (auto split: if_splits)
  then have s': "s' = s\<lparr>alarm_fired_callback := cb,
      sys_rtc := snd (rtc_add_watch AlarmFiredCB_addr ((sys_rtc s)\<lparr>curr_expiry := t, rtc_dev := rb\<rparr>))\<rparr>"
    using new assms(8) by simp
  have fd: "rtc_fd (sys_rtc s') = rtc_fd (sys_rtc s)" "rtc_dev (sys_rtc s') = rb" "nyxDev s' = nyxDev s"
    by (simp_all add: s' rtc_add_watch_def)
  have "drv_alarm_set D (rtc_fd (sys_rtc s)) ?a ra = (True, rb)" using set ok by simp
  with assms(1) obtain r3 where "drv_alarm_rd D (rtc_fd (sys_rtc s)) rb = (Some ?a, r3)"
    unfolding alarm_readback_def by blast
  then have "rtc_read_alarm_time D junk' time0 (sys_rtc s')
      = (True, max t (timegm tm + 2), (sys_rtc s')\<lparr>rtc_dev := r3\<rparr>)"
    by (simp add: rtc_read_alarm_time_def rtc_read_alarm_def fd tm_to_rtc_wkalrm_def gmtime_fields(11))
  then show ?thesis
    using assms(2,3) by (simp add: system_query_next_alarm_def open_rtc fd bool_int_def)
qed

theorem system_alarm_roundtrip_witness:
  "\<exists>s' s''. system_set_alarm ex_driver ex_alarm (5000, 3) 7 ex_system = (NYX_ERROR_NONE, (), s') \<and>
     system_query_next_alarm ex_driver ex_alarm 0 7 s' = (NYX_ERROR_NONE, 5000, s'')"
proof -
  have rd: "drv_rd_time ex_driver (rtc_fd (sys_rtc ex_system)) (rtc_dev (sys_rtc ex_system))
      = (Some (gmtime 1000), rtc_dev (sys_rtc ex_system))"
    by (simp add: ex_driver_def ex_system_def)
  obtain s' where s': "system_set_alarm ex_driver ex_alarm (5000, 3) 7 ex_system = (NYX_ERROR_NONE, (), s')"
    using system_set_alarm_new [OF _ _ _ _ _ rd, of 7 5000 3] by (simp add: ex_driver_def ex_system_def)
  have "\<exists>s''. system_query_next_alarm ex_driver ex_alarm 0 7 s'
     = (NYX_ERROR_NONE, max 5000 (timegm (gmtime 1000) + 2), s'')"
    by (rule system_alarm_roundtrip [OF ex_driver_readback _ _ _ _ _ rd s']) (simp_all add: ex_system_def)
  with s' show ?thesis by (simp add: gmtime_fields(11))
qed

text \<open>
  C18: The same expiry is never armed twice in a row: once a time has been asked for, asking for
  it again reports success without a word to the driver, although the alarm may have been
  cleared since, or the driver may have refused it.
\<close>

theorem system_rearm_lost:
  assumes "handle = nyxDev s" "0 \<le> rtc_fd (sys_rtc s)" "t \<noteq> 0" "t \<noteq> curr_expiry (sys_rtc s)" "cb \<noteq> NULL"
    and "drv_rd_time D (rtc_fd (sys_rtc s)) (rtc_dev (sys_rtc s)) = (Some tm, ra)"
    and "system_set_alarm D junk (t, cb) handle s = (err, (), s1)"
    and "system_set_alarm D junk (0, NULL) handle s1 = (NYX_ERROR_NONE, (), s2)"
  shows "(\<exists>s'. system_set_alarm D junk (t, cb) handle s1 = (NYX_ERROR_NONE, (), s') \<and>
            rtc_dev (sys_rtc s') = rtc_dev (sys_rtc s1)) \<and>
     (\<exists>s'. system_set_alarm D junk (t, cb) handle s2 = (NYX_ERROR_NONE, (), s') \<and>
            rtc_dev (sys_rtc s') = rtc_dev (sys_rtc s2))"
proof -
  let ?a = "tm_to_rtc_wkalrm (gmtime (max t (timegm tm + 2)))"
  have again: "\<exists>s'. system_set_alarm D junk (t, cb) handle u = (NYX_ERROR_NONE, (), s') \<and>
      rtc_dev (sys_rtc s') = rtc_dev (sys_rtc u)"
    if "nyxDev u = handle" "0 \<le> rtc_fd (sys_rtc u)" "curr_expiry (sys_rtc u) = t" for u
    using that assms(3,5)
    by (simp add: system_set_alarm_def open_rtc rtc_set_alarm_time_def rtc_add_watch_def)
  obtain ok rb where set: "drv_alarm_set D (rtc_fd (sys_rtc s)) ?a ra = (ok, rb)" by fastforce
  have s1: "nyxDev s1 = handle" "rtc_fd (sys_rtc s1) = rtc_fd (sys_rtc s)" "curr_expiry (sys_rtc s1) = t"
    using system_set_alarm_new [OF assms(1-6) set, of junk] assms(1,7)
    by (auto simp: rtc_add_watch_def split: if_splits)
  have "s2 = s1\<lparr>sys_rtc := snd (rtc_clear_alarm D junk (sys_rtc s1))\<rparr>"
    using assms(2,8) s1 by (simp add: system_set_alarm_def open_rtc)
  then have "nyxDev s2 = handle" "0 \<le> rtc_fd (sys_rtc s2)" "curr_expiry (sys_rtc s2) = t"
    using s1 assms(2) rtc_clear_alarm_keeps [of D junk "sys_rtc s1"] by simp_all
  with again s1 assms(2) show ?thesis by simp
qed

theorem system_rearm_lost_witness:
  "\<exists>s1 s2 s3. system_set_alarm ex_driver ex_alarm (5000, 3) 7 ex_system = (NYX_ERROR_NONE, (), s1) \<and>
     system_set_alarm ex_driver ex_alarm (0, NULL) 7 s1 = (NYX_ERROR_NONE, (), s2) \<and>
     system_set_alarm ex_driver ex_alarm (5000, 3) 7 s2 = (NYX_ERROR_NONE, (), s3) \<and>
     \<not> al_enabled (ec_alarm (rtc_dev (sys_rtc s3)))"
proof -
  have rd: "drv_rd_time ex_driver (rtc_fd (sys_rtc ex_system)) (rtc_dev (sys_rtc ex_system))
      = (Some (gmtime 1000), rtc_dev (sys_rtc ex_system))"
    by (simp add: ex_driver_def ex_system_def)
  obtain s1 where s1: "system_set_alarm ex_driver ex_alarm (5000, 3) 7 ex_system = (NYX_ERROR_NONE, (), s1)"
    and s1': "nyxDev s1 = 7" "rtc_fd (sys_rtc s1) = 5"
    using system_set_alarm_new [OF _ _ _ _ _ rd, of 7 5000 3]
    by (simp add: ex_driver_def ex_system_def rtc_add_watch_def)
  obtain s2 where s2: "system_set_alarm ex_driver ex_alarm (0, NULL) 7 s1 = (NYX_ERROR_NONE, (), s2)"
    and off: "\<not> al_enabled (ec_alarm (rtc_dev (sys_rtc s2)))"
    using s1' by (simp add: system_set_alarm_def open_rtc rtc_clear_alarm_def rtc_read_alarm_def
        ex_driver_def Let_def split: if_splits)
  have "\<exists>s'. system_set_alarm ex_driver ex_alarm (5000, 3) 7 s2 = (NYX_ERROR_NONE, (), s') \<and>
      rtc_dev (sys_rtc s') = rtc_dev (sys_rtc s2)"
    by (rule system_rearm_lost [OF _ _ _ _ _ rd s1 s2, THEN conjunct2]) (simp_all add: ex_system_def)
  with s1 s2 off show ?thesis by auto
qed

text \<open>
  Querying the next alarm cannot fail once the device is open: the check of the result
  compares a bool with 0, so a failed read is reported as success, with the caller's time as it
  was; a good read gives the alarm's time.
\<close>

theorem system_query_next_alarm_result:
  assumes "handle = nyxDev s" "0 \<le> rtc_fd (sys_rtc s)"
  shows "\<exists>s'. system_query_next_alarm D junk time0 handle s =
     (NYX_ERROR_NONE,
      (case fst (drv_alarm_rd D (rtc_fd (sys_rtc s)) (rtc_dev (sys_rtc s))) of
         None \<Rightarrow> time0
       | Some a \<Rightarrow> timegm (al_time a)), s')"
  using assms
  by (cases "drv_alarm_rd D (rtc_fd (sys_rtc s)) (rtc_dev (sys_rtc s))")
    (auto simp: system_query_next_alarm_def open_rtc rtc_read_alarm_time_def rtc_read_alarm_def bool_int_def
      split: option.split)

theorem system_query_next_alarm_result_witness:
  "\<exists>s'. system_query_next_alarm (ex_driver\<lparr>drv_alarm_rd := (\<lambda>_ r. (None, r))\<rparr>) ex_alarm 42 7 ex_system
     = (NYX_ERROR_NONE, 42, s')"
  using system_query_next_alarm_result [of 7 ex_system "ex_driver\<lparr>drv_alarm_rd := (\<lambda>_ r. (None, r))\<rparr>" ex_alarm 42]
  by (simp add: ex_system_def)

text \<open>
  The time of an alarm survives the conversions: what \<open>gmtime_r\<close> makes of a time and
  \<open>tm_to_rtc_wkalrm\<close> passes to the driver has all its fields in the ranges of a calendar, and
  reads back as the same time.
\<close>

theorem rtc_alarm_time_conversion:
  "timegm (rtc_time_to_tm (al_time (tm_to_rtc_wkalrm (gmtime t)))) = t \<and>
   (let r = al_time (tm_to_rtc_wkalrm (gmtime t)) in
      0 \<le> tm_mon r \<and> tm_mon r \<le> 11 \<and> 1 \<le> tm_mday r \<and>
      tm_mday r \<le> month_lengths (tm_year r + 1900) ! nat (tm_mon r) \<and>
      0 \<le> tm_hour r \<and> tm_hour r \<le> 23 \<and> 0 \<le> tm_min r \<and> tm_min r \<le> 59 \<and>
      0 \<le> tm_sec r \<and> tm_sec r \<le> 59)"
  using gmtime_fields [of t]
  by (simp add: tm_to_rtc_wkalrm_def) (simp add: tm_to_rtc_time_def Let_def)

text \<open>
  Calls with a foreign handle do nothing: in any sequence of alarm requests, leaving out the
  ones whose handle is not the module's device gives the same final state.
\<close>

theorem system_foreign_handles:
  "handle_guarded.run (system_set_alarm D junk) cs s =
   handle_guarded.run (system_set_alarm D junk) (filter (\<lambda>c. snd c = nyxDev s) cs) s"
  by (rule set_alarm.run_filter)

text \<open>
  Ending the watch closes the descriptor of the clock twice: once when the channel is shut
  down and once by \<open>rtc_close\<close>, when it is still the descriptor the channel was made for.
\<close>

theorem rtc_clear_watch_closes_twice:
  assumes "rtc_channel s = Some (rtc_fd s, f)" "0 \<le> rtc_fd s"
  shows "rtc_clear_watch D s =
     (True, s\<lparr>rtc_fd := -1, rtc_channel := None,
              rtc_dev := drv_close D (rtc_fd s) (drv_close D (rtc_fd s) (rtc_dev s))\<rparr>)"
  using assms by (simp add: rtc_clear_watch_def rtc_close_def)

theorem rtc_clear_watch_closes_twice_witness:
  "rtc_dev (snd (rtc_clear_watch
       \<lparr>drv_open = (\<lambda>_ r. (5, r)), drv_close = (\<lambda>fd r. fd # r), drv_rd_time = (\<lambda>_ r. (None, r)),
        drv_alarm_set = (\<lambda>_ _ r. (True, r)), drv_alarm_rd = (\<lambda>_ r. (None, r)),
        drv_read = (\<lambda>_ r. (-1, 0, r))\<rparr>
       \<lparr>rtc_fd = 5, rtc_channel = Some (5, 1), curr_expiry = 0, rtc_dev = []\<rparr>)) = [5, 5 :: int]"
  by (subst rtc_clear_watch_closes_twice [where f = 1]) simp_all

end
