(* ===== verification/System_Alarms.thy ===== *)
theory System_Alarms
  imports System_Properties
begin

text \<open>
  From setting an alarm to its callback: the module together with a clock that keeps time and a main
  loop that watches the clock's descriptor.
\<close>

section \<open>A clock that fires its alarm\<close>

text \<open>
  The documented behaviour of the driver at the descriptor \<open>fd\<close>. Of a device state, \<open>now\<close> is the
  time, \<open>armed\<close> the time of the alarm if it is enabled, and \<open>fired\<close> says that an interrupt waits to
  be read; \<open>tick\<close> lets a second pass. Once an alarm has fired it may stay enabled, in the past.
\<close>

definition same_clock :: "('r \<Rightarrow> int) \<Rightarrow> ('r \<Rightarrow> int option) \<Rightarrow> ('r \<Rightarrow> bool) \<Rightarrow> 'r \<Rightarrow> 'r \<Rightarrow> bool" where
  "same_clock now armed fired r r' \<longleftrightarrow> now r' = now r \<and> armed r' = armed r \<and> fired r' = fired r"

definition alarm_clock ::
  "'r rtc_driver \<Rightarrow> int \<Rightarrow> ('r \<Rightarrow> int) \<Rightarrow> ('r \<Rightarrow> int option) \<Rightarrow> ('r \<Rightarrow> bool) \<Rightarrow> ('r \<Rightarrow> 'r) \<Rightarrow> bool" where
  "alarm_clock D fd now armed fired tick \<longleftrightarrow>
     (\<forall>r. \<exists>tm r'. drv_rd_time D fd r = (Some tm, r') \<and> timegm tm = now r \<and> same_clock now armed fired r r') \<and>
     (\<forall>r a. al_enabled a \<and> now r < timegm (al_time a) \<longrightarrow> (\<exists>r'. drv_alarm_set D fd a r = (True, r') \<and>
        now r' = now r \<and> armed r' = Some (timegm (al_time a)) \<and> fired r' = fired r)) \<and>
     (\<forall>r a. \<not> al_enabled a \<longrightarrow> (\<exists>r'. drv_alarm_set D fd a r = (True, r') \<and>
        now r' = now r \<and> armed r' = None \<and> fired r' = fired r)) \<and>
     (\<forall>r. \<exists>a r'. drv_alarm_rd D fd r = (Some a, r') \<and> (al_enabled a \<longleftrightarrow> armed r \<noteq> None) \<and> same_clock now armed fired r r') \<and>
     (\<forall>r. fired r \<longrightarrow> (\<exists>n data r'. drv_read D fd r = (n, data, r') \<and> 0 \<le> n \<and> and data RTC_AF \<noteq> 0 \<and>
        now r' = now r \<and> armed r' = armed r \<and> \<not> fired r')) \<and>
     (\<forall>r. now (tick r) = now r + 1 \<and> (fired (tick r) \<longleftrightarrow> fired r \<or> armed r = Some (now r + 1)) \<and>
        (armed (tick r) = armed r \<or> armed r = Some (now r + 1) \<and> armed (tick r) = None))"

lemma alarm_clockD:
  assumes "alarm_clock D fd now armed fired tick"
  shows "\<exists>tm r'. drv_rd_time D fd r = (Some tm, r') \<and> timegm tm = now r \<and> same_clock now armed fired r r'"
    and "al_enabled a \<Longrightarrow> now r < timegm (al_time a) \<Longrightarrow> \<exists>r'. drv_alarm_set D fd a r = (True, r') \<and>
        now r' = now r \<and> armed r' = Some (timegm (al_time a)) \<and> fired r' = fired r"
    and "\<not> al_enabled a \<Longrightarrow> \<exists>r'. drv_alarm_set D fd a r = (True, r') \<and>
        now r' = now r \<and> armed r' = None \<and> fired r' = fired r"
    and "\<exists>a r'. drv_alarm_rd D fd r = (Some a, r') \<and> (al_enabled a \<longleftrightarrow> armed r \<noteq> None) \<and> same_clock now armed fired r r'"
    and "fired r \<Longrightarrow> \<exists>n data r'. drv_read D fd r = (n, data, r') \<and> 0 \<le> n \<and> and data RTC_AF \<noteq> 0 \<and>
        now r' = now r \<and> armed r' = armed r \<and> \<not> fired r'"
    and "now (tick r) = now r + 1" "fired (tick r) \<longleftrightarrow> fired r \<or> armed r = Some (now r + 1)"
    and "armed (tick r) = armed r \<or> armed r = Some (now r + 1) \<and> armed (tick r) = None"
  using assms unfolding alarm_clock_def by blast+

section \<open>The main loop\<close>

text \<open>
  An iteration: the watch is dispatched when the descriptor it was made for is that of the clock and
  there is something to read. A watch for a descriptor that was closed is never dispatched. The
  result has the callback that is called, if any.
\<close>

definition main_loop ::
  "'r rtc_driver \<Rightarrow> rtc_wkalrm \<Rightarrow> ('r \<Rightarrow> bool) \<Rightarrow> 'r system \<Rightarrow> (ptr \<times> ptr) option \<times> 'r system" where
  "main_loop D junk fired s =
     (case rtc_channel (sys_rtc s) of
        None \<Rightarrow> (None, s)
      | Some (fd, func) \<Rightarrow>
          if fd = rtc_fd (sys_rtc s) \<and> 0 \<le> fd \<and> fired (rtc_dev (sys_rtc s)) then
            (let (stay, call, r) = rtc_event D junk (sys_rtc s); s' = s\<lparr>sys_rtc := r\<rparr> in
             (if call \<and> func = AlarmFiredCB_addr then AlarmFiredCB s' else None, s'))
          else (None, s))"

text \<open>A number of seconds, each followed by an iteration; the calls come with their times.\<close>

fun seconds ::
  "'r rtc_driver \<Rightarrow> rtc_wkalrm \<Rightarrow> ('r \<Rightarrow> int) \<Rightarrow> ('r \<Rightarrow> bool) \<Rightarrow> ('r \<Rightarrow> 'r) \<Rightarrow> nat \<Rightarrow> 'r system \<Rightarrow>
   (int \<times> ptr \<times> ptr) list \<times> 'r system" where
  "seconds D junk now fired tick 0 s = ([], s)"
| "seconds D junk now fired tick (Suc n) s =
     (let s1 = s\<lparr>sys_rtc := (sys_rtc s)\<lparr>rtc_dev := tick (rtc_dev (sys_rtc s))\<rparr>\<rparr>;
          (call, s2) = main_loop D junk fired s1;
          (calls, s3) = seconds D junk now fired tick n s2 in
      (map (\<lambda>(f, d). (now (rtc_dev (sys_rtc s1)), f, d)) (option_list call) @ calls, s3))"

section \<open>Waiting\<close>

text \<open>The clock is open and watched, and nothing waits to be read.\<close>

definition watching :: "ptr \<Rightarrow> int \<Rightarrow> ('r \<Rightarrow> bool) \<Rightarrow> 'r system \<Rightarrow> bool" where
  "watching cb fd fired s \<longleftrightarrow> 0 \<le> fd \<and> rtc_fd (sys_rtc s) = fd \<and> rtc_channel (sys_rtc s) = Some (fd, AlarmFiredCB_addr) \<and>
     alarm_fired_callback s = cb \<and> \<not> fired (rtc_dev (sys_rtc s))"

lemma clear_alarm_clock:
  assumes C: "alarm_clock D fd now armed fired tick" and fd: "rtc_fd r = fd"
  obtains r' where "rtc_clear_alarm D junk r = (True, r')" and "rtc_fd r' = fd" and "rtc_channel r' = rtc_channel r"
    and "now (rtc_dev r') = now (rtc_dev r)" and "armed (rtc_dev r') = None" and "fired (rtc_dev r') = fired (rtc_dev r)"
proof -
  obtain a r1 where rd: "drv_alarm_rd D fd (rtc_dev r) = (Some a, r1)" "al_enabled a \<longleftrightarrow> armed (rtc_dev r) \<noteq> None"
    "same_clock now armed fired (rtc_dev r) r1"
    using alarm_clockD(4) [OF C] by blast
  obtain r2 where set: "drv_alarm_set D fd (a\<lparr>al_enabled := False\<rparr>) r1 = (True, r2)"
    "now r2 = now r1" "armed r2 = None" "fired r2 = fired r1"
    using alarm_clockD(3) [OF C, of "a\<lparr>al_enabled := False\<rparr>" r1] by auto
  show ?thesis
    by (rule that [of "r\<lparr>rtc_dev := if al_enabled a then r2 else r1\<rparr>"])
      (use rd set fd in \<open>auto simp: rtc_clear_alarm_def rtc_read_alarm_def same_clock_def\<close>)
qed

text \<open>A second in which nothing is due, and the second in which the alarm is.\<close>

lemma quiet_second:
  assumes C: "alarm_clock D fd now armed fired tick" and w: "watching cb fd fired s"
    and a: "armed (rtc_dev (sys_rtc s)) \<noteq> Some (now (rtc_dev (sys_rtc s)) + 1)"
  defines "s1 \<equiv> s\<lparr>sys_rtc := (sys_rtc s)\<lparr>rtc_dev := tick (rtc_dev (sys_rtc s))\<rparr>\<rparr>"
  shows "main_loop D junk fired s1 = (None, s1)" and "watching cb fd fired s1"
    and "now (rtc_dev (sys_rtc s1)) = now (rtc_dev (sys_rtc s)) + 1"
    and "armed (rtc_dev (sys_rtc s1)) = armed (rtc_dev (sys_rtc s))"
  using alarm_clockD(6-8) [OF C, of "rtc_dev (sys_rtc s)"] w a
  by (auto simp: s1_def main_loop_def watching_def)

lemma due_second:
  assumes C: "alarm_clock D fd now armed fired tick" and w: "watching cb fd fired s" and cb: "cb \<noteq> NULL"
    and a: "armed (rtc_dev (sys_rtc s)) = Some (now (rtc_dev (sys_rtc s)) + 1)"
  defines "s1 \<equiv> s\<lparr>sys_rtc := (sys_rtc s)\<lparr>rtc_dev := tick (rtc_dev (sys_rtc s))\<rparr>\<rparr>"
  shows "\<exists>s2. main_loop D junk fired s1 = (Some (cb, nyxDev s), s2) \<and> watching cb fd fired s2 \<and>
    now (rtc_dev (sys_rtc s2)) = now (rtc_dev (sys_rtc s1)) \<and> armed (rtc_dev (sys_rtc s2)) = None"
proof -
  let ?r = "tick (rtc_dev (sys_rtc s))"
  have "fired ?r" using alarm_clockD(7) [OF C] a by simp
  then obtain n data r' where rd: "drv_read D fd ?r = (n, data, r')" "0 \<le> n" "and data RTC_AF \<noteq> 0"
    "now r' = now ?r" "\<not> fired r'"
    using alarm_clockD(5) [OF C] by blast
  have fd: "rtc_fd (sys_rtc s) = fd" "rtc_channel (sys_rtc s) = Some (fd, AlarmFiredCB_addr)" "0 \<le> fd"
    "alarm_fired_callback s = cb"
    using w by (simp_all add: watching_def)
  obtain rr where cl: "rtc_clear_alarm D junk ((sys_rtc s)\<lparr>rtc_dev := r'\<rparr>) = (True, rr)" "rtc_fd rr = fd"
    "rtc_channel rr = Some (fd, AlarmFiredCB_addr)" "now (rtc_dev rr) = now r'" "armed (rtc_dev rr) = None" "\<not> fired (rtc_dev rr)"
    by (rule clear_alarm_clock [OF C, of "(sys_rtc s)\<lparr>rtc_dev := r'\<rparr>" junk]) (use fd rd in auto)
  have "rtc_check_alarm D junk (sys_rtc s1) = (True, rr)"
    using rd(1-3) fd cl(1) by (simp add: rtc_check_alarm_def s1_def)
  then have "main_loop D junk fired s1 = (Some (cb, nyxDev s), s1\<lparr>sys_rtc := rr\<rparr>)"
    using fd \<open>fired ?r\<close> cb by (simp add: main_loop_def s1_def rtc_event_def AlarmFiredCB_def)
  then show ?thesis using cl fd rd(4) by (auto simp: watching_def s1_def)
qed

text \<open>Without an alarm, or with one in the past, nothing is called.\<close>

lemma idle_seconds:
  assumes C: "alarm_clock D fd now armed fired tick"
  shows "watching cb fd fired s \<Longrightarrow> armed (rtc_dev (sys_rtc s)) = None \<Longrightarrow> fst (seconds D junk now fired tick n s) = []"
proof (induction n arbitrary: s)
  case (Suc n)
  note q = quiet_second [OF C Suc.prems(1)]
  with Suc show ?case by (simp add: case_prod_beta)
qed simp

lemma alarm_seconds:
  assumes C: "alarm_clock D fd now armed fired tick" and cb: "cb \<noteq> NULL"
  shows "watching cb fd fired s \<Longrightarrow> armed (rtc_dev (sys_rtc s)) = Some due \<Longrightarrow> now (rtc_dev (sys_rtc s)) < due \<Longrightarrow>
    fst (seconds D junk now fired tick n s) =
      (if due \<le> now (rtc_dev (sys_rtc s)) + int n then [(due, cb, nyxDev s)] else [])"
proof (induction n arbitrary: s)
  case (Suc n)
  let ?s1 = "s\<lparr>sys_rtc := (sys_rtc s)\<lparr>rtc_dev := tick (rtc_dev (sys_rtc s))\<rparr>\<rparr>"
  show ?case
  proof (cases "due = now (rtc_dev (sys_rtc s)) + 1")
    case True
    obtain s2 where s2: "main_loop D junk fired ?s1 = (Some (cb, nyxDev s), s2)" "watching cb fd fired s2"
      "armed (rtc_dev (sys_rtc s2)) = None"
      using due_second [OF C Suc.prems(1) cb, of junk] Suc.prems(2) True by auto
    have "now (rtc_dev (sys_rtc ?s1)) = due" using alarm_clockD(6) [OF C] True by simp
    with s2 idle_seconds [OF C s2(2,3)] True show ?thesis by (simp add: case_prod_beta)
  next
    case False
    note q = quiet_second [OF C Suc.prems(1)]
    from False Suc.prems(2) q Suc.IH [of ?s1] Suc.prems(3) show ?thesis by (simp add: case_prod_beta)
  qed
qed simp

section \<open>The property\<close>

text \<open>
  C19: An alarm is delivered. After setting an alarm for a new time with a callback, on a clock that
  behaves as documented and is watched by nobody else, the callback is called exactly once: in the
  second of the requested time, or two seconds from now if that is later; never before, and not
  again afterwards, however long the main loop runs.
\<close>

theorem system_alarm_delivered:
  assumes C: "alarm_clock D (rtc_fd (sys_rtc s)) now armed fired tick"
    and h: "handle = nyxDev s" and fd: "0 \<le> rtc_fd (sys_rtc s)" and t: "t \<noteq> 0" "t \<noteq> curr_expiry (sys_rtc s)"
    and cb: "cb \<noteq> NULL"
    and w: "rtc_channel (sys_rtc s) = None \<or> rtc_channel (sys_rtc s) = Some (rtc_fd (sys_rtc s), AlarmFiredCB_addr)"
    and idle: "\<not> fired (rtc_dev (sys_rtc s))"
  shows "\<exists>s'. system_set_alarm D junk (t, cb) handle s = (NYX_ERROR_NONE, (), s') \<and>
    (\<forall>junk' n. fst (seconds D junk' now fired tick n s') =
       (let due = max t (now (rtc_dev (sys_rtc s)) + 2) in
        if due \<le> now (rtc_dev (sys_rtc s)) + int n then [(due, cb, handle)] else []))"
proof -
  let ?fd = "rtc_fd (sys_rtc s)" and ?r = "rtc_dev (sys_rtc s)"
  let ?due = "max t (now ?r + 2)"
  obtain tm ra where rd: "drv_rd_time D ?fd ?r = (Some tm, ra)" "timegm tm = now ?r" "same_clock now armed fired ?r ra"
    using alarm_clockD(1) [OF C] by blast
  let ?a = "tm_to_rtc_wkalrm (gmtime (max t (timegm tm + 2)))"
  have a: "al_enabled ?a" "timegm (al_time ?a) = ?due" by (simp_all add: tm_to_rtc_wkalrm_def gmtime_fields(11) rd(2))
  have "now ?r < ?due" by simp
  then obtain rb where rb: "drv_alarm_set D ?fd ?a ra = (True, rb)" "now rb = now ?r" "armed rb = Some ?due" "\<not> fired rb"
    using alarm_clockD(2) [OF C a(1), of ra] rd(3) a(2) idle by (auto simp: same_clock_def)
  define s' where "s' = s\<lparr>alarm_fired_callback := cb,
      sys_rtc := snd (rtc_add_watch AlarmFiredCB_addr ((sys_rtc s)\<lparr>curr_expiry := t, rtc_dev := rb\<rparr>))\<rparr>"
  have set: "system_set_alarm D junk (t, cb) handle s = (NYX_ERROR_NONE, (), s')"
    using system_set_alarm_new [OF h fd t cb rd(1) rb(1), of junk] by (simp add: s'_def)
  have "watching cb ?fd fired s'" and dev: "rtc_dev (sys_rtc s') = rb" "nyxDev s' = nyxDev s"
    using fd w rb(4) by (auto simp: watching_def s'_def rtc_add_watch_def)
  from alarm_seconds [OF C cb this(1), of ?due] rb(2,3) dev
  have "fst (seconds D junk' now fired tick n s') = (if ?due \<le> now ?r + int n then [(?due, cb, nyxDev s)] else [])" for junk' n
    by simp
  with set h show ?thesis unfolding Let_def by blast
qed

text \<open>A watch that was made for a descriptor that has been closed reports no alarm at all.\<close>

lemma stale_watch_silent:
  assumes "rtc_channel (sys_rtc s) = Some (fd, f)" and "fd \<noteq> rtc_fd (sys_rtc s)"
  shows "fst (seconds D junk now fired tick n s) = []"
  using assms by (induction n arbitrary: s) (simp_all add: main_loop_def)

text \<open>Closing the module leaves such a watch behind.\<close>

lemma close_leaves_watch:
  assumes "rtc_channel (sys_rtc s) = Some (rtc_fd (sys_rtc s), f)" and "0 \<le> rtc_fd (sys_rtc s)"
  shows "\<exists>s'. system_module_close D s = (NYX_ERROR_NONE, s') \<and> rtc_fd (sys_rtc s') = -1 \<and>
    rtc_channel (sys_rtc s') = Some (rtc_fd (sys_rtc s), f)"
  using assms by (simp add: system_module_close_def rtc_close_def)

section \<open>A concrete clock\<close>

record alarm_ex = ex_clock +
  ae_fired :: bool

definition alarm_ex_driver :: "alarm_ex rtc_driver" where
  "alarm_ex_driver = \<lparr>drv_open = (\<lambda>_ r. (5, r)), drv_close = (\<lambda>_ r. r),
     drv_rd_time = (\<lambda>_ r. (Some (gmtime (ec_time r)), r)),
     drv_alarm_set = (\<lambda>_ a r. (True, r\<lparr>ec_alarm := a\<rparr>)),
     drv_alarm_rd = (\<lambda>_ r. (Some (ec_alarm r), r)),
     drv_read = (\<lambda>_ r. (8, if ae_fired r then 0x20 else 0, r\<lparr>ae_fired := False\<rparr>))\<rparr>"

definition ae_armed :: "alarm_ex \<Rightarrow> int option" where
  "ae_armed r = (if al_enabled (ec_alarm r) then Some (timegm (al_time (ec_alarm r))) else None)"

definition ae_tick :: "alarm_ex \<Rightarrow> alarm_ex" where
  "ae_tick r = r\<lparr>ec_time := ec_time r + 1, ae_fired := ae_fired r \<or> ae_armed r = Some (ec_time r + 1)\<rparr>"

lemma alarm_ex_clock: "alarm_clock alarm_ex_driver fd ec_time ae_armed ae_fired ae_tick"
  by (simp add: alarm_clock_def alarm_ex_driver_def ae_armed_def ae_tick_def same_clock_def gmtime_fields(11) RTC_AF_def)

definition alarm_ex_system :: "alarm_ex system" where
  "alarm_ex_system = \<lparr>nyxDev = 7, alarm_fired_callback = NULL,
     sys_rtc = \<lparr>rtc_fd = 5, rtc_channel = None, curr_expiry = 0,
                rtc_dev = \<lparr>ec_time = 1000, ec_alarm = ex_alarm, ae_fired = False\<rparr>\<rparr>\<rparr>"

theorem system_alarm_delivered_witness:
  "\<exists>s'. system_set_alarm alarm_ex_driver ex_alarm (1005, 3) 7 alarm_ex_system = (NYX_ERROR_NONE, (), s') \<and>
    fst (seconds alarm_ex_driver ex_alarm ec_time ae_fired ae_tick 4 s') = [] \<and>
    fst (seconds alarm_ex_driver ex_alarm ec_time ae_fired ae_tick 60 s') = [(1005, 3, 7)]"
proof -
  have s: "7 = nyxDev alarm_ex_system" "0 \<le> rtc_fd (sys_rtc alarm_ex_system)" "(1005 :: int) \<noteq> 0"
    "1005 \<noteq> curr_expiry (sys_rtc alarm_ex_system)" "(3 :: ptr) \<noteq> NULL"
    "rtc_channel (sys_rtc alarm_ex_system) = None \<or>
      rtc_channel (sys_rtc alarm_ex_system) = Some (rtc_fd (sys_rtc alarm_ex_system), AlarmFiredCB_addr)"
    "\<not> ae_fired (rtc_dev (sys_rtc alarm_ex_system))" "ec_time (rtc_dev (sys_rtc alarm_ex_system)) = 1000"
    by (simp_all add: alarm_ex_system_def)
  obtain s' where s': "system_set_alarm alarm_ex_driver ex_alarm (1005, 3) 7 alarm_ex_system = (NYX_ERROR_NONE, (), s')"
    "\<And>n. fst (seconds alarm_ex_driver ex_alarm ec_time ae_fired ae_tick n s') =
       (let due = max 1005 (ec_time (rtc_dev (sys_rtc alarm_ex_system)) + 2) in
        if due \<le> ec_time (rtc_dev (sys_rtc alarm_ex_system)) + int n then [(due, 3, 7)] else [])"
    using system_alarm_delivered [OF alarm_ex_clock s(1-7), of ex_alarm] by blast
  show ?thesis using s'(1) s'(2) [of 4] s'(2) [of 60] by (simp add: s(8))
qed

end
