(* ===== verification/Power_Utils.thy ===== *)
theory Power_Utils
  imports C_Float "HOL-Library.Char_ord"
begin

text \<open>
  utils.c: reading values from files and finding the sysfs directory of a power supply. A file
  system is a record of what glib and nyx-lib answer about paths. \<open>strtod\<close> is modelled for
  decimal numbers.
\<close>

section \<open>The file system\<close>

text \<open>
  \<open>fs_contents\<close>: g_file_get_contents; \<open>fs_dir\<close>: g_dir_open and the names it lists, in order;
  \<open>fs_is_dir\<close>, \<open>fs_exists\<close>: g_file_test; \<open>fs_value\<close>: nyx_utils_read_value of nyx-lib, an int
  that is negative when there is no value.
\<close>

record file_system =
  fs_contents :: "string \<Rightarrow> string option"
  fs_dir :: "string \<Rightarrow> string list option"
  fs_is_dir :: "string \<Rightarrow> bool"
  fs_exists :: "string \<Rightarrow> bool"
  fs_value :: "string \<Rightarrow> int"

section \<open>Strings\<close>

definition c_string :: "string \<Rightarrow> string" where
  "c_string s = takeWhile (\<lambda>c. c \<noteq> CHR 0x00) s"

text \<open>g_ascii_isspace: space, \<open>\t\<close>, \<open>\n\<close>, \<open>\f\<close>, \<open>\r\<close>; isspace has \<open>\v\<close> as well.\<close>

definition ascii_space :: "char \<Rightarrow> bool" where
  "ascii_space c \<longleftrightarrow> c \<in> {CHR 0x20, CHR 0x09, CHR 0x0A, CHR 0x0C, CHR 0x0D}"

definition g_strstrip :: "string \<Rightarrow> string" where
  "g_strstrip s = rev (dropWhile ascii_space (rev (dropWhile ascii_space (c_string s))))"

text \<open>The string that g_strlcpy leaves in a buffer of \<open>maxlen\<close> bytes.\<close>

definition g_strlcpy :: "string \<Rightarrow> nat \<Rightarrow> string" where
  "g_strlcpy s maxlen = take (maxlen - 1) s"

text \<open>
  The result code and the buffer, which keeps its old contents on failure. A path may be NULL.
\<close>

definition FileGetString ::
  "file_system \<Rightarrow> string option \<Rightarrow> string \<Rightarrow> nat \<Rightarrow> int \<times> string" where
  "FileGetString fs path ret_string maxlen =
     (case Option.bind path (fs_contents fs) of
        None \<Rightarrow> (-1, ret_string)
      | Some contents \<Rightarrow> (0, g_strlcpy (g_strstrip contents) maxlen))"

section \<open>strtod for decimal numbers\<close>

definition digit_val :: "char \<Rightarrow> int option" where
  "digit_val c = (if CHR 0x30 \<le> c \<and> c \<le> CHR 0x39 then Some (of_char c - 48) else None)"

definition is_digit :: "char \<Rightarrow> bool" where
  "is_digit c \<longleftrightarrow> digit_val c \<noteq> None"

definition digits_val :: "string \<Rightarrow> int" where
  "digits_val ds = foldl (\<lambda>v c. v * 10 + the (digit_val c)) 0 ds"

definition skip_sign :: "string \<Rightarrow> bool \<times> string" where
  "skip_sign s = (case s of [] \<Rightarrow> (False, [])
     | c # cs \<Rightarrow> if c = CHR 0x2D then (True, cs) else if c = CHR 0x2B then (False, cs) else (False, s))"

text \<open>The exponent part, when there is a complete one.\<close>

definition exponent_part :: "string \<Rightarrow> int" where
  "exponent_part s =
     (case s of [] \<Rightarrow> 0
      | c # cs \<Rightarrow>
          if c = CHR 0x65 \<or> c = CHR 0x45 then
            (let (neg, r) = skip_sign cs; ds = takeWhile is_digit r in
             if ds = [] then 0 else if neg then - digits_val ds else digits_val ds)
          else 0)"

definition pow10 :: "int \<Rightarrow> rat" where
  "pow10 k = (if 0 \<le> k then 10 ^ nat k else 1 / 10 ^ nat (- k))"

text \<open>
  \<open>None\<close> means that no conversion was made (\<open>endptr == contents\<close>); the inner option is the
  double, \<open>None\<close> when it is not finite.
\<close>

definition strtod :: "string \<Rightarrow> rat option option" where
  "strtod s0 =
     (let s = dropWhile (\<lambda>c. ascii_space c \<or> c = CHR 0x0B) (c_string s0);
          (neg, s1) = skip_sign s;
          ip = takeWhile is_digit s1;
          s2 = dropWhile is_digit s1;
          fp = (case s2 of [] \<Rightarrow> [] | c # cs \<Rightarrow> if c = CHR 0x2E then takeWhile is_digit cs else []);
          s3 = (case s2 of [] \<Rightarrow> []
                | c # cs \<Rightarrow> if c = CHR 0x2E then dropWhile is_digit cs else s2);
          e = exponent_part s3;
          m = of_int (digits_val (ip @ fp)) * pow10 (e - int (length fp)) in
      if ip @ fp = [] then None else Some (f64 (if neg then - m else m)))"

text \<open>
  The value goes through a float. \<open>ret_data\<close> is \<open>None\<close> for a NULL pointer; otherwise what the
  caller's double holds. Invalid contents give the result 0 and leave the double as it was.
\<close>

definition FileGetDouble ::
  "file_system \<Rightarrow> string option \<Rightarrow> rat option option \<Rightarrow> int \<times> rat option option" where
  "FileGetDouble fs path ret_data =
     (case Option.bind path (fs_contents fs) of
        None \<Rightarrow> (-1, ret_data)
      | Some contents \<Rightarrow>
          (case strtod contents of
             None \<Rightarrow> (0, ret_data)
           | Some d \<Rightarrow> (0, map_option (\<lambda>_. Option.bind d f32) ret_data)))"

section \<open>Finding a power supply\<close>

definition base_dir :: string where
  "base_dir = ''/sys/class/power_supply/''"

text \<open>
  The inner loop; \<open>file_contents\<close> is the buffer of 64 bytes, which is not reset between files.
\<close>

fun scan_files ::
  "file_system \<Rightarrow> string \<Rightarrow> string \<Rightarrow> string list \<Rightarrow> string \<Rightarrow> bool \<times> string" where
  "scan_files fs device_type dir_path [] file_contents = (False, file_contents)"
| "scan_files fs device_type dir_path (file_name # names) file_contents =
     (if file_name = ''type'' then
        (let (_, buf) = FileGetString fs (Some (dir_path @ ''/'' @ file_name)) file_contents 64 in
         if buf = device_type then (True, buf)
         else scan_files fs device_type dir_path names buf)
      else scan_files fs device_type dir_path names file_contents)"

text \<open>The outer loop: a subdirectory that cannot be opened ends the search.\<close>

fun scan_supplies ::
  "file_system \<Rightarrow> string \<Rightarrow> string list \<Rightarrow> string \<Rightarrow> string option" where
  "scan_supplies fs device_type [] file_contents = None"
| "scan_supplies fs device_type (name # names) file_contents =
     (if name \<noteq> [] \<and> hd name = CHR 0x2E then scan_supplies fs device_type names file_contents
      else
        (let dir_path = base_dir @ name in
         if fs_is_dir fs dir_path then
           (case fs_dir fs dir_path of
              None \<Rightarrow> None
            | Some files \<Rightarrow>
                (let (found, buf) = scan_files fs device_type dir_path files file_contents in
                 if found then Some dir_path else scan_supplies fs device_type names buf))
         else scan_supplies fs device_type names file_contents))"

definition find_power_supply_sysfs_path :: "file_system \<Rightarrow> string \<Rightarrow> string \<Rightarrow> string option" where
  "find_power_supply_sysfs_path fs junk device_type =
     (case fs_dir fs base_dir of
        None \<Rightarrow> None
      | Some names \<Rightarrow> scan_supplies fs device_type names junk)"

section \<open>What the search finds\<close>

text \<open>Whether the type file of a supply directory names the type, and which entries are looked into.\<close>

definition has_type :: "file_system \<Rightarrow> string \<Rightarrow> string \<Rightarrow> bool" where
  "has_type fs device_type dir_path \<longleftrightarrow>
     (case fs_contents fs (dir_path @ ''/type'') of
        None \<Rightarrow> False
      | Some c \<Rightarrow> g_strlcpy (g_strstrip c) 64 = device_type)"

definition supply_dir :: "file_system \<Rightarrow> string \<Rightarrow> bool" where
  "supply_dir fs name \<longleftrightarrow> \<not> (name \<noteq> [] \<and> hd name = CHR 0x2E) \<and> fs_is_dir fs (base_dir @ name)"

lemma scan_files_correct:
  assumes "file_contents \<noteq> device_type"
  shows "(fst (scan_files fs device_type dir_path names file_contents) \<longleftrightarrow>
            ''type'' \<in> set names \<and> has_type fs device_type dir_path) \<and>
     (\<not> fst (scan_files fs device_type dir_path names file_contents) \<longrightarrow>
        snd (scan_files fs device_type dir_path names file_contents) \<noteq> device_type)"
  using assms
proof (induction names arbitrary: file_contents)
  case (Cons n ns)
  show ?case
  proof (cases "n = ''type''")
    case True
    then show ?thesis
      using Cons.IH [of file_contents] Cons.prems
        Cons.IH [of "g_strlcpy (g_strstrip (the (fs_contents fs (dir_path @ ''/type'')))) 64"]
      by (auto simp: FileGetString_def has_type_def split: option.splits)
  next
    case False
    with Cons show ?thesis by simp
  qed
qed simp

lemma scan_supplies_correct:
  assumes "file_contents \<noteq> device_type"
    and "\<forall>n \<in> set names. supply_dir fs n \<longrightarrow> (\<exists>files. fs_dir fs (base_dir @ n) = Some files)"
  shows "scan_supplies fs device_type names file_contents =
     map_option (\<lambda>n. base_dir @ n)
       (List.find (\<lambda>n. supply_dir fs n \<and> ''type'' \<in> set (the (fs_dir fs (base_dir @ n))) \<and>
                       has_type fs device_type (base_dir @ n)) names)"
  using assms
proof (induction names arbitrary: file_contents)
  case (Cons n ns)
  show ?case
  proof (cases "supply_dir fs n")
    case False
    then have "scan_supplies fs device_type (n # ns) file_contents
        = scan_supplies fs device_type ns file_contents"
      by (auto simp: supply_dir_def Let_def)
    with Cons False show ?thesis by simp
  next
    case True
    then obtain files where files: "fs_dir fs (base_dir @ n) = Some files" using Cons.prems(2) by auto
    obtain found buf where sf: "scan_files fs device_type (base_dir @ n) files file_contents = (found, buf)"
      by fastforce
    have f: "found \<longleftrightarrow> ''type'' \<in> set files \<and> has_type fs device_type (base_dir @ n)"
      "\<not> found \<Longrightarrow> buf \<noteq> device_type"
      using scan_files_correct [OF Cons.prems(1), of fs "base_dir @ n" files] by (simp_all add: sf)
    have "scan_supplies fs device_type (n # ns) file_contents =
        (if found then Some (base_dir @ n) else scan_supplies fs device_type ns buf)"
      using True files sf by (auto simp: supply_dir_def Let_def)
    with f files True Cons.IH [of buf] Cons.prems(2) show ?thesis by (cases found) auto
  qed
qed simp

end
