(* ===== verification/Battery_Backends.thy ===== *)
theory Battery_Backends
  imports Power_Utils
begin

text \<open>
  The two files that read a battery: device/battery.c from sysfs and emulator/fake_battery.c from
  files of a script. Both provide the functions of battery_read.h; \<open>battery_backend\<close> states what
  the battery library relies on, and both are shown to be one.
\<close>

section \<open>The interface\<close>

text \<open>
  battery_read.h: the readings of a battery, from the files as they are. A double that is not
  finite is \<open>None\<close>; \<open>bk_percent\<close> may divide by zero, and then is \<open>None\<close>.
\<close>

record backend =
  bk_percent :: "file_system \<Rightarrow> int option"
  bk_temperature :: "file_system \<Rightarrow> int"
  bk_voltage :: "file_system \<Rightarrow> int"
  bk_current :: "file_system \<Rightarrow> int"
  bk_avg_current :: "file_system \<Rightarrow> int"
  bk_full40 :: "file_system \<Rightarrow> rat option"
  bk_rawcoulomb :: "file_system \<Rightarrow> rat option"
  bk_coulomb :: "file_system \<Rightarrow> rat option"
  bk_age :: "file_system \<Rightarrow> rat option"
  bk_is_present :: "file_system \<Rightarrow> bool"

text \<open>
  What the library relies on: integer readings are -1 for an error and not negative otherwise.
\<close>

locale battery_backend =
  fixes B :: backend
  assumes percent_code: "bk_percent B fs = Some p \<Longrightarrow> -1 \<le> p"
    and temperature_code: "-1 \<le> bk_temperature B fs"
    and voltage_code: "-1 \<le> bk_voltage B fs"
    and current_code: "-1 \<le> bk_current B fs"

section \<open>The device\<close>

text \<open>The paths of the nodes of a battery, empty strings until the battery has been found.\<close>

definition PATH_LEN :: nat where
  "PATH_LEN = 128"

record battery_paths =
  batt_capacity_path :: string
  batt_energy_now_path :: string
  batt_energy_full_path :: string
  batt_charge_now_path :: string
  batt_charge_full_path :: string
  batt_charge_full_design_path :: string
  batt_temperature_path :: string
  batt_voltage_path :: string
  batt_current_path :: string
  batt_present_path :: string

definition no_paths :: battery_paths where
  "no_paths = \<lparr>batt_capacity_path = [], batt_energy_now_path = [], batt_energy_full_path = [],
     batt_charge_now_path = [], batt_charge_full_path = [], batt_charge_full_design_path = [],
     batt_temperature_path = [], batt_voltage_path = [], batt_current_path = [],
     batt_present_path = []\<rparr>"

text \<open>snprintf of a path into a buffer of \<open>PATH_LEN\<close> bytes.\<close>

definition node_path :: "string \<Rightarrow> string \<Rightarrow> string" where
  "node_path dir node = take (PATH_LEN - 1) (dir @ node)"

definition detect_battery_sysfs_paths :: "file_system \<Rightarrow> string \<Rightarrow> battery_paths \<Rightarrow> battery_paths" where
  "detect_battery_sysfs_paths fs junk P =
     (case find_power_supply_sysfs_path fs junk ''Battery'' of
        None \<Rightarrow> P
      | Some d \<Rightarrow> \<lparr>batt_capacity_path = node_path d ''/capacity'',
          batt_energy_now_path = node_path d ''/energy_now'',
          batt_energy_full_path = node_path d ''/energy_full'',
          batt_charge_now_path = node_path d ''/charge_now'',
          batt_charge_full_path = node_path d ''/charge_full'',
          batt_charge_full_design_path = node_path d ''/charge_full_design'',
          batt_temperature_path = node_path d ''/temp'',
          batt_voltage_path = node_path d ''/voltage_now'',
          batt_current_path = node_path d ''/current_now'',
          batt_present_path = node_path d ''/present''\<rparr>)"

text \<open>A node that exists and has a value that is not negative.\<close>

definition node_value :: "file_system \<Rightarrow> string \<Rightarrow> int option" where
  "node_value fs path =
     (if \<not> fs_exists fs path then None
      else if fs_value fs path < 0 then None else Some (fs_value fs path))"

definition battery_percent :: "battery_paths \<Rightarrow> file_system \<Rightarrow> int option" where
  "battery_percent P fs =
     (case node_value fs (batt_capacity_path P) of
        Some capacity \<Rightarrow> Some capacity
      | None \<Rightarrow>
          if fs_exists fs (batt_energy_now_path P) \<and> fs_exists fs (batt_energy_full_path P) then
            (let now = fs_value fs (batt_energy_now_path P) in
             if now < 0 then Some (-1)
             else (let full = fs_value fs (batt_energy_full_path P) in
                   if full < 0 then Some (-1) else c_div now full))
          else if fs_exists fs (batt_charge_full_path P) \<and> fs_exists fs (batt_charge_now_path P) then
            (let full = fs_value fs (batt_charge_full_path P) in
             if full < 0 then Some (-1)
             else (let now = fs_value fs (batt_charge_now_path P) in
                   if now < 0 then Some (-1) else c_div now full))
          else Some (-1))"

definition int_or_error :: "int option \<Rightarrow> int" where
  "int_or_error v = (case v of None \<Rightarrow> -1 | Some x \<Rightarrow> x)"

definition battery_temperature :: "battery_paths \<Rightarrow> file_system \<Rightarrow> int" where
  "battery_temperature P fs = int_or_error (node_value fs (batt_temperature_path P))"

definition battery_voltage :: "battery_paths \<Rightarrow> file_system \<Rightarrow> int" where
  "battery_voltage P fs = int_or_error (node_value fs (batt_voltage_path P))"

definition battery_current :: "battery_paths \<Rightarrow> file_system \<Rightarrow> int" where
  "battery_current P fs = int_or_error (node_value fs (batt_current_path P))"

definition battery_avg_current :: "battery_paths \<Rightarrow> file_system \<Rightarrow> int" where
  "battery_avg_current P fs = -1"

text \<open>From microampere hours to milliampere hours, as a double.\<close>

definition milli :: "int \<Rightarrow> rat option" where
  "milli v = f64 (of_int v / 1000)"

definition battery_full40 :: "battery_paths \<Rightarrow> file_system \<Rightarrow> rat option" where
  "battery_full40 P fs =
     (case node_value fs (batt_charge_full_path P) of
        Some charge_full \<Rightarrow> milli charge_full
      | None \<Rightarrow>
          (case node_value fs (batt_charge_full_design_path P) of
             Some charge_full \<Rightarrow> milli charge_full
           | None \<Rightarrow> Some (-1)))"

definition battery_rawcoulomb :: "battery_paths \<Rightarrow> file_system \<Rightarrow> rat option" where
  "battery_rawcoulomb P fs = Some (-1)"

definition battery_coulomb :: "battery_paths \<Rightarrow> file_system \<Rightarrow> rat option" where
  "battery_coulomb P fs =
     (case node_value fs (batt_charge_now_path P) of
        Some charge_now \<Rightarrow> milli charge_now
      | None \<Rightarrow> Some (-1))"

definition battery_age :: "battery_paths \<Rightarrow> file_system \<Rightarrow> rat option" where
  "battery_age P fs = Some (-1)"

definition battery_is_present :: "battery_paths \<Rightarrow> file_system \<Rightarrow> bool" where
  "battery_is_present P fs =
     (case node_value fs (batt_present_path P) of
        None \<Rightarrow> False
      | Some present \<Rightarrow> present = 1)"

definition device_backend :: "battery_paths \<Rightarrow> backend" where
  "device_backend P = \<lparr>bk_percent = battery_percent P, bk_temperature = battery_temperature P,
     bk_voltage = battery_voltage P, bk_current = battery_current P,
     bk_avg_current = battery_avg_current P, bk_full40 = battery_full40 P,
     bk_rawcoulomb = battery_rawcoulomb P, bk_coulomb = battery_coulomb P,
     bk_age = battery_age P, bk_is_present = battery_is_present P\<rparr>"

lemma int_or_error_bound: "-1 \<le> int_or_error (node_value fs p)"
  by (simp add: int_or_error_def node_value_def)

lemma c_div_nonneg: "c_div a b = Some q \<Longrightarrow> 0 \<le> a \<Longrightarrow> 0 \<le> b \<Longrightarrow> 0 \<le> q"
  by (auto simp: c_div_def i32_def sdiv_nonneg pos_imp_zdiv_nonneg_iff split: if_splits)

interpretation device: battery_backend "device_backend P" for P
proof (unfold_locales, goal_cases)
  case (1 fs p)
  then show ?case
    by (auto simp: device_backend_def battery_percent_def node_value_def Let_def
        split: if_splits option.splits dest: c_div_nonneg)
qed (simp_all add: device_backend_def battery_temperature_def battery_voltage_def
      battery_current_def int_or_error_bound)

section \<open>The emulator\<close>

definition SYSFS_DEVICE :: string where
  "SYSFS_DEVICE = ''/tmp/powerd/fake/battery/''"

definition fake_value :: "file_system \<Rightarrow> string \<Rightarrow> int" where
  "fake_value fs node = (let val = fs_value fs (SYSFS_DEVICE @ node) in if val < 0 then -1 else val)"

definition fake_milli :: "file_system \<Rightarrow> string \<Rightarrow> int" where
  "fake_milli fs node =
     (let val = fs_value fs (SYSFS_DEVICE @ node) in if val < 0 then -1 else val sdiv 1000)"

definition fake_percent :: "file_system \<Rightarrow> int option" where
  "fake_percent fs = Some (fake_value fs ''getpercent'')"

definition fake_temperature :: "file_system \<Rightarrow> int" where
  "fake_temperature fs = fake_value fs ''gettemp''"

definition fake_voltage :: "file_system \<Rightarrow> int" where
  "fake_voltage fs = fake_milli fs ''getvoltage''"

definition fake_current :: "file_system \<Rightarrow> int" where
  "fake_current fs = fake_milli fs ''getcurrent''"

definition fake_avg_current :: "file_system \<Rightarrow> int" where
  "fake_avg_current fs = fake_milli fs ''getavgcurrent''"

text \<open>\<open>junk\<close> is the uninitialised local double.\<close>

definition fake_double :: "rat option \<Rightarrow> file_system \<Rightarrow> string \<Rightarrow> rat option" where
  "fake_double junk fs node =
     (case FileGetDouble fs (Some (SYSFS_DEVICE @ node)) (Some junk) of
        (ret, val) \<Rightarrow> if ret \<noteq> 0 then Some (-1) else (case val of Some v \<Rightarrow> v | None \<Rightarrow> junk))"

definition fake_full40 :: "rat option \<Rightarrow> file_system \<Rightarrow> rat option" where
  "fake_full40 junk fs = fake_double junk fs ''getfull40''"

definition fake_rawcoulomb :: "rat option \<Rightarrow> file_system \<Rightarrow> rat option" where
  "fake_rawcoulomb junk fs = fake_double junk fs ''getrawcoulomb''"

definition fake_coulomb :: "rat option \<Rightarrow> file_system \<Rightarrow> rat option" where
  "fake_coulomb junk fs = fake_double junk fs ''getcoulomb''"

definition fake_age :: "rat option \<Rightarrow> file_system \<Rightarrow> rat option" where
  "fake_age junk fs = fake_double junk fs ''getage''"

definition fake_is_present :: "file_system \<Rightarrow> bool" where
  "fake_is_present fs \<longleftrightarrow> 0 < fake_voltage fs"

definition fake_backend :: "rat option \<Rightarrow> backend" where
  "fake_backend junk = \<lparr>bk_percent = fake_percent, bk_temperature = fake_temperature,
     bk_voltage = fake_voltage, bk_current = fake_current, bk_avg_current = fake_avg_current,
     bk_full40 = fake_full40 junk, bk_rawcoulomb = fake_rawcoulomb junk,
     bk_coulomb = fake_coulomb junk, bk_age = fake_age junk, bk_is_present = fake_is_present\<rparr>"

lemma fake_bounds: "-1 \<le> fake_value fs n" "-1 \<le> fake_milli fs n"
proof -
  show "-1 \<le> fake_value fs n" by (simp add: fake_value_def Let_def)
  have "-1 \<le> v sdiv 1000" if "\<not> v < 0" for v :: int
    using that pos_imp_zdiv_nonneg_iff [of 1000 v] by (simp add: sdiv_nonneg)
  then show "-1 \<le> fake_milli fs n" by (simp add: fake_milli_def Let_def)
qed

interpretation fake: battery_backend "fake_backend junk" for junk
  by unfold_locales
    (auto simp: fake_backend_def fake_percent_def fake_temperature_def fake_voltage_def
      fake_current_def intro: fake_bounds)

section \<open>What both have in common\<close>

record battery_ctia =
  charge_min_temp_c :: int
  charge_max_temp_c :: int
  battery_crit_max_temp :: int
  skip_battery_authentication :: bool

definition CHARGE_MAX_TEMPERATURE_C :: int where
  "CHARGE_MAX_TEMPERATURE_C = 57"

definition BATTERY_MAX_TEMPERATURE_C :: int where
  "BATTERY_MAX_TEMPERATURE_C = 60"

text \<open>The other fields of the static struct keep their contents.\<close>

definition get_battery_ctia_params :: battery_ctia where
  "get_battery_ctia_params = \<lparr>charge_min_temp_c = 0, charge_max_temp_c = CHARGE_MAX_TEMPERATURE_C,
     battery_crit_max_temp = BATTERY_MAX_TEMPERATURE_C, skip_battery_authentication = True\<rparr>"

definition battery_authenticate :: bool where
  "battery_authenticate = True"

definition battery_is_authenticated :: "string \<Rightarrow> string \<Rightarrow> bool" where
  "battery_is_authenticated pair_challenge pair_response = True"

text \<open>The emulator has its own copies, which the library cannot tell from these.\<close>

definition fake_get_battery_ctia_params :: battery_ctia where
  "fake_get_battery_ctia_params = \<lparr>charge_min_temp_c = 0, charge_max_temp_c = 57,
     battery_crit_max_temp = 60, skip_battery_authentication = True\<rparr>"

definition fake_authenticate :: bool where
  "fake_authenticate = True"

definition fake_is_authenticated :: "string \<Rightarrow> string \<Rightarrow> bool" where
  "fake_is_authenticated pair_challenge pair_response = True"

lemma fake_same:
  "fake_get_battery_ctia_params = get_battery_ctia_params" "fake_authenticate = battery_authenticate"
  "fake_is_authenticated = battery_is_authenticated"
  by (simp_all add: fake_get_battery_ctia_params_def get_battery_ctia_params_def CHARGE_MAX_TEMPERATURE_C_def
      BATTERY_MAX_TEMPERATURE_C_def fake_authenticate_def battery_authenticate_def fun_eq_iff
      fake_is_authenticated_def battery_is_authenticated_def)

end
