(* ===== verification/Battery_Lib.thy ===== *)
theory Battery_Lib
  imports Battery_Backends
begin

text \<open>
  batterylib.c: the operations of the battery module on top of a backend, and the udev handler
  and start of the device backend, which call back into the library.
\<close>

section \<open>State\<close>

record battery_status =
  bs_present :: bool
  bs_percentage :: int
  bs_temperature :: int
  bs_current :: int
  bs_voltage :: int
  bs_avg_current :: int
  bs_capacity :: "rat option"
  bs_capacity_raw :: "rat option"
  bs_capacity_full40 :: "rat option"
  bs_age :: "rat option"
  bs_charging :: bool

definition zero_status :: battery_status where
  "zero_status = \<lparr>bs_present = False, bs_percentage = 0, bs_temperature = 0, bs_current = 0,
     bs_voltage = 0, bs_avg_current = 0, bs_capacity = Some 0, bs_capacity_raw = Some 0,
     bs_capacity_full40 = Some 0, bs_age = Some 0, bs_charging = False\<rparr>"

text \<open>The static variables of both files; \<open>curr_state\<close> is \<open>None\<close> while it is NULL.\<close>

record battery =
  bat_dev :: ptr
  battery_callback :: ptr
  battery_callback_context :: ptr
  curr_state :: "battery_status option"
  bat_paths :: battery_paths

definition battery_start :: battery where
  "battery_start = \<lparr>bat_dev = NULL, battery_callback = NULL, battery_callback_context = NULL,
     curr_state = None, bat_paths = no_paths\<rparr>"

section \<open>Status\<close>

text \<open>The average current is read with \<open>battery_current\<close> as well. NULL is not touched.\<close>

definition battery_read_status ::
  "backend \<Rightarrow> file_system \<Rightarrow> battery_status option \<Rightarrow> battery_status option option" where
  "battery_read_status B fs state =
     (case state of
        None \<Rightarrow> Some None
      | Some _ \<Rightarrow>
          if bk_is_present B fs then do {
            p \<leftarrow> bk_percent B fs;
            let st = zero_status\<lparr>bs_present := True, bs_percentage := p,
                bs_temperature := bk_temperature B fs, bs_current := bk_current B fs,
                bs_voltage := bk_voltage B fs, bs_avg_current := bk_current B fs,
                bs_capacity := bk_coulomb B fs, bs_capacity_raw := bk_rawcoulomb B fs,
                bs_capacity_full40 := bk_full40 B fs, bs_age := bk_age B fs\<rparr>;
            Some (Some (if 0 < bs_avg_current st then st\<lparr>bs_charging := True\<rparr> else st)) }
          else Some (Some (zero_status\<lparr>bs_charging := False\<rparr>)))"

definition battery_query_battery_status ::
  "backend \<Rightarrow> file_system \<Rightarrow> ptr \<Rightarrow> battery_status option \<Rightarrow> battery \<Rightarrow>
   (nyx_error \<times> battery_status option) option" where
  "battery_query_battery_status B fs handle status s =
     (if handle \<noteq> bat_dev s then Some (NYX_ERROR_INVALID_HANDLE, status)
      else case status of
        None \<Rightarrow> Some (NYX_ERROR_INVALID_VALUE, None)
      | Some _ \<Rightarrow> do { st \<leftarrow> battery_read_status B fs status; Some (NYX_ERROR_NONE, st) })"

section \<open>The other operations\<close>

definition battery_register_battery_status_callback ::
  "ptr \<times> ptr \<Rightarrow> ptr \<Rightarrow> battery \<Rightarrow> nyx_error \<times> unit \<times> battery" where
  "battery_register_battery_status_callback = (\<lambda>(callback_func, context) handle s.
     if handle \<noteq> bat_dev s then (NYX_ERROR_INVALID_HANDLE, (), s)
     else if callback_func = NULL then (NYX_ERROR_INVALID_VALUE, (), s)
     else (NYX_ERROR_NONE, (), s\<lparr>battery_callback_context := context, battery_callback := callback_func\<rparr>))"

text \<open>This one does not look at its handle; a NULL \<open>result\<close> is written to.\<close>

definition battery_authenticate_battery :: "ptr \<Rightarrow> bool option \<Rightarrow> (nyx_error \<times> bool) option" where
  "battery_authenticate_battery batt_device result =
     (case result of None \<Rightarrow> None | Some _ \<Rightarrow> Some (NYX_ERROR_NONE, battery_authenticate))"

definition battery_get_ctia_parameters ::
  "battery_ctia option \<Rightarrow> ptr \<Rightarrow> battery \<Rightarrow> nyx_error \<times> battery_ctia option \<times> battery" where
  "battery_get_ctia_parameters param handle s =
     (if handle \<noteq> bat_dev s then (NYX_ERROR_INVALID_HANDLE, param, s)
      else case param of
        None \<Rightarrow> (NYX_ERROR_INVALID_VALUE, None, s)
      | Some _ \<Rightarrow> (NYX_ERROR_NONE, Some get_battery_ctia_params, s))"

text \<open>\<open>battery_set_wakeup_percent\<close> does nothing in either backend.\<close>

definition battery_set_wakeup_percentage ::
  "int \<Rightarrow> ptr \<Rightarrow> battery \<Rightarrow> nyx_error \<times> unit \<times> battery" where
  "battery_set_wakeup_percentage percentage handle s =
     (if handle \<noteq> bat_dev s then (NYX_ERROR_INVALID_HANDLE, (), s)
      else if percentage < 0 \<or> 100 < percentage then (NYX_ERROR_INVALID_VALUE, (), s)
      else (NYX_ERROR_NONE, (), s))"

section \<open>The start of the device backend and its udev handler\<close>

text \<open>What the calls of \<open>battery_read_init\<close> answer.\<close>

record battery_io =
  udev_ok :: bool
  status_mem :: bool
  mon_ok :: bool
  filter_ret :: int
  receiving_ret :: int
  path_junk :: string

text \<open>
  The first result is \<open>None\<close> when the function returns without a value. A failed malloc is
  written to.
\<close>

definition battery_read_init ::
  "battery_io \<Rightarrow> file_system \<Rightarrow> battery \<Rightarrow> (nyx_error option \<times> battery) option" where
  "battery_read_init io fs s =
     (if \<not> udev_ok io then Some (None, s)
      else
        (let P = detect_battery_sysfs_paths fs (path_junk io) (bat_paths s) in
         if \<not> status_mem io then None
         else do {
           st \<leftarrow> battery_read_status (device_backend P) fs (Some zero_status);
           let s' = s\<lparr>bat_paths := P, curr_state := st\<rparr>;
           if \<not> mon_ok io then Some (Some NYX_ERROR_GENERIC, s')
           else if filter_ret io < 0 then Some (Some NYX_ERROR_GENERIC, s')
           else if receiving_ret io < 0 then Some (Some NYX_ERROR_GENERIC, s')
           else Some (Some NYX_ERROR_NONE, s') }))"

text \<open>
  The handler: \<open>input\<close> says whether the condition is G_IO_IN, \<open>received\<close> whether a device event
  was there. The second result is the callback that was called, with device and context.
\<close>

definition battery_handle_event ::
  "bool \<Rightarrow> bool \<Rightarrow> file_system \<Rightarrow> battery \<Rightarrow> (bool \<times> (ptr \<times> ptr \<times> ptr) option \<times> battery) option" where
  "battery_handle_event input received fs s =
     (if input \<and> received then do {
        prev \<leftarrow> curr_state s;
        st' \<leftarrow> battery_read_status (device_backend (bat_paths s)) fs (Some prev);
        st \<leftarrow> st';
        let s' = s\<lparr>curr_state := Some st\<rparr>;
        if bs_present st \<noteq> bs_present prev \<or> bs_percentage st \<noteq> bs_percentage prev then
          (if battery_callback s' = NULL then None
           else Some (True, Some (battery_callback s', bat_dev s', battery_callback_context s'), s'))
        else Some (True, None, s') }
      else Some (True, None, s))"

section \<open>Opening and closing\<close>

text \<open>\<open>init\<close> is the backend's \<open>battery_read_init\<close>; the emulator's is \<open>fake_read_init\<close>.\<close>

definition fake_read_init :: "battery \<Rightarrow> (nyx_error option \<times> battery) option" where
  "fake_read_init s = Some (Some NYX_ERROR_NONE, s)"

definition battery_module_open ::
  "(battery \<Rightarrow> (nyx_error option \<times> battery) option) \<Rightarrow> ptr \<Rightarrow> ptr \<Rightarrow> battery \<Rightarrow>
   (nyx_error option \<times> ptr \<times> battery) option" where
  "battery_module_open init mem d0 s =
     (if bat_dev s \<noteq> NULL then Some (Some NYX_ERROR_NONE, bat_dev s, s)
      else if mem = NULL then Some (Some NYX_ERROR_OUT_OF_MEMORY, d0, s)
      else do {
        (r, s') \<leftarrow> init (s\<lparr>bat_dev := mem\<rparr>);
        Some (r, mem, s') })"

definition battery_module_close :: nyx_error where
  "battery_module_close = NYX_ERROR_NONE"

section \<open>The library on any backend\<close>

definition status_ok :: "battery_status \<Rightarrow> bool" where
  "status_ok st \<longleftrightarrow>
     -1 \<le> bs_percentage st \<and> -1 \<le> bs_temperature st \<and> -1 \<le> bs_current st \<and> -1 \<le> bs_voltage st \<and>
     bs_avg_current st = bs_current st \<and> (bs_charging st \<longleftrightarrow> bs_present st \<and> 0 < bs_current st) \<and>
     (\<not> bs_present st \<longrightarrow> st = zero_status)"

context battery_backend
begin

lemma read_status_ok:
  "battery_read_status B fs (Some st0) = Some (Some st) \<Longrightarrow>
   status_ok st \<and> (bs_present st \<longleftrightarrow> bk_is_present B fs)"
  by (auto simp: battery_read_status_def status_ok_def zero_status_def Let_def
      percent_code temperature_code voltage_code current_code
      split: if_splits elim!: bind_eq_SomeE)

lemma read_status_defined:
  assumes "bk_is_present B fs \<Longrightarrow> bk_percent B fs \<noteq> None"
  shows "\<exists>st. battery_read_status B fs (Some st0) = Some (Some st)"
  using assms by (auto simp: battery_read_status_def Let_def)

end

lemma battery_dev_unchanged:
  "bat_dev (snd (snd (battery_register_battery_status_callback i h s))) = bat_dev s"
  "bat_dev (snd (snd (battery_get_ctia_parameters p h s))) = bat_dev s"
  "bat_dev (snd (snd (battery_set_wakeup_percentage n h s))) = bat_dev s"
  by (auto simp: battery_register_battery_status_callback_def battery_get_ctia_parameters_def
      battery_set_wakeup_percentage_def split: prod.split option.split)

interpretation register: handle_guarded bat_dev battery_register_battery_status_callback "\<lambda>_. ()"
  by (unfold_locales, simp add: battery_register_battery_status_callback_def split: prod.split,
      rule battery_dev_unchanged)

interpretation ctia: handle_guarded bat_dev battery_get_ctia_parameters "\<lambda>p. p"
  by (unfold_locales, simp add: battery_get_ctia_parameters_def, rule battery_dev_unchanged)

interpretation wakeup: handle_guarded bat_dev battery_set_wakeup_percentage "\<lambda>_. ()"
  by (unfold_locales, simp add: battery_set_wakeup_percentage_def, rule battery_dev_unchanged)

end
