(* ===== verification/Battery_Properties.thy ===== *)
theory Battery_Properties
  imports Battery_Lib
begin

text \<open>The properties of the battery module and of the file helpers it uses.\<close>

section \<open>An example: a battery in sysfs\<close>

definition ex_battery_dir :: string where
  "ex_battery_dir = ''/sys/class/power_supply/BAT0''"

text \<open>A mains adapter and a battery with energy nodes: 9 of 10 left.\<close>

definition ex_fs :: file_system where
  "ex_fs = \<lparr>
     fs_contents = (\<lambda>p. if p = ''/sys/class/power_supply/AC/type'' then Some ''Mains''
       else if p = ''/sys/class/power_supply/BAT0/type'' then Some ''Battery'' else None),
     fs_dir = (\<lambda>p. if p = base_dir then Some [''AC'', ''BAT0''] else Some [''type'']),
     fs_is_dir = (\<lambda>_. True),
     fs_exists = (\<lambda>p. p \<in> {''/sys/class/power_supply/BAT0/energy_now'', ''/sys/class/power_supply/BAT0/energy_full'',
                            ''/sys/class/power_supply/BAT0/present''}),
     fs_value = (\<lambda>p. if p = ''/sys/class/power_supply/BAT0/energy_now'' then 9
       else if p = ''/sys/class/power_supply/BAT0/energy_full'' then 10
       else if p = ''/sys/class/power_supply/BAT0/present'' then 1 else -1)\<rparr>"

lemma ex_find: "find_power_supply_sysfs_path ex_fs [] ''Battery'' = Some ex_battery_dir"
  by (simp add: find_power_supply_sysfs_path_def ex_fs_def base_dir_def FileGetString_def g_strstrip_def
      c_string_def ascii_space_def g_strlcpy_def ex_battery_dir_def)

definition ex_paths :: battery_paths where
  "ex_paths = detect_battery_sysfs_paths ex_fs [] no_paths"

lemma ex_paths_nodes:
  "batt_energy_now_path ex_paths = ''/sys/class/power_supply/BAT0/energy_now''"
  "batt_energy_full_path ex_paths = ''/sys/class/power_supply/BAT0/energy_full''"
  "batt_capacity_path ex_paths = ''/sys/class/power_supply/BAT0/capacity''"
  "batt_present_path ex_paths = ''/sys/class/power_supply/BAT0/present''"
  by (simp_all add: ex_paths_def detect_battery_sysfs_paths_def ex_find node_path_def PATH_LEN_def
      ex_battery_dir_def)

section \<open>The properties\<close>

text \<open>
  C20: A status query answered with success, on the device as in the emulator, delivers a
  consistent status: every integer reading is -1 or not negative, the average current is the
  current, charging says exactly that the battery is present and its current positive, and an
  absent battery gives the zero status.
\<close>

theorem battery_status_consistent:
  assumes "B = device_backend P \<or> B = fake_backend junk"
    and "battery_query_battery_status B fs handle (Some st0) s = Some (NYX_ERROR_NONE, Some st)"
  shows "handle = bat_dev s \<and> status_ok st \<and> (bs_present st \<longleftrightarrow> bk_is_present B fs)"
proof -
  have h: "handle = bat_dev s" using assms(2) by (auto simp: battery_query_battery_status_def split: if_splits)
  then have "battery_read_status B fs (Some st0) = Some (Some st)"
    using assms(2) by (auto simp: battery_query_battery_status_def elim!: bind_eq_SomeE)
  with assms(1) h device.read_status_ok fake.read_status_ok show ?thesis by blast
qed

theorem battery_status_consistent_witness:
  "\<exists>st. battery_query_battery_status (device_backend ex_paths) ex_fs 7 (Some zero_status)
       (battery_start\<lparr>bat_dev := 7\<rparr>) = Some (NYX_ERROR_NONE, Some st) \<and> status_ok st \<and> bs_present st"
proof -
  have "bk_percent (device_backend ex_paths) ex_fs \<noteq> None"
    by (simp add: device_backend_def battery_percent_def node_value_def ex_paths_nodes)
      (simp add: ex_fs_def c_div_def i32_def in_i32_def INT_MIN_def INT_MAX_def signed_divide_int_def)
  then obtain st where
    "battery_read_status (device_backend ex_paths) ex_fs (Some zero_status) = Some (Some st)"
    using device.read_status_defined by blast
  then have q: "battery_query_battery_status (device_backend ex_paths) ex_fs 7 (Some zero_status)
       (battery_start\<lparr>bat_dev := 7\<rparr>) = Some (NYX_ERROR_NONE, Some st)"
    by (simp add: battery_query_battery_status_def)
  have "bk_is_present (device_backend ex_paths) ex_fs"
    by (simp add: device_backend_def battery_is_present_def node_value_def ex_paths_nodes) (simp add: ex_fs_def)
  with battery_status_consistent [OF disjI1 [OF refl] q] q show ?thesis by blast
qed

text \<open>
  C21: Without a capacity node the percentage is the quotient of two energies: it is 1 for a full
  battery, 0 for every other, never a percentage; and a full energy of 0 is a division by zero.
\<close>

theorem battery_percent_from_energy:
  assumes "node_value fs (batt_capacity_path P) = None"
    and "node_value fs (batt_energy_now_path P) = Some now"
    and "node_value fs (batt_energy_full_path P) = Some full" "now \<le> full"
  shows "battery_percent P fs = (if full = 0 then None else Some (if now = full then 1 else 0))"
proof -
  have ex: "fs_exists fs (batt_energy_now_path P)" "fs_exists fs (batt_energy_full_path P)"
    "fs_value fs (batt_energy_now_path P) = now" "fs_value fs (batt_energy_full_path P) = full"
    "0 \<le> now" "0 \<le> full"
    using assms(2,3) by (auto simp: node_value_def split: if_splits)
  have "now div full = (if now = full then 1 else 0)" if "full \<noteq> 0"
    using that ex(5,6) assms(4) by (cases "now = full") (simp_all add: div_pos_pos_trivial)
  with ex assms(1) show ?thesis
    by (auto simp: battery_percent_def c_div_def i32_def in_i32_def INT_MIN_def INT_MAX_def sdiv_nonneg)
qed

theorem battery_percent_from_energy_witness:
  "battery_percent ex_paths ex_fs = Some 0"
proof -
  have "node_value ex_fs (batt_capacity_path ex_paths) = None"
    "node_value ex_fs (batt_energy_now_path ex_paths) = Some 9"
    "node_value ex_fs (batt_energy_full_path ex_paths) = Some 10"
    unfolding ex_paths_nodes by (simp_all add: node_value_def ex_fs_def)
  from battery_percent_from_energy [OF this] show ?thesis by simp
qed

text \<open>
  The udev handler of the device: with a status read before, an event re-reads the status
  and calls the registered callback exactly when presence or percentage changed; if that
  happens before a callback has been registered, a NULL function is called.
\<close>

theorem battery_handler:
  assumes "curr_state s = Some prev"
    and "battery_read_status (device_backend (bat_paths s)) fs (Some prev) = Some (Some st)"
  defines "changed \<equiv> bs_present st \<noteq> bs_present prev \<or> bs_percentage st \<noteq> bs_percentage prev"
  shows "battery_handle_event True True fs s =
     (if changed \<and> battery_callback s = NULL then None
      else Some (True,
        if changed then Some (battery_callback s, bat_dev s, battery_callback_context s) else None,
        s\<lparr>curr_state := Some st\<rparr>))"
  using assms by (simp add: battery_handle_event_def)

theorem battery_handler_witness:
  "battery_handle_event True True ex_fs (battery_start\<lparr>bat_paths := ex_paths, curr_state := Some zero_status\<rparr>)
     = None"
proof -
  let ?s = "battery_start\<lparr>bat_paths := ex_paths, curr_state := Some zero_status\<rparr>"
  have "bk_percent (device_backend ex_paths) ex_fs \<noteq> None"
    by (simp add: device_backend_def battery_percent_def node_value_def ex_paths_nodes)
      (simp add: ex_fs_def c_div_def i32_def in_i32_def INT_MIN_def INT_MAX_def signed_divide_int_def)
  then obtain st where
    st: "battery_read_status (device_backend (bat_paths ?s)) ex_fs (Some zero_status) = Some (Some st)"
    using device.read_status_defined [of ex_paths ex_fs zero_status] by auto
  have "bk_is_present (device_backend ex_paths) ex_fs"
    by (simp add: device_backend_def battery_is_present_def node_value_def ex_paths_nodes) (simp add: ex_fs_def)
  then have "bs_present st" using device.read_status_ok [of ex_paths ex_fs zero_status st] st by simp
  with battery_handler [OF _ st] show ?thesis by (simp add: battery_start_def zero_status_def)
qed

text \<open>
  C23: The directory of a power supply is that of the first entry in the listing that is not
  hidden, is a directory with a type file, and whose type file (stripped, at most 63
  characters) names the type; nothing but such an entry is found. The buffer that is never reset
  does no harm, unless it happens to hold the type from the start.
\<close>

theorem power_supply_first_match:
  assumes "fs_dir fs base_dir = Some names" "junk \<noteq> device_type"
    and "\<forall>n \<in> set names. supply_dir fs n \<longrightarrow> (\<exists>files. fs_dir fs (base_dir @ n) = Some files)"
  shows "find_power_supply_sysfs_path fs junk device_type =
     map_option (\<lambda>n. base_dir @ n)
       (List.find (\<lambda>n. supply_dir fs n \<and> ''type'' \<in> set (the (fs_dir fs (base_dir @ n))) \<and>
                       has_type fs device_type (base_dir @ n)) names)"
  using scan_supplies_correct [OF assms(2,3)] assms(1) by (simp add: find_power_supply_sysfs_path_def)

theorem power_supply_first_match_witness:
  "find_power_supply_sysfs_path ex_fs ''x'' ''Battery'' = Some ex_battery_dir"
proof -
  have "fs_dir ex_fs base_dir = Some [''AC'', ''BAT0'']" by (simp add: ex_fs_def)
  from power_supply_first_match [OF this, of "''x''" "''Battery''"] show ?thesis
    by (simp add: supply_dir_def has_type_def)
      (simp add: ex_fs_def base_dir_def g_strstrip_def c_string_def ascii_space_def g_strlcpy_def
        ex_battery_dir_def)
qed

text \<open>
  A file that holds no number is not an error for \<open>FileGetDouble\<close>: it returns 0 without
  storing anything, so the emulator's readings deliver whatever the uninitialised local held;
  a missing file is the error -1.
\<close>

theorem fake_double_invalid:
  "(fs_contents fs (SYSFS_DEVICE @ ''getcoulomb'') = None \<longrightarrow> fake_coulomb junk fs = Some (-1)) \<and>
   (\<forall>c. fs_contents fs (SYSFS_DEVICE @ ''getcoulomb'') = Some c \<longrightarrow>
      fake_coulomb junk fs = (case strtod c of None \<Rightarrow> junk | Some d \<Rightarrow> Option.bind d f32))"
  by (auto simp: fake_coulomb_def fake_double_def FileGetDouble_def split: option.split)

theorem fake_double_invalid_witness:
  "fake_coulomb (Some 12345) (ex_fs\<lparr>fs_contents := (\<lambda>_. Some ''n/a'')\<rparr>) = Some 12345"
proof -
  have "strtod ''n/a'' = None"
    by (simp add: strtod_def c_string_def ascii_space_def skip_sign_def is_digit_def digit_val_def
        less_eq_char_def of_char_def)
  with fake_double_invalid [of "ex_fs\<lparr>fs_contents := (\<lambda>_. Some ''n/a'')\<rparr>" "Some 12345"]
  show ?thesis by simp
qed

end
