(* ===== verification/Watchers.thy ===== *)
theory Watchers
  imports Nyx_Prelude
begin

text \<open>
  A client of a module that reports changes: it asks when it likes, and when its callback is called.
  What the module promises is an interface; the charger and the battery interpret it.
\<close>

section \<open>Clients\<close>

text \<open>\<open>e\<close>: what the files say when the client asks, or when udev reports a change.\<close>

datatype 'e watch = Ask 'e | Change 'e

text \<open>
  \<open>ask\<close> gives the answer to a query; \<open>event\<close> says whether the callback was called. The client knows
  the last answer. The first result says of every change whether the client was told.
\<close>

fun watch_client :: "('e \<Rightarrow> 's \<Rightarrow> ('v \<times> 's) option) \<Rightarrow> ('e \<Rightarrow> 's \<Rightarrow> (bool \<times> 's) option) \<Rightarrow> 'e watch list \<Rightarrow> 'v \<Rightarrow> 's \<Rightarrow>
    (bool list \<times> 'v \<times> 's) option" where
  "watch_client ask event [] k s = Some ([], k, s)"
| "watch_client ask event (Ask e # ws) k s = do { (k', s') \<leftarrow> ask e s; watch_client ask event ws k' s' }"
| "watch_client ask event (Change e # ws) k s = do {
     (called, s1) \<leftarrow> event e s;
     (k', s2) \<leftarrow> (if called then ask e s1 else Some (k, s1));
     (told, k'', s3) \<leftarrow> watch_client ask event ws k' s2;
     Some (called # told, k'', s3) }"

text \<open>What it should be: told of a change that differs from the last look at the files.\<close>

fun watch_spec :: "('e \<Rightarrow> 'v) \<Rightarrow> 'e watch list \<Rightarrow> 'v \<Rightarrow> bool list \<times> 'v" where
  "watch_spec f [] v = ([], v)"
| "watch_spec f (Ask e # ws) v = watch_spec f ws (f e)"
| "watch_spec f (Change e # ws) v = (let (told, v') = watch_spec f ws (f e) in ((f e \<noteq> v) # told, v'))"

text \<open>The value at the last change of which the client was told.\<close>

fun last_told :: "('e \<Rightarrow> 'v) \<Rightarrow> 'e watch list \<Rightarrow> 'v \<Rightarrow> 'v option" where
  "last_told f [] v = None"
| "last_told f (Ask e # ws) v = last_told f ws (f e)"
| "last_told f (Change e # ws) v =
     (case last_told f ws (f e) of Some u \<Rightarrow> Some u | None \<Rightarrow> if f e \<noteq> v then Some (f e) else None)"

fun watched :: "'e watch \<Rightarrow> 'e" where
  "watched (Ask e) = e"
| "watched (Change e) = e"

text \<open>The client knows what the files said at the last look.\<close>

lemma watch_spec_last: "snd (watch_spec f ws v) = (if ws = [] then v else f (watched (last ws)))"
  by (induction f ws v rule: watch_spec.induct) (auto split: prod.split)

section \<open>The interface\<close>

text \<open>
  \<open>look\<close> is what the files say as the module reads them, \<open>seen\<close> what it read last; \<open>good\<close> files can be read.
\<close>

locale notifier =
  fixes ok :: "'s \<Rightarrow> bool"
    and good :: "'e \<Rightarrow> 's \<Rightarrow> bool"
    and look :: "'e \<Rightarrow> 's \<Rightarrow> 'v"
    and seen :: "'s \<Rightarrow> 'v"
    and ask :: "'e \<Rightarrow> 's \<Rightarrow> ('v \<times> 's) option"
    and event :: "'e \<Rightarrow> 's \<Rightarrow> (bool \<times> 's) option"
  assumes event_tells: "ok s \<Longrightarrow> good e s \<Longrightarrow>
      \<exists>s'. event e s = Some (look e s \<noteq> seen s, s') \<and> seen s' = look e s \<and> ok s' \<and>
        (\<forall>g. look g s' = look g s \<and> good g s' = good g s)"
    and ask_answers: "ok s \<Longrightarrow> good e s \<Longrightarrow>
      \<exists>s'. ask e s = Some (look e s, s') \<and> seen s' \<in> {seen s, look e s} \<and> ok s' \<and>
        (\<forall>g. look g s' = look g s \<and> good g s' = good g s)"
begin

lemma client_follows:
  assumes "ok s" and "\<forall>w \<in> set ws. good (watched w) s"
    and "\<And>e s k s'. Ask e \<in> set ws \<Longrightarrow> ok s \<Longrightarrow> good e s \<Longrightarrow> ask e s = Some (k, s') \<Longrightarrow> seen s' = look e s"
  shows "\<exists>told k s'. watch_client ask event ws (seen s) s = Some (told, k, s') \<and>
    (told, k) = watch_spec (\<lambda>e. look e s) ws (seen s) \<and> k = seen s' \<and> ok s'"
  using assms
proof (induction ws arbitrary: s)
  case (Cons w ws)
  show ?case
  proof (cases w)
    case (Ask e)
    have g: "good e s" using Cons.prems(2) Ask by simp
    from ask_answers [OF Cons.prems(1) g] obtain s1 where a: "ask e s = Some (look e s, s1)"
      and A: "ok s1" "\<forall>g. look g s1 = look g s \<and> good g s1 = good g s" by blast
    have seen: "seen s1 = look e s" using Cons.prems(3) [of e s "look e s" s1] Ask Cons.prems(1) g a by simp
    have "\<forall>w \<in> set ws. good (watched w) s1" using Cons.prems(2) A by simp
    from Cons.IH [of s1, OF _ this] A seen Cons.prems(3) a Ask show ?thesis by (auto simp: fun_eq_iff)
  next
    case (Change e)
    have g: "good e s" using Cons.prems(2) Change by simp
    from event_tells [OF Cons.prems(1) g] obtain s1 where e: "event e s = Some (look e s \<noteq> seen s, s1)"
      "seen s1 = look e s" "ok s1" "\<forall>g. look g s1 = look g s \<and> good g s1 = good g s" by blast
    obtain s2 where a: "(if look e s \<noteq> seen s then ask e s1 else Some (seen s, s1)) = Some (look e s, s2)"
      and A: "seen s2 = look e s" "ok s2" "\<forall>g. look g s2 = look g s \<and> good g s2 = good g s"
    proof (cases "look e s = seen s")
      case True
      with e that show ?thesis by auto
    next
      case False
      have "good e s1" using e(4) g by simp
      from ask_answers [OF e(3) this] e False that show ?thesis by auto
    qed
    have "\<forall>w \<in> set ws. good (watched w) s2" using Cons.prems(2) A by simp
    from Cons.IH [of s2, OF _ this] A Cons.prems(3) a e(1) Change show ?thesis
      by (auto simp: Let_def split: prod.splits)
  qed
qed simp

text \<open>A client that asks only when it is told.\<close>

lemma told_client_follows:
  assumes "ok s" and "\<forall>e \<in> set es. good e s"
  shows "\<exists>told k s'. watch_client ask event (map Change es) (seen s) s = Some (told, k, s') \<and>
    (told, k) = watch_spec (\<lambda>e. look e s) (map Change es) (seen s) \<and> k = seen s' \<and> ok s'"
  by (rule client_follows [OF assms(1)]) (use assms(2) in auto)

end

text \<open>A module for which a query is a look at the files, too.\<close>

locale asked_notifier = notifier +
  assumes ask_looks: "ok s \<Longrightarrow> good e s \<Longrightarrow> ask e s = Some (k, s') \<Longrightarrow> seen s' = look e s"
begin

lemma any_client_follows:
  assumes "ok s" and "\<forall>w \<in> set ws. good (watched w) s"
  shows "\<exists>told k s'. watch_client ask event ws (seen s) s = Some (told, k, s') \<and>
    (told, k) = watch_spec (\<lambda>e. look e s) ws (seen s) \<and> k = seen s' \<and> ok s'"
  by (rule client_follows [OF assms]) (rule ask_looks)

end

end
