(* ===== verification/Battery_Clients.thy ===== *)
theory Battery_Clients
  imports Battery_Properties Watchers
begin

text \<open>A client of the battery device that is called back and then asks for the status.\<close>

section \<open>The client\<close>

text \<open>It knows presence and percentage.\<close>

definition battery_value :: "battery_status \<Rightarrow> bool \<times> int" where
  "battery_value st = (bs_present st, bs_percentage st)"

definition battery_ask :: "file_system \<Rightarrow> battery \<Rightarrow> ((bool \<times> int) \<times> battery) option" where
  "battery_ask fs s = do {
     (_, st') \<leftarrow> battery_query_battery_status (device_backend (bat_paths s)) fs (bat_dev s) (Some zero_status) s;
     st \<leftarrow> st';
     Some (battery_value st, s) }"

definition battery_told :: "file_system \<Rightarrow> battery \<Rightarrow> (bool \<times> battery) option" where
  "battery_told fs s = do {
     (_, call, s') \<leftarrow> battery_handle_event True True fs s;
     Some (call \<noteq> None, s') }"

text \<open>What the files say, and what was read last.\<close>

definition battery_readable :: "file_system \<Rightarrow> battery \<Rightarrow> bool" where
  "battery_readable fs s \<longleftrightarrow>
     (bk_is_present (device_backend (bat_paths s)) fs \<longrightarrow> bk_percent (device_backend (bat_paths s)) fs \<noteq> None)"

definition battery_look :: "file_system \<Rightarrow> battery \<Rightarrow> bool \<times> int" where
  "battery_look fs s =
     (if bk_is_present (device_backend (bat_paths s)) fs
      then (True, the (bk_percent (device_backend (bat_paths s)) fs)) else (False, 0))"

definition battery_seen :: "battery \<Rightarrow> bool \<times> int" where
  "battery_seen s = (case curr_state s of Some st \<Rightarrow> battery_value st | None \<Rightarrow> (False, 0))"

section \<open>The interface\<close>

lemma read_status_value:
  assumes "battery_readable fs s"
  obtains st where "\<And>st0. battery_read_status (device_backend (bat_paths s)) fs (Some st0) = Some (Some st)"
    and "battery_value st = battery_look fs s"
proof (cases "bk_is_present (device_backend (bat_paths s)) fs")
  case True
  then obtain p where "bk_percent (device_backend (bat_paths s)) fs = Some p" using assms by (auto simp: battery_readable_def)
  with True that show ?thesis by (auto simp: battery_read_status_def battery_value_def battery_look_def zero_status_def Let_def)
next
  case False
  with that show ?thesis by (auto simp: battery_read_status_def battery_value_def battery_look_def zero_status_def)
qed

lemma battery_told_eq:
  assumes "battery_readable fs s" and "curr_state s \<noteq> None"
  obtains st where "battery_value st = battery_look fs s" and "battery_told fs s =
    (if battery_look fs s = battery_seen s then Some (False, s\<lparr>curr_state := Some st\<rparr>)
     else if battery_callback s = NULL then None else Some (True, s\<lparr>curr_state := Some st\<rparr>))"
proof -
  from assms(2) obtain prev where prev: "curr_state s = Some prev" by blast
  obtain st where st: "\<And>st0. battery_read_status (device_backend (bat_paths s)) fs (Some st0) = Some (Some st)"
    "battery_value st = battery_look fs s" using read_status_value [OF assms(1)] by blast
  have "battery_look fs s = battery_seen s \<longleftrightarrow> \<not> (bs_present st \<noteq> bs_present prev \<or> bs_percentage st \<noteq> bs_percentage prev)"
    unfolding st(2) [symmetric] by (auto simp: battery_seen_def battery_value_def prev)
  with that [OF st(2)] st(1) prev show ?thesis by (simp add: battery_told_def battery_handle_event_def)
qed

lemma battery_ask_eq: "battery_readable fs s \<Longrightarrow> battery_ask fs s = Some (battery_look fs s, s)"
  by (rule read_status_value [of fs s]) (auto simp: battery_ask_def battery_query_battery_status_def)

lemma battery_look_update [simp]:
  "battery_look fs (s\<lparr>curr_state := x\<rparr>) = battery_look fs s" "battery_readable fs (s\<lparr>curr_state := x\<rparr>) = battery_readable fs s"
  by (simp_all add: battery_look_def battery_readable_def)

interpretation battery_notifier: notifier "\<lambda>s. curr_state s \<noteq> None \<and> battery_callback s \<noteq> NULL" battery_readable battery_look
  battery_seen battery_ask battery_told
proof (unfold_locales, goal_cases)
  case (1 s fs)
  then have s: "curr_state s \<noteq> None" "battery_callback s \<noteq> NULL" by simp_all
  obtain st where st: "battery_value st = battery_look fs s" "battery_told fs s =
    (if battery_look fs s = battery_seen s then Some (False, s\<lparr>curr_state := Some st\<rparr>)
     else if battery_callback s = NULL then None else Some (True, s\<lparr>curr_state := Some st\<rparr>))"
    using battery_told_eq [OF 1(2) s(1)] by blast
  with s show ?case by (intro exI [of _ "s\<lparr>curr_state := Some st\<rparr>"]) (simp add: battery_seen_def)
qed (simp add: battery_ask_eq)

section \<open>The property\<close>

lemma unregistered_client:
  assumes "battery_callback s = NULL" and "curr_state s \<noteq> None" and "\<forall>fs \<in> set fss. battery_readable fs s"
    and "watch_spec (\<lambda>fs. battery_look fs s) (map Change fss) (battery_seen s) = (told, k)"
  shows "if True \<in> set told then watch_client battery_ask battery_told (map Change fss) (battery_seen s) s = None
    else \<exists>s'. watch_client battery_ask battery_told (map Change fss) (battery_seen s) s = Some (told, k, s')"
  using assms
proof (induction fss arbitrary: s told)
  case (Cons fs fss)
  have "battery_readable fs s" using Cons.prems(3) by simp
  from battery_told_eq [OF this Cons.prems(2)] obtain st where st: "battery_value st = battery_look fs s" "battery_told fs s =
    (if battery_look fs s = battery_seen s then Some (False, s\<lparr>curr_state := Some st\<rparr>)
     else if battery_callback s = NULL then None else Some (True, s\<lparr>curr_state := Some st\<rparr>))" by blast
  let ?s = "s\<lparr>curr_state := Some st\<rparr>"
  obtain told1 where t: "watch_spec (\<lambda>fs. battery_look fs s) (map Change fss) (battery_look fs s) = (told1, k)"
    "told = (battery_look fs s \<noteq> battery_seen s) # told1"
    using Cons.prems(4) by (auto simp: Let_def split: prod.splits)
  show ?case
  proof (cases "battery_look fs s = battery_seen s")
    case False
    with st(2) t(2) Cons.prems(1) show ?thesis by simp
  next
    case True
    have seen: "battery_seen ?s = battery_seen s" using st(1) True by (simp add: battery_seen_def)
    have "watch_spec (\<lambda>fs. battery_look fs ?s) (map Change fss) (battery_seen ?s) = (told1, k)"
      using t(1) True seen by simp
    from Cons.IH [OF _ _ _ this] Cons.prems(1,3) st(2) t(2) True seen show ?thesis by auto
  qed
qed simp

text \<open>
  C22: A client of the battery device that asks for the status when it is called back, over any
  number of udev events: it is told of exactly the events at which presence or percentage differ from the
  reading before, and knows at any time what they were at the last event. While no callback is
  registered, the first such event calls a NULL function.
\<close>

theorem battery_client_informed:
  assumes s: "curr_state s \<noteq> None" and good: "\<forall>fs \<in> set fss. battery_readable fs s"
    and spec: "watch_spec (\<lambda>fs. battery_look fs s) (map Change fss) (battery_seen s) = (told, k)"
  shows "k = (if fss = [] then battery_seen s else battery_look (last fss) s) \<and>
    (if battery_callback s = NULL \<and> True \<in> set told
     then watch_client battery_ask battery_told (map Change fss) (battery_seen s) s = None
     else \<exists>s'. watch_client battery_ask battery_told (map Change fss) (battery_seen s) s = Some (told, k, s'))"
proof -
  have "k = (if fss = [] then battery_seen s else battery_look (last fss) s)"
    using watch_spec_last [of "\<lambda>fs. battery_look fs s" "map Change fss" "battery_seen s"] by (simp add: spec last_map)
  moreover have "if battery_callback s = NULL \<and> True \<in> set told
     then watch_client battery_ask battery_told (map Change fss) (battery_seen s) s = None
     else \<exists>s'. watch_client battery_ask battery_told (map Change fss) (battery_seen s) s = Some (told, k, s')"
  proof (cases "battery_callback s = NULL")
    case True
    with unregistered_client [OF True s good spec] show ?thesis by simp
  next
    case False
    with battery_notifier.told_client_follows [of s fss] s good spec show ?thesis by auto
  qed
  ultimately show ?thesis by blast
qed

text \<open>A battery whose presence is first read when no callback is registered, and then with one.\<close>

definition ex_battery :: "ptr \<Rightarrow> battery" where
  "ex_battery cb = battery_start\<lparr>bat_paths := ex_paths, curr_state := Some zero_status, battery_callback := cb\<rparr>"

theorem battery_client_informed_witness:
  "watch_client battery_ask battery_told [Change ex_fs] (False, 0) (ex_battery NULL) = None \<and>
   (\<exists>p s'. watch_client battery_ask battery_told [Change ex_fs, Change ex_fs] (False, 0) (ex_battery 5) =
     Some ([True, False], (True, p), s'))"
proof -
  have present: "bk_is_present (device_backend ex_paths) ex_fs"
    by (simp add: device_backend_def battery_is_present_def node_value_def ex_paths_nodes) (simp add: ex_fs_def)
  have "bk_percent (device_backend ex_paths) ex_fs \<noteq> None"
    by (simp add: device_backend_def battery_percent_def node_value_def ex_paths_nodes)
      (simp add: ex_fs_def c_div_def i32_def in_i32_def INT_MIN_def INT_MAX_def signed_divide_int_def)
  then obtain p where p: "bk_percent (device_backend ex_paths) ex_fs = Some p" by blast
  have s: "curr_state (ex_battery cb) \<noteq> None" "battery_readable ex_fs (ex_battery cb)"
    "battery_look ex_fs (ex_battery cb) = (True, p)" "battery_seen (ex_battery cb) = (False, 0)"
    "battery_callback (ex_battery cb) = cb" for cb
    using present p by (simp_all add: ex_battery_def battery_readable_def battery_look_def battery_seen_def battery_value_def zero_status_def)
  have "watch_client battery_ask battery_told [Change ex_fs] (False, 0) (ex_battery NULL) = None"
    using battery_client_informed [OF s(1), of "[ex_fs]" NULL] s by simp
  moreover have "\<exists>s'. watch_client battery_ask battery_told [Change ex_fs, Change ex_fs] (False, 0) (ex_battery 5) = Some ([True, False], (True, p), s')"
    using battery_client_informed [OF s(1), of "[ex_fs, ex_fs]" 5] s by simp
  ultimately show ?thesis by blast
qed

end
