(* ===== verification/Charger.thy ===== *)
theory Charger
  imports Power_Utils
begin

text \<open>
  chargerlib.c and its two backends: device/charger.c, which reads sysfs and follows udev events,
  and emulator/charger.c, which never changes. Events and connections are bit masks of nyx-lib,
  given by a record of constants.
\<close>

section \<open>Data\<close>

record charger_masks =
  NYX_NO_NEW_EVENT :: u32
  NYX_CHARGER_CONNECTED :: u32
  NYX_CHARGER_DISCONNECTED :: u32
  NYX_CHARGE_COMPLETE :: u32
  NYX_CHARGE_RESTART :: u32
  NYX_BATTERY_PRESENT :: u32
  NYX_BATTERY_ABSENT :: u32
  NYX_CHARGER_PC_CONNECTED :: u32
  NYX_CHARGER_WALL_CONNECTED :: u32
  NYX_CHARGER_USB_POWERED :: u32
  NYX_CHARGER_DIRECT_POWERED :: u32

text \<open>\<open>nyx_charger_status_t\<close>: the fields that are ever set, and the maximal current.\<close>

record charger_status =
  charger_max_current :: int
  cs_connected :: u32
  cs_powered :: u32
  cs_is_charging :: bool

definition zero_charger_status :: charger_status where
  "zero_charger_status = \<lparr>charger_max_current = 0, cs_connected = 0, cs_powered = 0, cs_is_charging = False\<rparr>"

text \<open>
  The static variables of the library and of the device backend. \<open>curr_battery_state\<close> is the
  present flag of the battery status that is kept, \<open>None\<close> while the pointer is NULL;
  \<open>battery_status\<close> is \<open>None\<close> while it is NULL.
\<close>

record charger =
  ch_dev :: ptr
  charger_status_callback :: ptr
  charger_status_callback_context :: ptr
  state_change_callback :: ptr
  state_change_callback_context :: ptr
  current_event :: u32
  gChargerStatus :: charger_status
  curr_battery_state :: "bool option"
  battery_status :: "string option"
  ch_batt_present_path :: string
  ch_batt_status_path :: string
  charger_usb_sysfs_online_path :: string
  charger_ac_sysfs_online_path :: string
  charger_touch_sysfs_online_path :: string
  charger_wireless_sysfs_online_path :: string

definition charger_start :: "charger_masks \<Rightarrow> charger" where
  "charger_start M = \<lparr>ch_dev = NULL, charger_status_callback = NULL,
     charger_status_callback_context = NULL, state_change_callback = NULL,
     state_change_callback_context = NULL, current_event = NYX_NO_NEW_EVENT M,
     gChargerStatus = zero_charger_status, curr_battery_state = None, battery_status = None,
     ch_batt_present_path = [], ch_batt_status_path = [], charger_usb_sysfs_online_path = [],
     charger_ac_sysfs_online_path = [], charger_touch_sysfs_online_path = [],
     charger_wireless_sysfs_online_path = []\<rparr>"

section \<open>The device: status\<close>

definition online :: "file_system \<Rightarrow> string \<Rightarrow> bool" where
  "online fs path \<longleftrightarrow> fs_value fs path = 1"

text \<open>\<open>status\<close> is \<open>None\<close> for a NULL pointer.\<close>

definition charger_read_status ::
  "charger_masks \<Rightarrow> file_system \<Rightarrow> charger_status option \<Rightarrow> charger \<Rightarrow>
   nyx_error \<times> charger_status option \<times> charger" where
  "charger_read_status M fs status s =
     (let st0 = zero_charger_status;
          usb = online fs (charger_usb_sysfs_online_path s);
          ac = online fs (charger_ac_sysfs_online_path s);
          st1 = (if usb
                 then st0\<lparr>cs_connected := or (cs_connected st0) (NYX_CHARGER_PC_CONNECTED M),
                          cs_powered := or (cs_powered st0) (NYX_CHARGER_USB_POWERED M)\<rparr>
                 else if ac
                 then st0\<lparr>cs_connected := or (cs_connected st0) (NYX_CHARGER_WALL_CONNECTED M),
                          cs_powered := or (cs_powered st0) (NYX_CHARGER_DIRECT_POWERED M)\<rparr>
                 else st0);
          st2 = (if usb \<or> ac \<or> online fs (charger_touch_sysfs_online_path s)
                      \<or> online fs (charger_wireless_sysfs_online_path s)
                 then st1\<lparr>cs_is_charging := True\<rparr> else st1) in
      (NYX_ERROR_NONE, map_option (\<lambda>_. st2) status, s\<lparr>gChargerStatus := st2\<rparr>))"

text \<open>
  The battery as the charger sees it. The memset of \<open>battery_status\<close> makes it an empty string;
  \<open>status\<close> is a buffer from malloc. The missing return value of the first branch is never used.
\<close>

definition STATUS_LEN :: nat where
  "STATUS_LEN = 64"

definition charger_battery_read_status :: "file_system \<Rightarrow> charger \<Rightarrow> charger" where
  "charger_battery_read_status fs s =
     (case (curr_battery_state s, battery_status s) of
        (Some _, Some _) \<Rightarrow>
          (let present = (fs_exists fs (ch_batt_present_path s) \<and>
                          fs_value fs (ch_batt_present_path s) = 1);
               (r, str) = FileGetString fs (Some (ch_batt_status_path s)) [] STATUS_LEN;
               stat = (if fs_exists fs (ch_batt_status_path s) \<and> r \<noteq> -1 then str else []) in
           s\<lparr>curr_battery_state := Some present, battery_status := Some stat\<rparr>)
      | _ \<Rightarrow> s)"

section \<open>The device: events\<close>

text \<open>\<open>event &= ~clear; event |= add\<close>.\<close>

definition flip_event :: "u32 \<Rightarrow> u32 \<Rightarrow> u32 \<Rightarrow> u32" where
  "flip_event clear add e = or (and e (not clear)) add"

definition has_charger_state_changed ::
  "charger_masks \<Rightarrow> string option \<Rightarrow> string option \<Rightarrow> u32 \<Rightarrow> bool \<times> u32" where
  "has_charger_state_changed M old_state new_state e =
     (if new_state \<noteq> None \<and> old_state = None \<and> new_state = Some ''Full'' then
        (True, flip_event (NYX_CHARGE_RESTART M) (NYX_CHARGE_COMPLETE M) e)
      else if old_state \<noteq> None \<and> new_state \<noteq> None \<and> old_state \<noteq> new_state then
        (if old_state = Some ''Charging'' \<and> new_state = Some ''Full'' then
           (True, flip_event (NYX_CHARGE_RESTART M) (NYX_CHARGE_COMPLETE M) e)
         else if old_state = Some ''Full'' \<and> new_state = Some ''Charging'' then
           (True, flip_event (NYX_CHARGE_COMPLETE M) (NYX_CHARGE_RESTART M) e)
         else (False, e))
      else (False, e))"

definition has_battery_state_changed ::
  "charger_masks \<Rightarrow> bool \<Rightarrow> bool \<Rightarrow> u32 \<Rightarrow> bool \<times> u32" where
  "has_battery_state_changed M old_state new_state e =
     (if old_state \<noteq> new_state then
        (True, if new_state then flip_event (NYX_BATTERY_ABSENT M) (NYX_BATTERY_PRESENT M) e
               else flip_event (NYX_BATTERY_PRESENT M) (NYX_BATTERY_ABSENT M) e)
      else (False, e))"

definition has_charger_connected_state_changed ::
  "charger_masks \<Rightarrow> bool \<Rightarrow> bool \<Rightarrow> u32 \<Rightarrow> bool \<times> u32" where
  "has_charger_connected_state_changed M old_state new_state e =
     (if old_state \<noteq> new_state then
        (True, if new_state then flip_event (NYX_CHARGER_DISCONNECTED M) (NYX_CHARGER_CONNECTED M) e
               else flip_event (NYX_CHARGER_CONNECTED M) (NYX_CHARGER_DISCONNECTED M) e)
      else (False, e))"

text \<open>
  The handler of udev events. The result lists the callbacks that are called, each with the
  device and its context; a callback that registers another one while it runs is not modelled.
  A NULL battery state is read through (\<open>None\<close>).
\<close>

definition handle_power_supply_event ::
  "charger_masks \<Rightarrow> bool \<Rightarrow> bool \<Rightarrow> file_system \<Rightarrow> charger \<Rightarrow>
   (bool \<times> (ptr \<times> ptr \<times> ptr) list \<times> charger) option" where
  "handle_power_supply_event M input received fs s =
     (if input \<and> received then do {
        let prev_charging = cs_is_charging (gChargerStatus s);
        let s1 = snd (snd (charger_read_status M fs None s));
        let (conn, e1) = has_charger_connected_state_changed M prev_charging
              (cs_is_charging (gChargerStatus s1)) (current_event s1);
        let s2 = s1\<lparr>current_event := e1\<rparr>;
        let prev_batt_status = battery_status s2;
        prev_batt_present \<leftarrow> curr_battery_state s2;
        let s3 = charger_battery_read_status fs s2;
        let (chg, e2) = has_charger_state_changed M prev_batt_status (battery_status s3) (current_event s3);
        (batt, e3) \<leftarrow>
          (if chg then Some (False, e2)
           else do {
             new_present \<leftarrow> curr_battery_state s3;
             Some (has_battery_state_changed M prev_batt_present new_present e2) });
        let s4 = s3\<lparr>current_event := e3\<rparr>;
        let fire_state_change_cb = (conn \<or> chg \<or> batt);
        let calls =
          (if conn \<and> charger_status_callback s4 \<noteq> NULL
           then [(charger_status_callback s4, ch_dev s4, charger_status_callback_context s4)] else [])
          @ (if fire_state_change_cb \<and> state_change_callback s4 \<noteq> NULL
             then [(state_change_callback s4, ch_dev s4, state_change_callback_context s4)] else []);
        Some (True, calls, s4) }
      else Some (True, [], s))"

definition charger_init_events :: "charger_masks \<Rightarrow> charger \<Rightarrow> charger option" where
  "charger_init_events M s = do {
     let (_, e1) = has_charger_state_changed M None (battery_status s) (current_event s);
     present \<leftarrow> curr_battery_state s;
     let (_, e2) = has_battery_state_changed M False present e1;
     let (_, e3) = has_charger_connected_state_changed M False (cs_is_charging (gChargerStatus s)) e2;
     Some (s\<lparr>current_event := e3\<rparr>) }"

section \<open>The device: start\<close>

definition charger_node_path :: "string \<Rightarrow> string \<Rightarrow> string" where
  "charger_node_path dir node = take 127 (dir @ node)"

text \<open>\<open>junk\<close> is the uninitialised buffer of each search.\<close>

definition detect_charger_sysfs_paths :: "file_system \<Rightarrow> string \<Rightarrow> charger \<Rightarrow> charger" where
  "detect_charger_sysfs_paths fs junk s =
     (let find = find_power_supply_sysfs_path fs junk;
          online_path = (\<lambda>old dir. case dir of None \<Rightarrow> old | Some d \<Rightarrow> charger_node_path d ''/online'');
          s1 = s\<lparr>charger_usb_sysfs_online_path := online_path (charger_usb_sysfs_online_path s) (find ''USB''),
                 charger_ac_sysfs_online_path := online_path (charger_ac_sysfs_online_path s) (find ''Mains''),
                 charger_touch_sysfs_online_path := online_path (charger_touch_sysfs_online_path s) (find ''Touch''),
                 charger_wireless_sysfs_online_path :=
                   online_path (charger_wireless_sysfs_online_path s) (find ''Wireless'')\<rparr> in
      case find ''Battery'' of
        None \<Rightarrow> s1
      | Some d \<Rightarrow> s1\<lparr>ch_batt_present_path := charger_node_path d ''/present'',
                     ch_batt_status_path := charger_node_path d ''/status''\<rparr>)"

record charger_io =
  ch_udev_ok :: bool
  ch_mon_ok :: bool
  ch_filter_ret :: int
  ch_receiving_ret :: int
  ch_state_mem :: "bool option"
  ch_status_mem :: "string option"
  ch_path_junk :: string

definition charger_init ::
  "charger_masks \<Rightarrow> charger_io \<Rightarrow> file_system \<Rightarrow> charger \<Rightarrow> (nyx_error \<times> charger) option" where
  "charger_init M io fs s =
     (if \<not> ch_udev_ok io then Some (NYX_ERROR_GENERIC, s)
      else if \<not> ch_mon_ok io then Some (NYX_ERROR_GENERIC, s)
      else if ch_filter_ret io < 0 then Some (NYX_ERROR_GENERIC, s)
      else if ch_receiving_ret io < 0 then Some (NYX_ERROR_GENERIC, s)
      else do {
        let s1 = detect_charger_sysfs_paths fs (ch_path_junk io) s;
        let s2 = snd (snd (charger_read_status M fs None s1));
        let s3 = s2\<lparr>curr_battery_state := ch_state_mem io, battery_status := ch_status_mem io\<rparr>;
        let s4 = charger_battery_read_status fs s3;
        s5 \<leftarrow> charger_init_events M s4;
        Some (NYX_ERROR_NONE, s5) })"

definition charger_copy_status :: "charger_status \<Rightarrow> charger \<Rightarrow> nyx_error \<times> charger_status" where
  "charger_copy_status status s = (NYX_ERROR_NONE, gChargerStatus s)"

definition device_query_event :: "charger_masks \<Rightarrow> charger \<Rightarrow> nyx_error \<times> u32 \<times> charger" where
  "device_query_event M s = (NYX_ERROR_NONE, current_event s, s)"

section \<open>The emulator\<close>

definition fake_charger_init :: "charger \<Rightarrow> (nyx_error \<times> charger) option" where
  "fake_charger_init s = Some (NYX_ERROR_NONE, s)"

definition fake_query_event :: "charger_masks \<Rightarrow> charger \<Rightarrow> nyx_error \<times> u32 \<times> charger" where
  "fake_query_event M s = (NYX_ERROR_NONE, current_event s, s\<lparr>current_event := NYX_NO_NEW_EVENT M\<rparr>)"

definition fake_read_status ::
  "charger_status option \<Rightarrow> charger \<Rightarrow> nyx_error \<times> charger_status option \<times> charger" where
  "fake_read_status status s = (NYX_ERROR_NONE, map_option (\<lambda>_. gChargerStatus s) status, s)"

section \<open>The library\<close>

text \<open>\<open>init\<close>, \<open>read\<close>, \<open>copy\<close> and \<open>query\<close> are the functions of the backend that is linked.\<close>

definition charger_module_open ::
  "(charger \<Rightarrow> (nyx_error \<times> charger) option) \<Rightarrow> ptr \<Rightarrow> ptr \<Rightarrow> charger \<Rightarrow>
   (nyx_error \<times> ptr \<times> charger) option" where
  "charger_module_open init mem d0 s =
     (if ch_dev s \<noteq> NULL then Some (NYX_ERROR_NONE, d0, s)
      else if mem = NULL then Some (NYX_ERROR_OUT_OF_MEMORY, d0, s)
      else do {
        (r, s') \<leftarrow> init (s\<lparr>ch_dev := mem\<rparr>);
        Some (r, mem, s') })"

definition charger_module_close :: nyx_error where
  "charger_module_close = NYX_ERROR_NONE"

definition charger_query_charger_status ::
  "(charger_status option \<Rightarrow> charger \<Rightarrow> nyx_error \<times> charger_status option \<times> charger) \<Rightarrow>
   charger_status option \<Rightarrow> ptr \<Rightarrow> charger \<Rightarrow> nyx_error \<times> charger_status option \<times> charger" where
  "charger_query_charger_status read status handle s =
     (if handle \<noteq> ch_dev s then (NYX_ERROR_INVALID_HANDLE, status, s)
      else if status = None then (NYX_ERROR_INVALID_VALUE, status, s)
      else read status s)"

definition charger_register_charger_status_callback ::
  "ptr \<times> ptr \<Rightarrow> ptr \<Rightarrow> charger \<Rightarrow> nyx_error \<times> unit \<times> charger" where
  "charger_register_charger_status_callback = (\<lambda>(callback_func, context) handle s.
     if handle \<noteq> ch_dev s then (NYX_ERROR_INVALID_HANDLE, (), s)
     else if callback_func = NULL then (NYX_ERROR_INVALID_VALUE, (), s)
     else (NYX_ERROR_NONE, (),
           s\<lparr>charger_status_callback := callback_func, charger_status_callback_context := context\<rparr>))"

definition charger_register_state_change_callback ::
  "ptr \<times> ptr \<Rightarrow> ptr \<Rightarrow> charger \<Rightarrow> nyx_error \<times> unit \<times> charger" where
  "charger_register_state_change_callback = (\<lambda>(callback_func, context) handle s.
     if handle \<noteq> ch_dev s then (NYX_ERROR_INVALID_HANDLE, (), s)
     else if callback_func = NULL then (NYX_ERROR_INVALID_VALUE, (), s)
     else (NYX_ERROR_NONE, (),
           s\<lparr>state_change_callback := callback_func, state_change_callback_context := context\<rparr>))"

definition charger_enable_charging ::
  "charger_status option \<Rightarrow> ptr \<Rightarrow> charger \<Rightarrow> nyx_error \<times> charger_status option \<times> charger" where
  "charger_enable_charging status handle s =
     (if handle \<noteq> ch_dev s then (NYX_ERROR_INVALID_HANDLE, status, s)
      else case status of
        None \<Rightarrow> (NYX_ERROR_INVALID_VALUE, None, s)
      | Some st \<Rightarrow> (let (r, st') = charger_copy_status st s in (r, Some st', s)))"

definition charger_disable_charging ::
  "charger_status option \<Rightarrow> ptr \<Rightarrow> charger \<Rightarrow> nyx_error \<times> charger_status option \<times> charger" where
  "charger_disable_charging status handle s =
     (if handle \<noteq> ch_dev s then (NYX_ERROR_INVALID_HANDLE, status, s)
      else case status of
        None \<Rightarrow> (NYX_ERROR_INVALID_VALUE, None, s)
      | Some st \<Rightarrow> (let (r, st') = charger_copy_status st s in (r, Some st', s)))"

text \<open>A NULL \<open>event\<close> is written to: the model has no such call.\<close>

definition charger_query_charger_event ::
  "(charger \<Rightarrow> nyx_error \<times> u32 \<times> charger) \<Rightarrow> u32 \<Rightarrow> ptr \<Rightarrow> charger \<Rightarrow> nyx_error \<times> u32 \<times> charger" where
  "charger_query_charger_event query event handle s =
     (if handle \<noteq> ch_dev s then (NYX_ERROR_INVALID_HANDLE, event, s) else query s)"

section \<open>The handle guards every operation\<close>

interpretation charger_status: handle_guarded ch_dev
  "charger_query_charger_status (charger_read_status M fs)" "\<lambda>st. st" for M fs
  by unfold_locales (simp_all add: charger_query_charger_status_def charger_read_status_def Let_def)

interpretation charger_status_cb: handle_guarded ch_dev charger_register_charger_status_callback "\<lambda>_. ()"
  by unfold_locales (simp_all add: charger_register_charger_status_callback_def split: prod.split)

interpretation state_change_cb: handle_guarded ch_dev charger_register_state_change_callback "\<lambda>_. ()"
  by unfold_locales (simp_all add: charger_register_state_change_callback_def split: prod.split)

interpretation enable: handle_guarded ch_dev charger_enable_charging "\<lambda>st. st"
  by unfold_locales (simp_all add: charger_enable_charging_def charger_copy_status_def split: option.split)

interpretation disable: handle_guarded ch_dev charger_disable_charging "\<lambda>st. st"
  by unfold_locales (simp_all add: charger_disable_charging_def charger_copy_status_def split: option.split)

interpretation fake_event: handle_guarded ch_dev "charger_query_charger_event (fake_query_event M)" "\<lambda>e. e" for M
  by unfold_locales (simp_all add: charger_query_charger_event_def fake_query_event_def)

interpretation device_event: handle_guarded ch_dev "charger_query_charger_event (device_query_event M)" "\<lambda>e. e" for M
  by unfold_locales (simp_all add: charger_query_charger_event_def device_query_event_def)

end
