(* ===== verification/Charger_Emulator.thy ===== *)
theory Charger_Emulator
  imports Charger
begin

text \<open>
  emulator/chargerlib.c: the charger module of the emulator in one file, where charger/chargerlib.c
  needs a backend. Its static variables are among those of the record \<open>charger\<close>. At the end both
  are run on the same calls.
\<close>

section \<open>The operations\<close>

definition emu_module_open :: "ptr \<Rightarrow> ptr \<Rightarrow> charger \<Rightarrow> nyx_error \<times> ptr \<times> charger" where
  "emu_module_open mem d0 s =
     (if ch_dev s \<noteq> NULL then (NYX_ERROR_NONE, d0, s)
      else if mem = NULL then (NYX_ERROR_OUT_OF_MEMORY, d0, s)
      else (NYX_ERROR_NONE, mem, s\<lparr>ch_dev := mem\<rparr>))"

definition emu_module_close :: nyx_error where
  "emu_module_close = NYX_ERROR_NONE"

definition emu_query_charger_status ::
  "charger_status option \<Rightarrow> ptr \<Rightarrow> charger \<Rightarrow> nyx_error \<times> charger_status option \<times> charger" where
  "emu_query_charger_status status handle s =
     (if handle \<noteq> ch_dev s then (NYX_ERROR_INVALID_HANDLE, status, s)
      else if status = None then (NYX_ERROR_INVALID_VALUE, None, s)
      else (NYX_ERROR_NONE, Some (gChargerStatus s), s))"

definition emu_register_charger_status_callback ::
  "ptr \<Rightarrow> ptr \<Rightarrow> ptr \<Rightarrow> charger \<Rightarrow> nyx_error \<times> charger" where
  "emu_register_charger_status_callback handle callback_func context s =
     (if handle \<noteq> ch_dev s then (NYX_ERROR_INVALID_HANDLE, s)
      else if callback_func = NULL then (NYX_ERROR_INVALID_VALUE, s)
      else (NYX_ERROR_NONE,
            s\<lparr>charger_status_callback := callback_func, charger_status_callback_context := context\<rparr>))"

definition emu_enable_charging ::
  "charger_status option \<Rightarrow> ptr \<Rightarrow> charger \<Rightarrow> nyx_error \<times> charger_status option \<times> charger" where
  "emu_enable_charging status handle s =
     (if handle \<noteq> ch_dev s then (NYX_ERROR_INVALID_HANDLE, status, s)
      else if status = None then (NYX_ERROR_INVALID_VALUE, None, s)
      else (NYX_ERROR_NONE, Some (gChargerStatus s), s))"

definition emu_disable_charging ::
  "charger_status option \<Rightarrow> ptr \<Rightarrow> charger \<Rightarrow> nyx_error \<times> charger_status option \<times> charger" where
  "emu_disable_charging status handle s =
     (if handle \<noteq> ch_dev s then (NYX_ERROR_INVALID_HANDLE, status, s)
      else if status = None then (NYX_ERROR_INVALID_VALUE, None, s)
      else (NYX_ERROR_NONE, Some (gChargerStatus s), s))"

definition emu_register_state_change_callback ::
  "ptr \<Rightarrow> ptr \<Rightarrow> ptr \<Rightarrow> charger \<Rightarrow> nyx_error \<times> charger" where
  "emu_register_state_change_callback handle callback_func context s =
     (if handle \<noteq> ch_dev s then (NYX_ERROR_INVALID_HANDLE, s)
      else if callback_func = NULL then (NYX_ERROR_INVALID_VALUE, s)
      else (NYX_ERROR_NONE,
            s\<lparr>state_change_callback := callback_func, state_change_callback_context := context\<rparr>))"

definition emu_query_charger_event ::
  "charger_masks \<Rightarrow> u32 \<Rightarrow> ptr \<Rightarrow> charger \<Rightarrow> nyx_error \<times> u32 \<times> charger" where
  "emu_query_charger_event M event handle s =
     (if handle \<noteq> ch_dev s then (NYX_ERROR_INVALID_HANDLE, event, s)
      else (NYX_ERROR_NONE, current_event s, s\<lparr>current_event := NYX_NO_NEW_EVENT M\<rparr>))"

section \<open>Runs of calls\<close>

text \<open>What a client can call, and what it gets back: the error code and what was written.\<close>

datatype charger_call =
    Open ptr ptr
  | Close
  | Query_Status "charger_status option" ptr
  | Register_Status ptr ptr ptr
  | Enable "charger_status option" ptr
  | Disable "charger_status option" ptr
  | Register_State_Change ptr ptr ptr
  | Query_Event u32 ptr

datatype charger_answer =
    Answer nyx_error
  | Answer_Device nyx_error ptr
  | Answer_Status nyx_error "charger_status option"
  | Answer_Event nyx_error u32

text \<open>The split library over a backend.\<close>

fun lib_call ::
  "(charger \<Rightarrow> (nyx_error \<times> charger) option) \<Rightarrow>
   (charger_status option \<Rightarrow> charger \<Rightarrow> nyx_error \<times> charger_status option \<times> charger) \<Rightarrow>
   (charger \<Rightarrow> nyx_error \<times> u32 \<times> charger) \<Rightarrow>
   charger_call \<Rightarrow> charger \<Rightarrow> (charger_answer \<times> charger) option" where
  "lib_call init read query (Open mem d0) s =
     map_option (\<lambda>(r, d, s'). (Answer_Device r d, s')) (charger_module_open init mem d0 s)"
| "lib_call init read query Close s = Some (Answer charger_module_close, s)"
| "lib_call init read query (Query_Status st h) s =
     (let (r, st', s') = charger_query_charger_status read st h s in Some (Answer_Status r st', s'))"
| "lib_call init read query (Register_Status h cb ctx) s =
     (let (r, _, s') = charger_register_charger_status_callback (cb, ctx) h s in Some (Answer r, s'))"
| "lib_call init read query (Enable st h) s =
     (let (r, st', s') = charger_enable_charging st h s in Some (Answer_Status r st', s'))"
| "lib_call init read query (Disable st h) s =
     (let (r, st', s') = charger_disable_charging st h s in Some (Answer_Status r st', s'))"
| "lib_call init read query (Register_State_Change h cb ctx) s =
     (let (r, _, s') = charger_register_state_change_callback (cb, ctx) h s in Some (Answer r, s'))"
| "lib_call init read query (Query_Event e h) s =
     (let (r, e', s') = charger_query_charger_event query e h s in Some (Answer_Event r e', s'))"

fun emu_call :: "charger_masks \<Rightarrow> charger_call \<Rightarrow> charger \<Rightarrow> charger_answer \<times> charger" where
  "emu_call M (Open mem d0) s = (let (r, d, s') = emu_module_open mem d0 s in (Answer_Device r d, s'))"
| "emu_call M Close s = (Answer emu_module_close, s)"
| "emu_call M (Query_Status st h) s =
     (let (r, st', s') = emu_query_charger_status st h s in (Answer_Status r st', s'))"
| "emu_call M (Register_Status h cb ctx) s =
     (let (r, s') = emu_register_charger_status_callback h cb ctx s in (Answer r, s'))"
| "emu_call M (Enable st h) s =
     (let (r, st', s') = emu_enable_charging st h s in (Answer_Status r st', s'))"
| "emu_call M (Disable st h) s =
     (let (r, st', s') = emu_disable_charging st h s in (Answer_Status r st', s'))"
| "emu_call M (Register_State_Change h cb ctx) s =
     (let (r, s') = emu_register_state_change_callback h cb ctx s in (Answer r, s'))"
| "emu_call M (Query_Event e h) s =
     (let (r, e', s') = emu_query_charger_event M e h s in (Answer_Event r e', s'))"

fun lib_calls ::
  "(charger_call \<Rightarrow> charger \<Rightarrow> (charger_answer \<times> charger) option) \<Rightarrow>
   charger_call list \<Rightarrow> charger \<Rightarrow> (charger_answer list \<times> charger) option" where
  "lib_calls f [] s = Some ([], s)"
| "lib_calls f (c # cs) s = do {
     (a, s') \<leftarrow> f c s;
     (as, s'') \<leftarrow> lib_calls f cs s';
     Some (a # as, s'') }"

fun emu_calls :: "charger_masks \<Rightarrow> charger_call list \<Rightarrow> charger \<Rightarrow> charger_answer list \<times> charger" where
  "emu_calls M [] s = ([], s)"
| "emu_calls M (c # cs) s =
     (let (a, s') = emu_call M c s; (as, s'') = emu_calls M cs s' in (a # as, s''))"

lemma lib_call_emulator:
  "lib_call fake_charger_init fake_read_status (fake_query_event M) c s = Some (emu_call M c s)"
  by (cases c)
    (auto simp: charger_module_open_def emu_module_open_def fake_charger_init_def
      charger_module_close_def emu_module_close_def
      charger_query_charger_status_def emu_query_charger_status_def fake_read_status_def
      charger_register_charger_status_callback_def emu_register_charger_status_callback_def
      charger_enable_charging_def emu_enable_charging_def charger_copy_status_def
      charger_disable_charging_def emu_disable_charging_def
      charger_register_state_change_callback_def emu_register_state_change_callback_def
      charger_query_charger_event_def emu_query_charger_event_def fake_query_event_def)

lemma lib_calls_emulator:
  "lib_calls (lib_call fake_charger_init fake_read_status (fake_query_event M)) cs s = Some (emu_calls M cs s)"
  by (induction cs arbitrary: s) (simp_all add: lib_call_emulator split: prod.split)

end
