(* ===== verification/Charger_Events.thy ===== *)
theory Charger_Events
  imports Charger_Emulator
begin

text \<open>
  The event word of the charger: masks, what one udev event does to it, runs of udev events, and
  the states that calls and udev events reach.
\<close>

section \<open>Masks\<close>

definition has :: "u32 \<Rightarrow> u32 \<Rightarrow> bool" where
  "has e m \<longleftrightarrow> and e m \<noteq> 0"

definition event_masks :: "charger_masks \<Rightarrow> u32 list" where
  "event_masks M = [NYX_CHARGER_CONNECTED M, NYX_CHARGER_DISCONNECTED M, NYX_CHARGE_COMPLETE M,
     NYX_CHARGE_RESTART M, NYX_BATTERY_PRESENT M, NYX_BATTERY_ABSENT M]"

text \<open>What nyx-lib documents: no event is 0, and events are distinct bits.\<close>

definition masks_ok :: "charger_masks \<Rightarrow> bool" where
  "masks_ok M \<longleftrightarrow> NYX_NO_NEW_EVENT M = 0 \<and> 0 \<notin> set (event_masks M) \<and>
     sorted_wrt (\<lambda>a b. and a b = 0) (event_masks M)"

lemma and_flip: "and (flip_event c a e) m = or (and (and e (not c)) m) (and a m)"
  by (rule bit_word_eqI) (auto simp: flip_event_def bit_simps)

lemma has_flip_add: "a \<noteq> 0 \<Longrightarrow> has (flip_event c a e) a"
  by (simp add: has_def and_flip or_eq_0_iff)

lemma has_flip_clear: "and c a = 0 \<Longrightarrow> \<not> has (flip_event c a e) c"
proof -
  assume "and c a = 0"
  then have "and a c = 0" by (simp add: and.commute)
  moreover have "and (and e (not c)) c = 0" by (rule bit_word_eqI) (simp add: bit_simps)
  ultimately show ?thesis unfolding has_def and_flip by simp
qed

lemma has_flip_other: "and c m = 0 \<Longrightarrow> and a m = 0 \<Longrightarrow> has (flip_event c a e) m = has e m"
proof -
  assume c: "and c m = 0" and a: "and a m = 0"
  have "and (and e (not c)) m = and e m"
  proof (rule bit_word_eqI)
    fix n
    have "\<not> bit (and c m) n" using c by simp
    then show "bit (and (and e (not c)) m) n = bit (and e m) n"
      by (auto simp: bit_simps dest: bit_imp_le_length)
  qed
  with a show ?thesis by (simp add: has_def and_flip)
qed

lemma masks_disjoint:
  assumes "masks_ok M" and "a \<in> set (event_masks M)" and "b \<in> set (event_masks M)" and "a \<noteq> b"
  shows "and a b = 0"
  using assms by (auto simp: masks_ok_def event_masks_def and.commute)

lemma masks_distinct: "masks_ok M \<Longrightarrow> distinct (event_masks M)"
  by (auto simp: masks_ok_def event_masks_def)

lemma masks_neq:
  assumes "masks_ok M"
  shows "NYX_CHARGER_CONNECTED M \<noteq> NYX_CHARGER_DISCONNECTED M" "NYX_CHARGER_CONNECTED M \<noteq> NYX_CHARGE_COMPLETE M"
    "NYX_CHARGER_CONNECTED M \<noteq> NYX_CHARGE_RESTART M" "NYX_CHARGER_CONNECTED M \<noteq> NYX_BATTERY_PRESENT M"
    "NYX_CHARGER_CONNECTED M \<noteq> NYX_BATTERY_ABSENT M" "NYX_CHARGER_DISCONNECTED M \<noteq> NYX_CHARGE_COMPLETE M"
    "NYX_CHARGER_DISCONNECTED M \<noteq> NYX_CHARGE_RESTART M" "NYX_CHARGER_DISCONNECTED M \<noteq> NYX_BATTERY_PRESENT M"
    "NYX_CHARGER_DISCONNECTED M \<noteq> NYX_BATTERY_ABSENT M" "NYX_CHARGE_COMPLETE M \<noteq> NYX_CHARGE_RESTART M"
    "NYX_CHARGE_COMPLETE M \<noteq> NYX_BATTERY_PRESENT M" "NYX_CHARGE_COMPLETE M \<noteq> NYX_BATTERY_ABSENT M"
    "NYX_CHARGE_RESTART M \<noteq> NYX_BATTERY_PRESENT M" "NYX_CHARGE_RESTART M \<noteq> NYX_BATTERY_ABSENT M"
    "NYX_BATTERY_PRESENT M \<noteq> NYX_BATTERY_ABSENT M"
  using masks_distinct [OF assms] by (simp_all add: event_masks_def)

lemmas masks_neqs = masks_neq masks_neq [THEN not_sym]

lemma flip_clears:
  assumes "masks_ok M" and "c \<in> set (event_masks M)" and "a \<in> set (event_masks M)" and "c \<noteq> a"
  shows "\<not> has (flip_event c a e) c"
  using assms by (intro has_flip_clear masks_disjoint)

lemma flip_keeps:
  assumes "masks_ok M" and "c \<in> set (event_masks M)" and "a \<in> set (event_masks M)"
    and "m \<in> set (event_masks M)" and "m \<noteq> c" and "m \<noteq> a"
  shows "has (flip_event c a e) m = has e m"
  using assms by (intro has_flip_other masks_disjoint) auto

section \<open>What the files say\<close>

definition supplied :: "file_system \<Rightarrow> charger \<Rightarrow> bool" where
  "supplied fs s \<longleftrightarrow> online fs (charger_usb_sysfs_online_path s) \<or> online fs (charger_ac_sysfs_online_path s)
     \<or> online fs (charger_touch_sysfs_online_path s) \<or> online fs (charger_wireless_sysfs_online_path s)"

lemma zero_not_charging [simp]: "\<not> cs_is_charging zero_charger_status"
  by (simp add: zero_charger_status_def)

definition status_now :: "charger_masks \<Rightarrow> file_system \<Rightarrow> charger \<Rightarrow> charger_status" where
  "status_now M fs s = gChargerStatus (snd (snd (charger_read_status M fs None s)))"

lemma read_status_eq:
  "charger_read_status M fs st s =
     (NYX_ERROR_NONE, map_option (\<lambda>_. status_now M fs s) st, s\<lparr>gChargerStatus := status_now M fs s\<rparr>)"
  by (simp add: status_now_def charger_read_status_def Let_def)

lemma status_now_charging [simp]: "cs_is_charging (status_now M fs s) \<longleftrightarrow> supplied fs s"
  by (simp add: status_now_def charger_read_status_def supplied_def Let_def)

lemma status_now_cong:
  "charger_usb_sysfs_online_path s' = charger_usb_sysfs_online_path s \<Longrightarrow>
   charger_ac_sysfs_online_path s' = charger_ac_sysfs_online_path s \<Longrightarrow>
   charger_touch_sysfs_online_path s' = charger_touch_sysfs_online_path s \<Longrightarrow>
   charger_wireless_sysfs_online_path s' = charger_wireless_sysfs_online_path s \<Longrightarrow>
   status_now M fs s' = status_now M fs s \<and> supplied fs s' = supplied fs s"
  by (simp add: status_now_def charger_read_status_def supplied_def Let_def)

text \<open>Reading the battery touches the two battery variables only.\<close>

lemma battery_read_updates [simp]:
  "charger_battery_read_status fs (s\<lparr>gChargerStatus := x\<rparr>) = (charger_battery_read_status fs s)\<lparr>gChargerStatus := x\<rparr>"
  "charger_battery_read_status fs (s\<lparr>current_event := e\<rparr>) = (charger_battery_read_status fs s)\<lparr>current_event := e\<rparr>"
  by (auto simp: charger_battery_read_status_def Let_def split: option.split prod.split)

lemma battery_read_frame [simp]:
  "current_event (charger_battery_read_status fs s) = current_event s"
  "gChargerStatus (charger_battery_read_status fs s) = gChargerStatus s"
  "ch_dev (charger_battery_read_status fs s) = ch_dev s"
  "charger_status_callback (charger_battery_read_status fs s) = charger_status_callback s"
  "charger_status_callback_context (charger_battery_read_status fs s) = charger_status_callback_context s"
  "state_change_callback (charger_battery_read_status fs s) = state_change_callback s"
  "state_change_callback_context (charger_battery_read_status fs s) = state_change_callback_context s"
  "charger_usb_sysfs_online_path (charger_battery_read_status fs s) = charger_usb_sysfs_online_path s"
  "charger_ac_sysfs_online_path (charger_battery_read_status fs s) = charger_ac_sysfs_online_path s"
  "charger_touch_sysfs_online_path (charger_battery_read_status fs s) = charger_touch_sysfs_online_path s"
  "charger_wireless_sysfs_online_path (charger_battery_read_status fs s) = charger_wireless_sysfs_online_path s"
  by (auto simp: charger_battery_read_status_def Let_def split: option.split prod.split)

lemma battery_read_None: "curr_battery_state (charger_battery_read_status fs s) = None \<longleftrightarrow> curr_battery_state s = None"
  by (auto simp: charger_battery_read_status_def Let_def split: option.split prod.split)

lemma battery_read_idem:
  "charger_battery_read_status fs (charger_battery_read_status fs s) = charger_battery_read_status fs s"
  by (auto simp: charger_battery_read_status_def Let_def split: option.split prod.split)

section \<open>One udev event\<close>

definition charge_changed :: "string option \<Rightarrow> string option \<Rightarrow> bool" where
  "charge_changed old new \<longleftrightarrow>
     new = Some ''Full'' \<and> (old = None \<or> old = Some ''Charging'') \<or> old = Some ''Full'' \<and> new = Some ''Charging''"

definition event_after ::
  "charger_masks \<Rightarrow> bool \<Rightarrow> bool \<Rightarrow> string option \<Rightarrow> string option \<Rightarrow> bool \<Rightarrow> bool \<Rightarrow> u32 \<Rightarrow> u32" where
  "event_after M was now old new p p' e =
     (let e1 = snd (has_charger_connected_state_changed M was now e);
          e2 = snd (has_charger_state_changed M old new e1) in
      if charge_changed old new then e2 else snd (has_battery_state_changed M p p' e2))"

lemma charger_state_changed_eq:
  "has_charger_state_changed M old new e = (charge_changed old new,
     if \<not> charge_changed old new then e
     else if new = Some ''Full'' then flip_event (NYX_CHARGE_RESTART M) (NYX_CHARGE_COMPLETE M) e
     else flip_event (NYX_CHARGE_COMPLETE M) (NYX_CHARGE_RESTART M) e)"
  by (auto simp: has_charger_state_changed_def charge_changed_def)

lemma handle_event_eq:
  assumes "curr_battery_state s = Some p"
    and b: "b = charger_battery_read_status fs s" and p': "curr_battery_state b = Some p'"
  shows "handle_power_supply_event M True True fs s =
    (let conn = (cs_is_charging (gChargerStatus s) \<noteq> supplied fs s) in
     Some (True,
       (if conn \<and> charger_status_callback s \<noteq> NULL
        then [(charger_status_callback s, ch_dev s, charger_status_callback_context s)] else []) @
       (if (conn \<or> charge_changed (battery_status s) (battery_status b) \<or> p \<noteq> p') \<and> state_change_callback s \<noteq> NULL
        then [(state_change_callback s, ch_dev s, state_change_callback_context s)] else []),
       b\<lparr>gChargerStatus := status_now M fs s,
         current_event := event_after M (cs_is_charging (gChargerStatus s)) (supplied fs s)
           (battery_status s) (battery_status b) p p' (current_event s)\<rparr>))"
  using assms
  by (auto simp: handle_power_supply_event_def read_status_eq charger_state_changed_eq event_after_def
      has_charger_connected_state_changed_def has_battery_state_changed_def Let_def)

lemma handle_undefined: "curr_battery_state s = None \<Longrightarrow> handle_power_supply_event M True True fs s = None"
  by (simp add: handle_power_supply_event_def read_status_eq split: prod.split)

lemma handle_defined:
  assumes "curr_battery_state s = Some p"
  obtains p' where "curr_battery_state (charger_battery_read_status fs s) = Some p'"
  using assms battery_read_None [of fs s] by (metis not_None_eq)

text \<open>Which bits one event leaves set.\<close>

lemma flip_cases:
  assumes "masks_ok M" and "c \<in> set (event_masks M)" and "a \<in> set (event_masks M)" and "c \<noteq> a"
    and "m \<in> set (event_masks M)"
  shows "has (flip_event c a e) m \<longleftrightarrow> (if m = a then True else if m = c then False else has e m)"
proof -
  have "a \<noteq> 0" using assms(1,3) by (auto simp: masks_ok_def)
  with flip_clears [OF assms(1-4)] flip_keeps [OF assms(1-3,5)] show ?thesis
    by (auto simp: has_flip_add)
qed

lemma flips:
  assumes M: "masks_ok M" and m: "m \<in> set (event_masks M)"
  shows "has (snd (has_charger_connected_state_changed M was now e)) m \<longleftrightarrow>
      (if was = now then has e m
       else if m = NYX_CHARGER_CONNECTED M then now else if m = NYX_CHARGER_DISCONNECTED M then \<not> now else has e m)"
    and "has (snd (has_battery_state_changed M p p' e)) m \<longleftrightarrow>
      (if p = p' then has e m
       else if m = NYX_BATTERY_PRESENT M then p' else if m = NYX_BATTERY_ABSENT M then \<not> p' else has e m)"
    and "has (snd (has_charger_state_changed M old new e)) m \<longleftrightarrow>
      (if \<not> charge_changed old new then has e m
       else if m = NYX_CHARGE_COMPLETE M then new = Some ''Full''
       else if m = NYX_CHARGE_RESTART M then new \<noteq> Some ''Full'' else has e m)"
proof -
  note f = flip_cases [OF M]
  have s: "set (event_masks M) = {NYX_CHARGER_CONNECTED M, NYX_CHARGER_DISCONNECTED M, NYX_CHARGE_COMPLETE M,
     NYX_CHARGE_RESTART M, NYX_BATTERY_PRESENT M, NYX_BATTERY_ABSENT M}"
    by (simp add: event_masks_def)
  note d = masks_distinct [OF M, unfolded event_masks_def, simplified]
  show "has (snd (has_charger_connected_state_changed M was now e)) m \<longleftrightarrow>
      (if was = now then has e m
       else if m = NYX_CHARGER_CONNECTED M then now else if m = NYX_CHARGER_DISCONNECTED M then \<not> now else has e m)"
    using d m by (cases now) (auto simp: has_charger_connected_state_changed_def f s)
  show "has (snd (has_battery_state_changed M p p' e)) m \<longleftrightarrow>
      (if p = p' then has e m
       else if m = NYX_BATTERY_PRESENT M then p' else if m = NYX_BATTERY_ABSENT M then \<not> p' else has e m)"
    using d m by (cases p') (auto simp: has_battery_state_changed_def f s)
  show "has (snd (has_charger_state_changed M old new e)) m \<longleftrightarrow>
      (if \<not> charge_changed old new then has e m
       else if m = NYX_CHARGE_COMPLETE M then new = Some ''Full''
       else if m = NYX_CHARGE_RESTART M then new \<noteq> Some ''Full'' else has e m)"
    using d m by (cases "new = Some ''Full''") (auto simp: charger_state_changed_eq f s)
qed

lemma event_after_bits:
  assumes "masks_ok M"
  shows "has (event_after M was now old new p p' e) (NYX_CHARGER_CONNECTED M) \<longleftrightarrow>
      (if was = now then has e (NYX_CHARGER_CONNECTED M) else now)"
    and "has (event_after M was now old new p p' e) (NYX_CHARGER_DISCONNECTED M) \<longleftrightarrow>
      (if was = now then has e (NYX_CHARGER_DISCONNECTED M) else \<not> now)"
    and "has (event_after M was now old new p p' e) (NYX_CHARGE_COMPLETE M) \<longleftrightarrow>
      (if charge_changed old new then new = Some ''Full'' else has e (NYX_CHARGE_COMPLETE M))"
    and "has (event_after M was now old new p p' e) (NYX_CHARGE_RESTART M) \<longleftrightarrow>
      (if charge_changed old new then new \<noteq> Some ''Full'' else has e (NYX_CHARGE_RESTART M))"
    and "has (event_after M was now old new p p' e) (NYX_BATTERY_PRESENT M) \<longleftrightarrow>
      (if charge_changed old new \<or> p = p' then has e (NYX_BATTERY_PRESENT M) else p')"
    and "has (event_after M was now old new p p' e) (NYX_BATTERY_ABSENT M) \<longleftrightarrow>
      (if charge_changed old new \<or> p = p' then has e (NYX_BATTERY_ABSENT M) else \<not> p')"
  by (simp_all add: event_after_def Let_def flips [OF assms] event_masks_def masks_neqs [OF assms])

section \<open>Consistent events\<close>

text \<open>An event word never says of anything both that it happened and that it was undone.\<close>

definition events_ok :: "charger_masks \<Rightarrow> u32 \<Rightarrow> bool" where
  "events_ok M e \<longleftrightarrow>
     \<not> (has e (NYX_CHARGER_CONNECTED M) \<and> has e (NYX_CHARGER_DISCONNECTED M)) \<and>
     \<not> (has e (NYX_CHARGE_COMPLETE M) \<and> has e (NYX_CHARGE_RESTART M)) \<and>
     \<not> (has e (NYX_BATTERY_PRESENT M) \<and> has e (NYX_BATTERY_ABSENT M))"

lemma no_event_ok: "masks_ok M \<Longrightarrow> events_ok M (NYX_NO_NEW_EVENT M)"
  by (simp add: events_ok_def masks_ok_def has_def)

lemma event_after_ok: "masks_ok M \<Longrightarrow> events_ok M e \<Longrightarrow> events_ok M (event_after M was now old new p p' e)"
  by (auto simp: events_ok_def event_after_bits)

text \<open>The events at the start are those of a first udev event, except that nothing is skipped.\<close>

lemma init_events_eq:
  "charger_init_events M s = (case curr_battery_state s of None \<Rightarrow> None
     | Some p \<Rightarrow> Some (s\<lparr>current_event :=
         snd (has_charger_connected_state_changed M False (cs_is_charging (gChargerStatus s))
           (snd (has_battery_state_changed M False p
             (snd (has_charger_state_changed M None (battery_status s) (current_event s))))))\<rparr>))"
  by (auto simp: charger_init_events_def split: option.split prod.split)

lemma init_events_bits:
  assumes M: "masks_ok M" and i: "charger_init_events M s = Some s'" and e: "current_event s = NYX_NO_NEW_EVENT M"
  shows "has (current_event s') (NYX_CHARGER_CONNECTED M) \<longleftrightarrow> cs_is_charging (gChargerStatus s)"
    and "\<not> has (current_event s') (NYX_CHARGER_DISCONNECTED M)"
    and "has (current_event s') (NYX_BATTERY_PRESENT M) \<longleftrightarrow> curr_battery_state s = Some True"
    and "\<not> has (current_event s') (NYX_BATTERY_ABSENT M)"
    and "\<not> has (current_event s') (NYX_CHARGE_RESTART M)"
proof -
  have z: "\<not> has (NYX_NO_NEW_EVENT M) m" for m using M by (simp add: masks_ok_def has_def)
  obtain p where p: "curr_battery_state s = Some p" and s': "current_event s' =
       snd (has_charger_connected_state_changed M False (cs_is_charging (gChargerStatus s))
           (snd (has_battery_state_changed M False p
             (snd (has_charger_state_changed M None (battery_status s) (NYX_NO_NEW_EVENT M))))))"
    using i e by (auto simp: init_events_eq split: option.splits)
  show "has (current_event s') (NYX_CHARGER_CONNECTED M) \<longleftrightarrow> cs_is_charging (gChargerStatus s)"
    "\<not> has (current_event s') (NYX_CHARGER_DISCONNECTED M)"
    "has (current_event s') (NYX_BATTERY_PRESENT M) \<longleftrightarrow> curr_battery_state s = Some True"
    "\<not> has (current_event s') (NYX_BATTERY_ABSENT M)"
    "\<not> has (current_event s') (NYX_CHARGE_RESTART M)"
    using z by (simp_all add: s' p flips [OF M] event_masks_def charge_changed_def masks_neqs [OF M])
qed

section \<open>Runs of udev events\<close>

fun udev_run :: "charger_masks \<Rightarrow> file_system list \<Rightarrow> charger \<Rightarrow> charger option" where
  "udev_run M [] s = Some s"
| "udev_run M (fs # fss) s = do { (_, _, s') \<leftarrow> handle_power_supply_event M True True fs s; udev_run M fss s' }"

text \<open>Whether the charger is charging, as the connected bits must say: now and ever before.\<close>

definition tracks :: "charger_masks \<Rightarrow> bool \<Rightarrow> charger \<Rightarrow> bool" where
  "tracks M ever s \<longleftrightarrow> curr_battery_state s \<noteq> None \<and> (cs_is_charging (gChargerStatus s) \<longrightarrow> ever) \<and>
     (has (current_event s) (NYX_CHARGER_CONNECTED M) \<longleftrightarrow> cs_is_charging (gChargerStatus s)) \<and>
     (has (current_event s) (NYX_CHARGER_DISCONNECTED M) \<longleftrightarrow> \<not> cs_is_charging (gChargerStatus s) \<and> ever)"

lemma handle_tracks:
  assumes M: "masks_ok M" and t: "tracks M ever s"
  obtains calls s' where "handle_power_supply_event M True True fs s = Some (True, calls, s')"
    and "tracks M (ever \<or> supplied fs s) s'" and "cs_is_charging (gChargerStatus s') \<longleftrightarrow> supplied fs s"
    and "\<And>g. supplied g s' = supplied g s" and "ch_dev s' = ch_dev s"
proof -
  from t obtain p where p: "curr_battery_state s = Some p" by (auto simp: tracks_def)
  then obtain p' where p': "curr_battery_state (charger_battery_read_status fs s) = Some p'"
    by (rule handle_defined)
  show ?thesis
  proof (rule that)
    show "handle_power_supply_event M True True fs s = Some (True, fst (snd (the (handle_power_supply_event M True True fs s))),
        snd (snd (the (handle_power_supply_event M True True fs s))))"
      by (simp add: handle_event_eq [OF p refl p'] Let_def)
    show "tracks M (ever \<or> supplied fs s) (snd (snd (the (handle_power_supply_event M True True fs s))))"
      using t p' by (auto simp: tracks_def handle_event_eq [OF p refl p'] Let_def event_after_bits [OF M])
  qed (simp_all add: handle_event_eq [OF p refl p'] Let_def supplied_def)
qed

lemma udev_run_tracks:
  assumes M: "masks_ok M" and t: "tracks M ever s"
  shows "\<exists>s'. udev_run M fss s = Some s' \<and> tracks M (ever \<or> (\<exists>fs \<in> set fss. supplied fs s)) s' \<and>
    (cs_is_charging (gChargerStatus s') \<longleftrightarrow>
      (if fss = [] then cs_is_charging (gChargerStatus s) else supplied (last fss) s)) \<and> ch_dev s' = ch_dev s"
  using t
proof (induction fss arbitrary: s ever)
  case (Cons fs fss)
  obtain calls s1 where h: "handle_power_supply_event M True True fs s = Some (True, calls, s1)"
    and t1: "tracks M (ever \<or> supplied fs s) s1" and c1: "cs_is_charging (gChargerStatus s1) \<longleftrightarrow> supplied fs s"
    and p1: "\<And>g. supplied g s1 = supplied g s" and d1: "ch_dev s1 = ch_dev s"
    by (rule handle_tracks [OF M Cons.prems, of fs]) (rule that)
  from Cons.IH [OF t1] t1 show ?case
    by (cases "fss = []") (simp_all add: h c1 p1 d1 disj_ac)
qed simp

lemma charger_open_tracks:
  assumes M: "masks_ok M"
    and o: "charger_module_open (charger_init M io fs) mem d0 (charger_start M) = Some (NYX_ERROR_NONE, d, s)"
  shows "tracks M (supplied fs s) s" and "cs_is_charging (gChargerStatus s) \<longleftrightarrow> supplied fs s" and "ch_dev s = mem"
proof -
  have "mem \<noteq> NULL" and "charger_init M io fs (charger_start M \<lparr>ch_dev := mem\<rparr>) = Some (NYX_ERROR_NONE, s)"
    using o by (auto simp: charger_module_open_def charger_start_def split: if_splits elim!: bind_eq_SomeE)
  moreover define s1 where "s1 = detect_charger_sysfs_paths fs (ch_path_junk io) (charger_start M \<lparr>ch_dev := mem\<rparr>)"
  moreover define s2 where "s2 = charger_battery_read_status fs
      (s1\<lparr>gChargerStatus := status_now M fs s1, curr_battery_state := ch_state_mem io, battery_status := ch_status_mem io\<rparr>)"
  ultimately have i: "charger_init_events M s2 = Some s"
    by (auto simp: charger_init_def read_status_eq Let_def split: if_splits elim!: bind_eq_SomeE)
  have s1: "current_event s1 = NYX_NO_NEW_EVENT M" "ch_dev s1 = mem"
    by (simp_all add: s1_def detect_charger_sysfs_paths_def charger_start_def Let_def split: option.split)
  then have s2: "current_event s2 = NYX_NO_NEW_EVENT M" "ch_dev s2 = mem"
    "cs_is_charging (gChargerStatus s2) \<longleftrightarrow> supplied fs s1" "\<And>g. supplied g s2 = supplied g s1"
    by (simp_all add: s2_def supplied_def)
  obtain e p where p: "curr_battery_state s2 = Some p" and s: "s = s2\<lparr>current_event := e\<rparr>"
    using i by (auto simp: init_events_eq split: option.splits)
  have sup: "supplied g s = supplied g s1" for g
    using s2(4) [of g] by (simp add: s supplied_def)
  show c: "cs_is_charging (gChargerStatus s) \<longleftrightarrow> supplied fs s"
    unfolding sup using s2(3) by (simp add: s)
  show "ch_dev s = mem" using s2(2) by (simp add: s)
  have "cs_is_charging (gChargerStatus s2) \<longleftrightarrow> supplied fs s" using c by (simp add: s)
  with init_events_bits(1,2) [OF M i s2(1)] c p show "tracks M (supplied fs s) s"
    by (simp add: tracks_def s)
qed

section \<open>Events that find nothing new about the battery\<close>

lemma charge_changed_same [simp]: "\<not> charge_changed x x"
  by (auto simp: charge_changed_def)

lemma udev_run_steady:
  assumes M: "masks_ok M"
  shows "charger_battery_read_status fs s = s \<Longrightarrow> curr_battery_state s = Some p \<Longrightarrow>
    udev_run M (replicate n fs) s = Some s' \<Longrightarrow>
    curr_battery_state s' = Some p \<and>
    (has (current_event s') (NYX_BATTERY_PRESENT M) \<longleftrightarrow> has (current_event s) (NYX_BATTERY_PRESENT M)) \<and>
    (has (current_event s') (NYX_BATTERY_ABSENT M) \<longleftrightarrow> has (current_event s) (NYX_BATTERY_ABSENT M))"
proof (induction n arbitrary: s)
  case (Suc n)
  note h = handle_event_eq [OF Suc.prems(2) refl, of fs p M, unfolded Suc.prems(1), OF Suc.prems(2)]
  show ?case
    using Suc.IH [OF _ _ Suc.prems(3) [simplified replicate_Suc udev_run.simps, unfolded h, simplified Let_def bind.simps prod.case]]
      Suc.prems(1,2)
    by (simp add: event_after_bits [OF M])
qed simp

lemma charger_init_defined:
  assumes "ch_udev_ok io" "ch_mon_ok io" "\<not> ch_filter_ret io < 0" "\<not> ch_receiving_ret io < 0"
    and "ch_state_mem io \<noteq> None"
  shows "\<exists>s'. charger_init M io fs s = Some (NYX_ERROR_NONE, s')"
proof -
  define s3 where "s3 = snd (snd (charger_read_status M fs None (detect_charger_sysfs_paths fs (ch_path_junk io) s)))
    \<lparr>curr_battery_state := ch_state_mem io, battery_status := ch_status_mem io\<rparr>"
  have "curr_battery_state (charger_battery_read_status fs s3) \<noteq> None"
    using assms(5) battery_read_None [of fs s3] by (simp add: s3_def)
  then obtain s' where "charger_init_events M (charger_battery_read_status fs s3) = Some s'"
    by (auto simp: init_events_eq)
  with assms show ?thesis by (auto simp: charger_init_def Let_def s3_def)
qed

end
