(* ===== verification/Charger_Properties.thy ===== *)
theory Charger_Properties
  imports Charger_Events
begin

text \<open>The properties of the charger module.\<close>

section \<open>Reachable states of the device\<close>

text \<open>The calls of clients and the udev events, in any order, each with the files as they are then.\<close>

inductive charger_reach :: "charger_masks \<Rightarrow> charger \<Rightarrow> bool" for M where
  start: "charger_reach M (charger_start M)"
| call: "charger_reach M s \<Longrightarrow>
    lib_call (charger_init M io fs) (charger_read_status M fs) (device_query_event M) c s = Some (a, s') \<Longrightarrow>
    charger_reach M s'"
| udev: "charger_reach M s \<Longrightarrow>
    handle_power_supply_event M input received fs s = Some (t, calls, s') \<Longrightarrow> charger_reach M s'"

lemma handle_current_event:
  assumes "handle_power_supply_event M input received fs s = Some (t, calls, s')"
  obtains "s' = s" | was now old new p p' where
    "current_event s' = event_after M was now old new p p' (current_event s)"
proof (cases "input \<and> received")
  case True
  with assms obtain p where p: "curr_battery_state s = Some p"
    by (cases "curr_battery_state s") (auto simp: handle_undefined)
  then obtain p' where "curr_battery_state (charger_battery_read_status fs s) = Some p'"
    by (rule handle_defined)
  with handle_event_eq [OF p refl this] True assms that(2) show ?thesis by (auto simp: Let_def)
next
  case False
  with assms that(1) show ?thesis by (auto simp: handle_power_supply_event_def)
qed

lemma read_status_event [simp]: "current_event (snd (snd (charger_read_status M fs st s))) = current_event s"
  by (simp add: read_status_eq)

lemma detect_event [simp]: "current_event (detect_charger_sysfs_paths fs junk s) = current_event s"
  by (simp add: detect_charger_sysfs_paths_def Let_def split: option.split)

text \<open>A call that opens the device records the first events; no other call of the device changes them.\<close>

lemma lib_call_current_event:
  assumes "lib_call (charger_init M io fs) (charger_read_status M fs) (device_query_event M) c s = Some (a, s')"
  shows "current_event s' = current_event s \<or>
    (\<exists>s1. current_event s1 = current_event s \<and> charger_init_events M s1 = Some s')"
proof (cases c)
  case (Open mem d0)
  then show ?thesis using assms
    by (fastforce simp: charger_module_open_def charger_init_def Let_def read_status_eq
        split: if_splits elim!: bind_eq_SomeE)
qed (use assms in \<open>auto simp: charger_query_charger_status_def read_status_eq
      charger_register_charger_status_callback_def charger_enable_charging_def charger_copy_status_def
      charger_disable_charging_def charger_register_state_change_callback_def
      charger_query_charger_event_def device_query_event_def split: if_splits option.splits\<close>)

lemma init_events_ok:
  assumes M: "masks_ok M" and e: "events_ok M (current_event s)" and i: "charger_init_events M s = Some s'"
  shows "events_ok M (current_event s')"
  using i e unfolding events_ok_def
  by (auto simp: init_events_eq flips [OF M] event_masks_def masks_neqs [OF M] split: option.splits if_splits)

section \<open>An example\<close>

definition ex_masks :: charger_masks where
  "ex_masks = \<lparr>NYX_NO_NEW_EVENT = 0, NYX_CHARGER_CONNECTED = 1, NYX_CHARGER_DISCONNECTED = 2,
     NYX_CHARGE_COMPLETE = 4, NYX_CHARGE_RESTART = 8, NYX_BATTERY_PRESENT = 32, NYX_BATTERY_ABSENT = 64,
     NYX_CHARGER_PC_CONNECTED = 1, NYX_CHARGER_WALL_CONNECTED = 2, NYX_CHARGER_USB_POWERED = 2,
     NYX_CHARGER_DIRECT_POWERED = 1\<rparr>"

lemma ex_masks_ok: "masks_ok ex_masks"
  by (simp add: masks_ok_def event_masks_def ex_masks_def)

text \<open>A battery at a mains adapter that is on line or not.\<close>

definition ex_supply :: "bool \<Rightarrow> string \<Rightarrow> bool \<Rightarrow> file_system" where
  "ex_supply on stat present = \<lparr>
     fs_contents = (\<lambda>p. if p = ''/sys/class/power_supply/AC/type'' then Some ''Mains''
       else if p = ''/sys/class/power_supply/BAT0/type'' then Some ''Battery''
       else if p = ''/sys/class/power_supply/BAT0/status'' then Some stat else None),
     fs_dir = (\<lambda>p. if p = base_dir then Some [''AC'', ''BAT0''] else Some [''type'']),
     fs_is_dir = (\<lambda>_. True),
     fs_exists = (\<lambda>p. p \<in> {''/sys/class/power_supply/BAT0/status'', ''/sys/class/power_supply/BAT0/present''}),
     fs_value = (\<lambda>p. if p = ''/sys/class/power_supply/AC/online'' then (if on then 1 else 0)
       else if p = ''/sys/class/power_supply/BAT0/present'' then (if present then 1 else 0) else -1)\<rparr>"

definition ex_io :: charger_io where
  "ex_io = \<lparr>ch_udev_ok = True, ch_mon_ok = True, ch_filter_ret = 0, ch_receiving_ret = 0,
     ch_state_mem = Some False, ch_status_mem = Some [], ch_path_junk = []\<rparr>"


lemmas ex_simps = ex_supply_def base_dir_def charger_node_path_def g_strlcpy_def

lemma ex_supply_find:
  "find_power_supply_sysfs_path (ex_supply on stat present) [] ''USB'' = None"
  "find_power_supply_sysfs_path (ex_supply on stat present) [] ''Mains'' = Some ''/sys/class/power_supply/AC''"
  "find_power_supply_sysfs_path (ex_supply on stat present) [] ''Touch'' = None"
  "find_power_supply_sysfs_path (ex_supply on stat present) [] ''Wireless'' = None"
  "find_power_supply_sysfs_path (ex_supply on stat present) [] ''Battery'' = Some ''/sys/class/power_supply/BAT0''"
  by (simp_all add: find_power_supply_sysfs_path_def ex_simps FileGetString_def g_strstrip_def
      c_string_def ascii_space_def)

definition ex_open :: charger where
  "ex_open = charger_start ex_masks \<lparr>ch_dev := 7, charger_status_callback := 5, state_change_callback := 6,
     curr_battery_state := Some True, battery_status := Some ''Charging'',
     ch_batt_present_path := ''/sys/class/power_supply/BAT0/present'',
     ch_batt_status_path := ''/sys/class/power_supply/BAT0/status'',
     charger_ac_sysfs_online_path := ''/sys/class/power_supply/AC/online''\<rparr>"

lemma ex_read:
  "curr_battery_state (charger_battery_read_status (ex_supply on ''Full'' present) ex_open) = Some present"
  "battery_status (charger_battery_read_status (ex_supply on ''Full'' present) ex_open) = Some ''Full''"
  by (simp_all add: charger_battery_read_status_def ex_open_def ex_supply_def FileGetString_def g_strstrip_def
      c_string_def ascii_space_def g_strlcpy_def STATUS_LEN_def)

lemma ex_supplied: "supplied (ex_supply on stat present) ex_open \<longleftrightarrow> on"
  by (simp add: supplied_def online_def ex_open_def ex_supply_def charger_start_def)

lemma ex_handle:
  "handle_power_supply_event ex_masks True True (ex_supply True ''Full'' present) ex_open =
    Some (True, [(5, 7, 0), (6, 7, 0)],
      (charger_battery_read_status (ex_supply True ''Full'' present) ex_open)\<lparr>
        gChargerStatus := status_now ex_masks (ex_supply True ''Full'' present) ex_open, current_event := 5\<rparr>)"
  using handle_event_eq [of ex_open True _ "ex_supply True ''Full'' present" present ex_masks]
  by (simp add: ex_read ex_supplied Let_def)
    (simp add: ex_open_def charger_start_def event_after_def charge_changed_def
      has_charger_connected_state_changed_def charger_state_changed_eq flip_event_def ex_masks_def)

text \<open>The module can be opened on the example.\<close>

lemma ex_opens:
  "\<exists>s. charger_module_open (charger_init ex_masks ex_io fs) 7 0 (charger_start ex_masks) = Some (NYX_ERROR_NONE, 7, s)"
proof -
  obtain s where "charger_init ex_masks ex_io fs (charger_start ex_masks \<lparr>ch_dev := 7\<rparr>) = Some (NYX_ERROR_NONE, s)"
    using charger_init_defined [of ex_io ex_masks fs "charger_start ex_masks \<lparr>ch_dev := 7\<rparr>"] by (auto simp: ex_io_def)
  then show ?thesis by (simp add: charger_module_open_def charger_start_def)
qed

section \<open>The properties\<close>

text \<open>
  C24: Whatever clients call and whatever udev reports, in any order and with any contents of the
  files, the event word of the charger never says both connected and disconnected, both complete
  and restarted, or both present and absent.
\<close>

theorem charger_events_consistent:
  assumes "masks_ok M" and "charger_reach M s"
  shows "events_ok M (current_event s)"
  using assms(2)
proof (induction rule: charger_reach.induct)
  case start
  with no_event_ok [OF assms(1)] show ?case by (simp add: charger_start_def)
next
  case (call s io fs c a s')
  from lib_call_current_event [OF call.hyps(2)] show ?case
    using call.IH init_events_ok [OF assms(1)] by metis
next
  case (udev s input received fs t calls s')
  from udev.hyps(2) show ?case
    by (cases rule: handle_current_event) (use udev.IH event_after_ok [OF assms(1)] in auto)
qed

theorem charger_events_consistent_witness:
  "\<exists>s. charger_reach ex_masks s \<and> ch_dev s = 7 \<and> events_ok ex_masks (current_event s)"
proof -
  obtain s where o: "charger_module_open (charger_init ex_masks ex_io (ex_supply True ''Full'' True)) 7 0
      (charger_start ex_masks) = Some (NYX_ERROR_NONE, 7, s)"
    using ex_opens by blast
  then have "lib_call (charger_init ex_masks ex_io (ex_supply True ''Full'' True))
      (charger_read_status ex_masks (ex_supply True ''Full'' True)) (device_query_event ex_masks)
      (Open 7 0) (charger_start ex_masks) = Some (Answer_Device NYX_ERROR_NONE 7, s)"
    by simp
  then have r: "charger_reach ex_masks s" by (rule charger_reach.call [OF charger_reach.start])
  from charger_events_consistent [OF ex_masks_ok r] r charger_open_tracks(3) [OF ex_masks_ok o]
  show ?thesis by blast
qed

text \<open>
  C25: After a successful open and any number of udev events, an event query of the device answers
  with the connected bit exactly when some supply was on line at the last event, and with the
  disconnected bit exactly when none was but one had been before: no change of the supplies is lost
  as long as clients do not query the status.
\<close>

theorem charger_connected_tracks:
  assumes "masks_ok M"
    and "charger_module_open (charger_init M io fs0) mem d0 (charger_start M) = Some (NYX_ERROR_NONE, d, s0)"
  shows "\<exists>s e. udev_run M fss s0 = Some s \<and>
    charger_query_charger_event (device_query_event M) e0 mem s = (NYX_ERROR_NONE, e, s) \<and>
    (has e (NYX_CHARGER_CONNECTED M) \<longleftrightarrow> supplied (last (fs0 # fss)) s0) \<and>
    (has e (NYX_CHARGER_DISCONNECTED M) \<longleftrightarrow>
       \<not> supplied (last (fs0 # fss)) s0 \<and> (\<exists>fs \<in> set (fs0 # fss). supplied fs s0))"
proof -
  note o = charger_open_tracks [OF assms]
  obtain s where "udev_run M fss s0 = Some s" and t: "tracks M (supplied fs0 s0 \<or> (\<exists>fs \<in> set fss. supplied fs s0)) s"
    and c: "cs_is_charging (gChargerStatus s) \<longleftrightarrow> supplied (last (fs0 # fss)) s0" and "ch_dev s = mem"
    using udev_run_tracks [OF assms(1) o(1), of fss] o(2,3) by (auto split: if_splits)
  then show ?thesis
    by (auto simp: charger_query_charger_event_def device_query_event_def tracks_def)
qed

theorem charger_connected_tracks_witness:
  "\<exists>s0 s e. udev_run ex_masks [ex_supply False ''Charging'' True] s0 = Some s \<and>
    charger_query_charger_event (device_query_event ex_masks) 0 7 s = (NYX_ERROR_NONE, e, s)"
proof -
  obtain s0 where "charger_module_open (charger_init ex_masks ex_io (ex_supply True ''Full'' True)) 7 0
      (charger_start ex_masks) = Some (NYX_ERROR_NONE, 7, s0)"
    using ex_opens by blast
  from charger_connected_tracks [OF ex_masks_ok this, of "[ex_supply False ''Charging'' True]" 0]
  show ?thesis by blast
qed

text \<open>
  A udev event calls the status callback exactly when the supplies have come on line or gone,
  and the state change callback exactly when that, the charge state or the presence of the battery
  changed; a callback that is not registered is skipped, and the status callback comes first.
\<close>

theorem charger_callbacks:
  assumes "handle_power_supply_event M True True fs s = Some (t, calls, s')"
  shows "calls =
    (if cs_is_charging (gChargerStatus s') \<noteq> cs_is_charging (gChargerStatus s) \<and> charger_status_callback s \<noteq> NULL
     then [(charger_status_callback s, ch_dev s, charger_status_callback_context s)] else []) @
    (if (cs_is_charging (gChargerStatus s') \<noteq> cs_is_charging (gChargerStatus s)
         \<or> charge_changed (battery_status s) (battery_status s')
         \<or> curr_battery_state s' \<noteq> curr_battery_state s) \<and> state_change_callback s \<noteq> NULL
     then [(state_change_callback s, ch_dev s, state_change_callback_context s)] else [])"
proof -
  obtain p where p: "curr_battery_state s = Some p"
    using assms by (cases "curr_battery_state s") (auto simp: handle_undefined)
  then obtain p' where p': "curr_battery_state (charger_battery_read_status fs s) = Some p'"
    by (rule handle_defined)
  show ?thesis using assms p' by (auto simp: handle_event_eq [OF p refl p'] p Let_def)
qed

theorem charger_callbacks_witness:
  "\<exists>s'. handle_power_supply_event ex_masks True True (ex_supply True ''Full'' False) ex_open
      = Some (True, [(5, 7, 0), (6, 7, 0)], s') \<and> cs_is_charging (gChargerStatus s')"
proof -
  have "cs_is_charging (status_now ex_masks (ex_supply True ''Full'' False) ex_open)"
    by (simp add: ex_supplied)
  with charger_callbacks [OF ex_handle [of False]] ex_handle [of False] show ?thesis by simp
qed

text \<open>
  C27: When a udev event finds that charging has completed or restarted and that the battery has
  come or gone as well, the second change is never recorded: after that event and after any number
  of further ones that find the same, the present and absent bits are those from before, although
  the presence itself is up to date.
\<close>

theorem charger_battery_change_lost:
  assumes M: "masks_ok M" and p: "curr_battery_state s = Some p"
    and b: "curr_battery_state (charger_battery_read_status fs s) = Some (\<not> p)"
    and c: "charge_changed (battery_status s) (battery_status (charger_battery_read_status fs s))"
    and r: "udev_run M (replicate (Suc n) fs) s = Some s'"
  shows "curr_battery_state s' = Some (\<not> p) \<and>
    (has (current_event s') (NYX_BATTERY_PRESENT M) \<longleftrightarrow> has (current_event s) (NYX_BATTERY_PRESENT M)) \<and>
    (has (current_event s') (NYX_BATTERY_ABSENT M) \<longleftrightarrow> has (current_event s) (NYX_BATTERY_ABSENT M))"
proof -
  note h = handle_event_eq [OF p refl b, of M]
  show ?thesis
    using udev_run_steady [OF M _ _ r [simplified replicate_Suc udev_run.simps, unfolded h,
        simplified Let_def bind.simps prod.case]] b c
    by (simp add: battery_read_idem event_after_bits [OF M])
qed

theorem charger_battery_change_lost_witness:
  "\<exists>s'. udev_run ex_masks [ex_supply True ''Full'' False] ex_open = Some s' \<and>
    curr_battery_state s' = Some False \<and> \<not> has (current_event s') (NYX_BATTERY_ABSENT ex_masks)"
proof -
  have c: "charge_changed (battery_status ex_open)
      (battery_status (charger_battery_read_status (ex_supply True ''Full'' False) ex_open))"
    unfolding ex_read by (simp add: charge_changed_def ex_open_def)
  obtain s' where r: "udev_run ex_masks [ex_supply True ''Full'' False] ex_open = Some s'"
    using ex_handle [of False] by simp
  have e: "\<not> has (current_event ex_open) (NYX_BATTERY_ABSENT ex_masks)"
    by (simp add: ex_open_def charger_start_def ex_masks_def has_def)
  have p: "curr_battery_state ex_open = Some True" by (simp add: ex_open_def)
  show ?thesis
    using charger_battery_change_lost [OF ex_masks_ok p _ c, of 0] r ex_read(1) [of True False] e by simp
qed

text \<open>
  A status query between a change of the supplies and its udev event swallows the event. The
  query itself answers with the new state; the event then leaves the connected and disconnected
  bits as they were and calls nothing for the change, where without the query it would have set the
  bits and called the status callback.
\<close>

theorem charger_query_swallows_change:
  assumes M: "masks_ok M"
    and change: "supplied fs s \<noteq> cs_is_charging (gChargerStatus s)"
    and cb: "charger_status_callback s \<noteq> NULL"
    and q: "charger_query_charger_status (charger_read_status M fs) (Some st0) (ch_dev s) s = (r, st, s1)"
    and h1: "handle_power_supply_event M True True fs s1 = Some (t1, calls1, s2)"
    and h: "handle_power_supply_event M True True fs s = Some (t, calls, s')"
  shows "r = NYX_ERROR_NONE \<and> (\<exists>st'. st = Some st' \<and> (cs_is_charging st' \<longleftrightarrow> supplied fs s)) \<and>
    (has (current_event s2) (NYX_CHARGER_CONNECTED M) \<longleftrightarrow> has (current_event s) (NYX_CHARGER_CONNECTED M)) \<and>
    (has (current_event s2) (NYX_CHARGER_DISCONNECTED M) \<longleftrightarrow> has (current_event s) (NYX_CHARGER_DISCONNECTED M)) \<and>
    length calls1 < length calls \<and>
    (has (current_event s') (NYX_CHARGER_CONNECTED M) \<longleftrightarrow> supplied fs s) \<and>
    (has (current_event s') (NYX_CHARGER_DISCONNECTED M) \<longleftrightarrow> \<not> supplied fs s) \<and>
    hd calls = (charger_status_callback s, ch_dev s, charger_status_callback_context s)"
proof -
  obtain p where p: "curr_battery_state s = Some p"
    using h by (cases "curr_battery_state s") (auto simp: handle_undefined)
  then obtain p' where p': "curr_battery_state (charger_battery_read_status fs s) = Some p'"
    by (rule handle_defined)
  have s1: "s1 = s\<lparr>gChargerStatus := status_now M fs s\<rparr>" "r = NYX_ERROR_NONE" "st = Some (status_now M fs s)"
    using q by (simp_all add: charger_query_charger_status_def read_status_eq)
  have sup: "supplied fs s1 = supplied fs s" by (simp add: s1 supplied_def)
  note e = handle_event_eq [OF p refl p', of M]
  have p1: "curr_battery_state s1 = Some p" "curr_battery_state (charger_battery_read_status fs s1) = Some p'"
    using p p' by (simp_all add: s1)
  note e1 = handle_event_eq [OF p1(1) refl p1(2), of M, unfolded sup]
  have "s2 = snd (snd (the (handle_power_supply_event M True True fs s1)))"
    "calls1 = fst (snd (the (handle_power_supply_event M True True fs s1)))"
    "s' = snd (snd (the (handle_power_supply_event M True True fs s)))"
    "calls = fst (snd (the (handle_power_supply_event M True True fs s)))"
    using h h1 by simp_all
  then show ?thesis using change cb
    by (simp add: e e1 Let_def) (simp add: s1 event_after_bits [OF M])
qed

theorem charger_query_swallows_change_witness:
  "\<exists>st s1 calls1 s2 calls s'.
    charger_query_charger_status (charger_read_status ex_masks (ex_supply True ''Full'' True)) (Some zero_charger_status) 7 ex_open
      = (NYX_ERROR_NONE, st, s1) \<and>
    handle_power_supply_event ex_masks True True (ex_supply True ''Full'' True) s1 = Some (True, calls1, s2) \<and>
    handle_power_supply_event ex_masks True True (ex_supply True ''Full'' True) ex_open = Some (True, calls, s') \<and>
    \<not> has (current_event s2) (NYX_CHARGER_CONNECTED ex_masks) \<and>
    has (current_event s') (NYX_CHARGER_CONNECTED ex_masks)"
proof -
  let ?fs = "ex_supply True ''Full'' True"
  let ?s1 = "ex_open\<lparr>gChargerStatus := status_now ex_masks ?fs ex_open\<rparr>"
  have dev: "ch_dev ex_open = 7" "charger_status_callback ex_open \<noteq> NULL"
    "\<not> has (current_event ex_open) (NYX_CHARGER_CONNECTED ex_masks)" "\<not> cs_is_charging (gChargerStatus ex_open)"
    by (simp_all add: ex_open_def charger_start_def has_def ex_masks_def)
  have q: "charger_query_charger_status (charger_read_status ex_masks ?fs) (Some zero_charger_status) (ch_dev ex_open) ex_open
      = (NYX_ERROR_NONE, Some (status_now ex_masks ?fs ex_open), ?s1)"
    by (simp add: charger_query_charger_status_def read_status_eq)
  have b: "curr_battery_state ?s1 = Some True" "curr_battery_state (charger_battery_read_status ?fs ?s1) = Some True"
    using ex_read(1) [of True True] by (simp_all add: ex_open_def)
  obtain calls1 s2 where h1: "handle_power_supply_event ex_masks True True ?fs ?s1 = Some (True, calls1, s2)"
    using handle_event_eq [OF b(1) refl b(2), of ex_masks] by (simp add: Let_def)
  from charger_query_swallows_change [OF ex_masks_ok _ dev(2) q h1 ex_handle] q h1 ex_handle [of True] dev
  show ?thesis by (auto simp: ex_supplied)
qed

text \<open>
  C28: The one-file charger module of the emulator and the charger library linked with the emulator's
  backend are the same module: any sequence of calls, with any handles and arguments, gets the same
  answers from both and leaves the same state.
\<close>

theorem charger_emulator_equivalence:
  "lib_calls (lib_call fake_charger_init fake_read_status (fake_query_event M)) cs s = Some (emu_calls M cs s)"
  by (rule lib_calls_emulator)

end
