(* ===== verification/Charger_Clients.thy ===== *)
theory Charger_Clients
  imports Charger_Properties Watchers
begin

text \<open>A client of the charger that asks for the status and is called back, in any order.\<close>

section \<open>The client\<close>

text \<open>It knows whether the charger charges.\<close>

definition charger_ask :: "charger_masks \<Rightarrow> file_system \<Rightarrow> charger \<Rightarrow> (bool \<times> charger) option" where
  "charger_ask M fs s =
     (let (r, st, s') = charger_query_charger_status (charger_read_status M fs) (Some zero_charger_status) (ch_dev s) s in
      map_option (\<lambda>st'. (cs_is_charging st', s')) st)"

definition charger_told :: "charger_masks \<Rightarrow> file_system \<Rightarrow> charger \<Rightarrow> (bool \<times> charger) option" where
  "charger_told M fs s = do {
     (_, calls, s') \<leftarrow> handle_power_supply_event M True True fs s;
     Some (charger_status_callback s \<in> fst ` set calls, s') }"

definition charger_watched :: "charger \<Rightarrow> bool" where
  "charger_watched s \<longleftrightarrow> curr_battery_state s \<noteq> None \<and> charger_status_callback s \<noteq> NULL \<and>
     state_change_callback s \<noteq> charger_status_callback s"

section \<open>The interface\<close>

lemma charger_ask_eq: "charger_ask M fs s = Some (supplied fs s, s\<lparr>gChargerStatus := status_now M fs s\<rparr>)"
  by (simp add: charger_ask_def charger_query_charger_status_def read_status_eq)

lemma supplied_update [simp]:
  "supplied fs (s\<lparr>gChargerStatus := x\<rparr>) = supplied fs s" "supplied fs (s\<lparr>current_event := e\<rparr>) = supplied fs s"
  "supplied fs (charger_battery_read_status gs s) = supplied fs s"
  by (simp_all add: supplied_def)

lemma charger_told_eq:
  assumes "charger_watched s"
  obtains p where "charger_told M fs s = Some (supplied fs s \<noteq> cs_is_charging (gChargerStatus s), p)"
    and "cs_is_charging (gChargerStatus p) = supplied fs s" and "charger_watched p" and "\<And>g. supplied g p = supplied g s"
    and "masks_ok M \<Longrightarrow> has (current_event p) (NYX_CHARGER_CONNECTED M) \<longleftrightarrow>
      (if supplied fs s \<noteq> cs_is_charging (gChargerStatus s) then supplied fs s else has (current_event s) (NYX_CHARGER_CONNECTED M))"
proof -
  from assms obtain b where b: "curr_battery_state s = Some b" by (auto simp: charger_watched_def)
  then obtain b' where b': "curr_battery_state (charger_battery_read_status fs s) = Some b'" by (rule handle_defined)
  note h = handle_event_eq [OF b refl b', of M]
  show ?thesis
    by (rule that [of "snd (snd (the (handle_power_supply_event M True True fs s)))"])
      (use assms b' in \<open>auto simp: h charger_told_def Let_def charger_watched_def event_after_bits\<close>)
qed

interpretation charger_notifier: asked_notifier charger_watched "\<lambda>_ _. True" supplied "\<lambda>s. cs_is_charging (gChargerStatus s)"
  "charger_ask M" "charger_told M" for M
proof (unfold_locales, goal_cases)
  case (1 s fs)
  show ?case by (rule charger_told_eq [OF 1(1), of M fs]) auto
qed (auto simp: charger_ask_eq charger_watched_def)

lemma connected_bit:
  assumes M: "masks_ok M" and "charger_watched s"
    and "watch_client (charger_ask M) (charger_told M) ws (cs_is_charging (gChargerStatus s)) s = Some (told, k, s')"
  shows "has (current_event s') (NYX_CHARGER_CONNECTED M) \<longleftrightarrow>
    (case last_told (\<lambda>fs. supplied fs s) ws (cs_is_charging (gChargerStatus s)) of
       None \<Rightarrow> has (current_event s) (NYX_CHARGER_CONNECTED M) | Some v \<Rightarrow> v)"
  using assms(2,3)
proof (induction ws arbitrary: s told)
  case (Cons w ws)
  show ?case
  proof (cases w)
    case (Ask fs)
    let ?s = "s\<lparr>gChargerStatus := status_now M fs s\<rparr>"
    have "charger_watched ?s" using Cons.prems(1) by (simp add: charger_watched_def)
    from Cons.IH [OF this] Cons.prems(2) Ask show ?thesis
      by (simp add: charger_ask_eq split: option.splits)
  next
    case (Change fs)
    obtain p where p: "charger_told M fs s = Some (supplied fs s \<noteq> cs_is_charging (gChargerStatus s), p)"
      "cs_is_charging (gChargerStatus p) = supplied fs s" "charger_watched p" "\<And>g. supplied g p = supplied g s"
      "has (current_event p) (NYX_CHARGER_CONNECTED M) \<longleftrightarrow>
        (if supplied fs s \<noteq> cs_is_charging (gChargerStatus s) then supplied fs s else has (current_event s) (NYX_CHARGER_CONNECTED M))"
      by (rule charger_told_eq [OF Cons.prems(1), of M fs]) (use M in blast)
    let ?p = "p\<lparr>gChargerStatus := status_now M fs p\<rparr>"
    have w: "charger_watched ?p" using p(3) by (simp add: charger_watched_def)
    show ?thesis
    proof (cases "supplied fs s = cs_is_charging (gChargerStatus s)")
      case True
      with Cons.IH [OF p(3)] Cons.prems(2) Change p show ?thesis
        by (auto simp: Let_def split: option.split elim!: bind_eq_SomeE)
    next
      case False
      with Cons.IH [OF w] Cons.prems(2) Change p show ?thesis
        by (auto simp: Let_def charger_ask_eq split: option.split elim!: bind_eq_SomeE)
    qed
  qed
qed simp

section \<open>The property\<close>

text \<open>
  C26: A client that asks for the status whenever it likes, and whenever its status callback is
  called, while udev reports changes in between: what it knows is at any time what the supplies
  were when the module last read them. It is told of exactly those changes that differ from the
  last look, its own included. So a query may swallow an event, of which the client knows already; but the
  connected bit of the event word is only that of the last change that was told, and stays behind.
\<close>

theorem charger_client_informed:
  assumes M: "masks_ok M" and s: "curr_battery_state s \<noteq> None" "charger_status_callback s \<noteq> NULL"
    "state_change_callback s \<noteq> charger_status_callback s"
  shows "\<exists>told k s'. watch_client (charger_ask M) (charger_told M) ws (cs_is_charging (gChargerStatus s)) s = Some (told, k, s') \<and>
    (told, k) = watch_spec (\<lambda>fs. supplied fs s) ws (cs_is_charging (gChargerStatus s)) \<and>
    k = (if ws = [] then cs_is_charging (gChargerStatus s) else supplied (watched (last ws)) s) \<and>
    k = cs_is_charging (gChargerStatus s') \<and>
    (has (current_event s') (NYX_CHARGER_CONNECTED M) \<longleftrightarrow>
      (case last_told (\<lambda>fs. supplied fs s) ws (cs_is_charging (gChargerStatus s)) of
         None \<Rightarrow> has (current_event s) (NYX_CHARGER_CONNECTED M) | Some v \<Rightarrow> v))"
proof -
  have w: "charger_watched s" using s by (simp add: charger_watched_def)
  from charger_notifier.any_client_follows [OF w, of ws M] obtain told k s' where
    r: "watch_client (charger_ask M) (charger_told M) ws (cs_is_charging (gChargerStatus s)) s = Some (told, k, s')"
      "(told, k) = watch_spec (\<lambda>fs. supplied fs s) ws (cs_is_charging (gChargerStatus s))" "k = cs_is_charging (gChargerStatus s')"
    by auto
  moreover have "k = (if ws = [] then cs_is_charging (gChargerStatus s) else supplied (watched (last ws)) s)"
    using watch_spec_last [of "\<lambda>fs. supplied fs s" ws "cs_is_charging (gChargerStatus s)"] r(2) by (metis snd_conv)
  ultimately show ?thesis using connected_bit [OF M w r(1)] by blast
qed

text \<open>The client asks before udev reports that the adapter is on line.\<close>

theorem charger_client_informed_witness:
  "\<exists>s'. watch_client (charger_ask ex_masks) (charger_told ex_masks)
      [Ask (ex_supply True ''Full'' True), Change (ex_supply True ''Full'' True)] False ex_open = Some ([False], True, s') \<and>
    \<not> has (current_event s') (NYX_CHARGER_CONNECTED ex_masks)"
proof -
  have "curr_battery_state ex_open \<noteq> None" "charger_status_callback ex_open \<noteq> NULL"
    "state_change_callback ex_open \<noteq> charger_status_callback ex_open" "\<not> cs_is_charging (gChargerStatus ex_open)"
    "\<not> has (current_event ex_open) (NYX_CHARGER_CONNECTED ex_masks)"
    by (simp_all add: ex_open_def charger_start_def has_def ex_masks_def)
  with charger_client_informed [OF ex_masks_ok this(1-3), of "[Ask (ex_supply True ''Full'' True), Change (ex_supply True ''Full'' True)]"]
  show ?thesis by (auto simp: ex_supplied)
qed

end
