(* ===== verification/C_Numbers.thy ===== *)
theory C_Numbers
  imports Power_Utils
begin

text \<open>Printing an int with \<open>%d\<close> and reading one with \<open>atoi\<close>, and their round trip.\<close>

section \<open>Printing\<close>

definition digit_char :: "nat \<Rightarrow> char" where
  "digit_char d = char_of (48 + d)"

fun dec_digits :: "nat \<Rightarrow> string" where
  "dec_digits n = (if n < 10 then [digit_char n] else dec_digits (n div 10) @ [digit_char (n mod 10)])"

declare dec_digits.simps [simp del]

definition print_int :: "int \<Rightarrow> string" where
  "print_int i = (if i < 0 then CHR 0x2D # dec_digits (nat (- i)) else dec_digits (nat i))"

section \<open>Reading\<close>

text \<open>\<open>None\<close> when the number does not fit an int, which is undefined.\<close>

definition atoi :: "string \<Rightarrow> int option" where
  "atoi s0 =
     (let s = dropWhile (\<lambda>c. ascii_space c \<or> c = CHR 0x0B) (c_string s0);
          (neg, s1) = skip_sign s;
          v = digits_val (takeWhile is_digit s1) in
      i32 (if neg then - v else v))"

section \<open>The round trip\<close>

lemma digit_char_cases: "d < 10 \<Longrightarrow> d \<in> {0, 1, 2, 3, 4, 5, 6, 7, 8, 9 :: nat}"
  by auto

lemma digit_char_code: "d < 10 \<Longrightarrow> (of_char (digit_char d) :: int) = 48 + int d"
proof -
  assume d: "d < 10"
  have "(of_char (digit_char d) :: int) = int (of_char (digit_char d))" by (simp only: of_nat_of_char)
  also have "(of_char (digit_char d) :: nat) = 48 + d" using d by (simp add: digit_char_def)
  finally show ?thesis by simp
qed

lemma digit_char_val [simp]: "d < 10 \<Longrightarrow> digit_val (digit_char d) = Some (int d)"
  by (simp add: digit_val_def digit_char_code) (simp add: less_eq_char_def digit_char_def)

lemma is_digit_char [simp]: "d < 10 \<Longrightarrow> is_digit (digit_char d)"
  by (simp add: is_digit_def)

lemma dec_digits_all: "\<forall>c \<in> set (dec_digits n). is_digit c"
proof (induction n rule: dec_digits.induct)
  case (1 n)
  then show ?case by (subst dec_digits.simps) auto
qed

lemma dec_digits_nonempty: "dec_digits n \<noteq> []"
  by (subst dec_digits.simps) simp

lemma digits_val_snoc: "digits_val (ds @ [c]) = digits_val ds * 10 + the (digit_val c)"
  by (simp add: digits_val_def)

lemma dec_digits_val: "digits_val (dec_digits n) = int n"
proof (induction n rule: dec_digits.induct)
  case (1 n)
  show ?case
  proof (cases "n < 10")
    case True
    then show ?thesis by (subst dec_digits.simps) (simp add: digits_val_def)
  next
    case False
    have "int (n div 10) * 10 + int (n mod 10) = int n"
      using div_mult_mod_eq [of n 10] by linarith
    with False 1 show ?thesis by (subst dec_digits.simps) (simp add: digits_val_snoc)
  qed
qed

lemma is_digit_char_code: "is_digit c \<Longrightarrow> 48 \<le> (of_char c :: nat) \<and> (of_char c :: nat) \<le> 57"
  by (auto simp: is_digit_def digit_val_def less_eq_char_def split: if_splits)

lemma digit_not_special:
  assumes "is_digit c"
  shows "c \<noteq> CHR 0x00" "c \<noteq> CHR 0x2D" "c \<noteq> CHR 0x2B" "c \<noteq> CHR 0x0B" "\<not> ascii_space c"
  using is_digit_char_code [OF assms] by (auto simp: ascii_space_def)

lemma c_string_digits: "\<forall>c \<in> set ds. is_digit c \<Longrightarrow> c_string ds = ds"
  using digit_not_special(1) by (auto simp: c_string_def takeWhile_eq_all_conv)

lemma takeWhile_digits: "\<forall>c \<in> set ds. is_digit c \<Longrightarrow> takeWhile is_digit ds = ds"
  by (simp add: takeWhile_eq_all_conv)

lemma atoi_print_int: "in_i32 i \<Longrightarrow> atoi (print_int i) = Some i"
proof -
  assume i: "in_i32 i"
  obtain d ds where d: "dec_digits (nat \<bar>i\<bar>) = d # ds"
    using dec_digits_nonempty by (cases "dec_digits (nat \<bar>i\<bar>)") auto
  note all = dec_digits_all [of "nat \<bar>i\<bar>"]
  note v = dec_digits_val [of "nat \<bar>i\<bar>"]
  have dd: "is_digit d" using all by (simp add: d)
  have m: "c_string (CHR 0x2D # d # ds) = CHR 0x2D # d # ds"
    using c_string_digits [OF all] by (simp add: c_string_def d)
  show ?thesis
  proof (cases "i < 0")
    case True
    then have "print_int i = CHR 0x2D # d # ds" using d by (simp add: print_int_def)
    then have "atoi (print_int i) = i32 (- digits_val (d # ds))"
      using takeWhile_digits [OF all] m
      by (simp add: atoi_def skip_sign_def d ascii_space_def)
    then show ?thesis using True v i unfolding d by (simp add: i32_Some)
  next
    case False
    then have "print_int i = d # ds" using d by (simp add: print_int_def)
    then have "atoi (print_int i) = i32 (digits_val (d # ds))"
      using takeWhile_digits [OF all] c_string_digits [OF all] digit_not_special [OF dd]
      by (simp add: atoi_def skip_sign_def d)
    then show ?thesis using False v i unfolding d by (simp add: i32_Some)
  qed
qed

text \<open>What \<open>%d\<close> prints consists of digits and a minus sign.\<close>

lemma print_int_inj: "in_i32 i \<Longrightarrow> in_i32 j \<Longrightarrow> print_int i = print_int j \<Longrightarrow> i = j"
  using atoi_print_int by (metis option.inject)

end
