(* ===== verification/Security_Store.thy ===== *)
theory Security_Store
  imports C_Numbers
begin

text \<open>
  keystore.c: the two key tables of the security module, and their save to and load from a key
  file. Glib's key files and base64, and OpenSSL's encoding of RSA keys, are parameters.
\<close>

section \<open>What the code relies on\<close>

text \<open>
  \<open>'kf\<close> is a GKeyFile, \<open>'d\<close> the contents of a file and \<open>'r\<close> an RSA key of OpenSSL. \<open>kf_get\<close>, \<open>kf_keys\<close>: None is a NULL result;
  \<open>kf_load\<close> reads contents, None is a failure; \<open>d2i\<close>: None is a NULL result.
\<close>

record ('kf, 'd, 'r) store_lib =
  kf_new :: 'kf
  kf_set :: "'kf \<Rightarrow> string \<Rightarrow> string \<Rightarrow> string list \<Rightarrow> 'kf"
  kf_get :: "'kf \<Rightarrow> string \<Rightarrow> string \<Rightarrow> string list option"
  kf_keys :: "'kf \<Rightarrow> string \<Rightarrow> string list option"
  kf_to_data :: "'kf \<Rightarrow> 'd"
  kf_load :: "'d \<Rightarrow> 'kf option"
  base64_encode :: "u8 list \<Rightarrow> string"
  base64_decode :: "string \<Rightarrow> u8 list"
  i2d :: "'r \<Rightarrow> u8 list"
  d2i :: "u8 list \<Rightarrow> 'r option"
  EVP_MAX_KEY_LENGTH :: nat

section \<open>Tables of keys\<close>

text \<open>
  A GHashTable pointer: NULL, destroyed, or a table from ints (as pointers) to keys. Glib's
  functions on NULL or a destroyed table are not defined: \<open>None\<close>.
\<close>

datatype 'v table = Null_Table | Freed_Table | Table "int \<rightharpoonup> 'v"

text \<open>\<open>key\<close> is the whole array of EVP_MAX_KEY_LENGTH bytes.\<close>

record aes_key =
  aes_keylen :: int
  aes_bytes :: "u8 list"

record 'r rsa_key =
  rsa_keylen :: int
  rsa_rsa :: 'r

record 'r keystore =
  ks_aes :: "aes_key table"
  ks_rsa :: "'r rsa_key table"

definition keystore_init :: "bool \<Rightarrow> bool \<Rightarrow> 'r keystore \<Rightarrow> nyx_error \<times> 'r keystore" where
  "keystore_init aes_mem rsa_mem store =
     (if \<not> aes_mem then (NYX_ERROR_OUT_OF_MEMORY, store\<lparr>ks_aes := Null_Table\<rparr>)
      else if \<not> rsa_mem then (NYX_ERROR_OUT_OF_MEMORY, store\<lparr>ks_aes := Table Map.empty, ks_rsa := Null_Table\<rparr>)
      else (NYX_ERROR_NONE, store\<lparr>ks_aes := Table Map.empty, ks_rsa := Table Map.empty\<rparr>))"

text \<open>Destroying NULL only logs; destroying twice is not defined.\<close>

fun table_destroy :: "'v table \<Rightarrow> 'v table option" where
  "table_destroy Null_Table = Some Null_Table"
| "table_destroy Freed_Table = None"
| "table_destroy (Table t) = Some Freed_Table"

definition keystore_destroy :: "'r keystore \<Rightarrow> 'r keystore option" where
  "keystore_destroy store = do {
     a \<leftarrow> table_destroy (ks_aes store);
     r \<leftarrow> table_destroy (ks_rsa store);
     Some (store\<lparr>ks_aes := a, ks_rsa := r\<rparr>) }"

text \<open>The inner option is the key, None for NULL.\<close>

fun keystore_key_lookup :: "'v table \<Rightarrow> int \<Rightarrow> 'v option option" where
  "keystore_key_lookup (Table t) index = Some (t index)"
| "keystore_key_lookup _ index = None"

text \<open>The search for a free index. \<open>++i\<close> on the largest int is not defined.\<close>

function next_free :: "(int \<rightharpoonup> 'v) \<Rightarrow> int \<Rightarrow> int option" where
  "next_free t i =
     (if t i = None then Some i
      else if i < INT_MAX then next_free t (i + 1) else None)"
  by pat_completeness auto
termination by (relation "measure (\<lambda>(t, i). nat (INT_MAX - i))") auto

declare next_free.simps [simp del]

fun keystore_key_replace :: "'v table \<Rightarrow> 'v \<Rightarrow> int \<Rightarrow> ('v table \<times> int) option" where
  "keystore_key_replace (Table t) key index = do {
     i \<leftarrow> (if index = -1 then next_free t 0 else Some index);
     Some (Table (t(i \<mapsto> key)), i) }"
| "keystore_key_replace _ key index = None"

section \<open>Saving\<close>

definition keystore_save_aeskey ::
  "('kf, 'd, 'r) store_lib \<Rightarrow> int \<Rightarrow> aes_key \<Rightarrow> 'kf \<Rightarrow> 'kf option" where
  "keystore_save_aeskey L key_index k key_file =
     (let n = aes_keylen k sdiv 8 in
      if 0 \<le> n \<and> n \<le> int (length (aes_bytes k)) then
        Some (kf_set L key_file ''aes'' (print_int key_index)
               [print_int (aes_keylen k), base64_encode L (take (nat n) (aes_bytes k))])
      else None)"

definition keystore_save_rsakey ::
  "('kf, 'd, 'r) store_lib \<Rightarrow> int \<Rightarrow> 'r rsa_key \<Rightarrow> 'kf \<Rightarrow> 'kf option" where
  "keystore_save_rsakey L key_index k key_file =
     Some (kf_set L key_file ''rsa'' (print_int key_index)
            [print_int (rsa_keylen k), base64_encode L (i2d L (rsa_rsa k))])"

text \<open>
  g_hash_table_foreach: \<open>order\<close> is the order in which the table enumerates its indices.
\<close>

fun table_foreach :: "(int \<Rightarrow> 'v \<Rightarrow> 'a \<Rightarrow> 'a option) \<Rightarrow> (int \<rightharpoonup> 'v) \<Rightarrow> int list \<Rightarrow> 'a \<Rightarrow> 'a option" where
  "table_foreach f t [] a = Some a"
| "table_foreach f t (i # order) a =
     (case t i of None \<Rightarrow> table_foreach f t order a
      | Some v \<Rightarrow> Option.bind (f i v a) (table_foreach f t order))"

fun save_table :: "(int \<Rightarrow> 'v \<Rightarrow> 'a \<Rightarrow> 'a option) \<Rightarrow> 'v table \<Rightarrow> int list \<Rightarrow> 'a \<Rightarrow> 'a option" where
  "save_table f Null_Table order a = Some a"
| "save_table f Freed_Table order a = None"
| "save_table f (Table t) order a = table_foreach f t order a"

text \<open>The contents of the store's file before and after; None while there is no file.\<close>

definition keystore_save ::
  "('kf, 'd, 'r) store_lib \<Rightarrow> int list \<Rightarrow> int list \<Rightarrow> bool \<Rightarrow> bool \<Rightarrow> 'r keystore \<Rightarrow>
   'd option \<Rightarrow> 'd option option" where
  "keystore_save L aes_order rsa_order mkdir_ok write_ok store file = do {
     kf1 \<leftarrow> save_table (keystore_save_aeskey L) (ks_aes store) aes_order (kf_new L);
     kf2 \<leftarrow> save_table (keystore_save_rsakey L) (ks_rsa store) rsa_order kf1;
     Some (if mkdir_ok \<and> write_ok then Some (kf_to_data L kf2) else file) }"

section \<open>Loading\<close>

text \<open>
  \<open>mem\<close> is what malloc's block for the entry holds. A failed assertion and a copy past the array
  are \<open>None\<close>.
\<close>

definition keystore_load_aeskey ::
  "('kf, 'd, 'r) store_lib \<Rightarrow> (string \<Rightarrow> u8 list) \<Rightarrow> 'kf \<Rightarrow> string \<Rightarrow> 'r keystore \<Rightarrow> 'r keystore option" where
  "keystore_load_aeskey L mem keyfile key store =
     (case kf_get L keyfile ''aes'' key of
        Some [l0, l1] \<Rightarrow> do {
          key_index \<leftarrow> atoi key;
          keylen \<leftarrow> atoi l0;
          let keybits = base64_decode L l1;
          if keylen \<noteq> int (length keybits) * 8 then None
          else if EVP_MAX_KEY_LENGTH L < length keybits then None
          else do {
            (t, _) \<leftarrow> keystore_key_replace (ks_aes store)
               \<lparr>aes_keylen = keylen,
                aes_bytes = keybits @ drop (length keybits) (take (EVP_MAX_KEY_LENGTH L) (mem key))\<rparr> key_index;
            Some (store\<lparr>ks_aes := t\<rparr>) } }
      | _ \<Rightarrow> Some store)"

definition keystore_load_rsakey ::
  "('kf, 'd, 'r) store_lib \<Rightarrow> 'kf \<Rightarrow> string \<Rightarrow> 'r keystore \<Rightarrow> 'r keystore option" where
  "keystore_load_rsakey L keyfile key store =
     (case kf_get L keyfile ''rsa'' key of
        Some [l0, l1] \<Rightarrow> do {
          key_index \<leftarrow> atoi key;
          keylen \<leftarrow> atoi l0;
          let keybits = base64_decode L l1;
          (case d2i L keybits of
             None \<Rightarrow> Some store
           | Some r \<Rightarrow> do {
               (t, _) \<leftarrow> keystore_key_replace (ks_rsa store) \<lparr>rsa_keylen = keylen, rsa_rsa = r\<rparr> key_index;
               Some (store\<lparr>ks_rsa := t\<rparr>) }) }
      | _ \<Rightarrow> Some store)"

fun load_all :: "(string \<Rightarrow> 's \<Rightarrow> 's option) \<Rightarrow> string list \<Rightarrow> 's \<Rightarrow> 's option" where
  "load_all f [] s = Some s"
| "load_all f (k # ks) s = Option.bind (f k s) (load_all f ks)"

definition keystore_load ::
  "('kf, 'd, 'r) store_lib \<Rightarrow> (string \<Rightarrow> u8 list) \<Rightarrow> 'd option \<Rightarrow> 'r keystore \<Rightarrow>
   (nyx_error \<times> 'r keystore) option" where
  "keystore_load L mem file store =
     (case file of
        None \<Rightarrow> Some (NYX_ERROR_NONE, store)
      | Some data \<Rightarrow>
          (case kf_load L data of
             None \<Rightarrow> Some (NYX_ERROR_GENERIC, store)
           | Some keyfile \<Rightarrow> do {
               s1 \<leftarrow> (case kf_keys L keyfile ''aes'' of None \<Rightarrow> Some store
                      | Some ks \<Rightarrow> load_all (keystore_load_aeskey L mem keyfile) ks store);
               s2 \<leftarrow> (case kf_keys L keyfile ''rsa'' of None \<Rightarrow> Some s1
                      | Some ks \<Rightarrow> load_all (keystore_load_rsakey L keyfile) ks s1);
               Some (NYX_ERROR_NONE, s2) }))"

end
