(* ===== verification/Security_Tables.thy ===== *)
theory Security_Tables
  imports Security_Store
begin

text \<open>
  What the key tables promise, as an interface with lemmas about clients that create keys, its
  interpretation by the tables of keystore.c, and the invariant of a store.
\<close>

section \<open>The search for a free index\<close>

lemma next_free_Some:
  "next_free t i = Some r \<Longrightarrow>
    i \<le> r \<and> t r = None \<and> (\<forall>j. i \<le> j \<and> j < r \<longrightarrow> t j \<noteq> None) \<and> (i \<le> INT_MAX \<longrightarrow> r \<le> INT_MAX)"
proof (induction t i rule: next_free.induct)
  case (1 t i)
  show ?case
  proof (cases "t i = None")
    case True
    with "1.prems" have "i = r" by (simp add: next_free.simps)
    with True show ?thesis by auto
  next
    case False
    with "1.prems" have lt: "i < INT_MAX" and "next_free t (i + 1) = Some r"
      by (simp_all add: next_free.simps [of t i] split: if_splits)
    from "1.IH" [OF False this]
    have IH: "i + 1 \<le> r" "t r = None" "\<And>j. i + 1 \<le> j \<Longrightarrow> j < r \<Longrightarrow> t j \<noteq> None" "i + 1 \<le> INT_MAX \<longrightarrow> r \<le> INT_MAX"
      by auto
    have "t j \<noteq> None" if "i \<le> j" "j < r" for j
      using False IH(3) [of j] that by (cases "j = i") auto
    with IH lt show ?thesis by auto
  qed
qed

lemma next_free_defined: "i \<le> r \<Longrightarrow> r \<le> INT_MAX \<Longrightarrow> t r = None \<Longrightarrow> next_free t i \<noteq> None"
proof (induction t i rule: next_free.induct)
  case (1 t i)
  then show ?case
    by (cases "t i = None") (auto simp: next_free.simps [of t i] order.order_iff_strict [of i r])
qed

text \<open>The index found is at most the number of keys: the counting argument.\<close>

lemma next_free_bound:
  assumes "finite (dom t)" and "int (card (dom t)) \<le> INT_MAX"
  obtains r where "next_free t 0 = Some r" and "0 \<le> r" and "r \<le> int (card (dom t))" and "t r = None"
    and "\<And>j. 0 \<le> j \<Longrightarrow> j < r \<Longrightarrow> t j \<noteq> None"
proof -
  have "\<not> {0..int (card (dom t))} \<subseteq> dom t"
    using card_mono [OF assms(1), of "{0..int (card (dom t))}"] by auto
  then obtain q where q: "0 \<le> q" "q \<le> int (card (dom t))" "t q = None"
    by (auto simp: subset_iff domIff)
  then obtain r where r: "next_free t 0 = Some r"
    using next_free_defined [of 0 q t] assms(2) by fastforce
  note s = next_free_Some [OF r]
  then have "r \<le> q" using q by (meson not_le)
  with that [OF r] s q show ?thesis by auto
qed

section \<open>The interface of a key table\<close>

text \<open>
  \<open>looked_up\<close> and \<open>replaced\<close> are the operations the rest of the module uses; the index -1 asks
  for a free one.
\<close>

locale key_table =
  fixes valid :: "'t \<Rightarrow> bool"
    and look :: "'t \<Rightarrow> int \<Rightarrow> 'v option option"
    and replace :: "'t \<Rightarrow> 'v \<Rightarrow> int \<Rightarrow> ('t \<times> int) option"
  assumes look_defined: "valid t \<Longrightarrow> look t i \<noteq> None"
    and replace_valid: "valid t \<Longrightarrow> in_i32 i \<Longrightarrow> replace t k i = Some (t', r) \<Longrightarrow> valid t'"
    and replace_index: "valid t \<Longrightarrow> in_i32 i \<Longrightarrow> replace t k i = Some (t', r) \<Longrightarrow>
      (if i = -1 then 0 \<le> r \<and> look t r = Some None else r = i)"
    and look_replace: "valid t \<Longrightarrow> in_i32 i \<Longrightarrow> replace t k i = Some (t', r) \<Longrightarrow>
      look t' j = (if j = r then Some (Some k) else look t j)"
begin

text \<open>A client that stores keys at indices of the table's choice.\<close>

fun store_new :: "'t \<Rightarrow> 'v list \<Rightarrow> ('t \<times> int list) option" where
  "store_new t [] = Some (t, [])"
| "store_new t (k # ks) = do {
     (t1, r) \<leftarrow> replace t k (-1);
     (t2, rs) \<leftarrow> store_new t1 ks;
     Some (t2, r # rs) }"

lemma minus_one: "in_i32 (-1)"
  by (simp add: in_i32_def INT_MIN_def INT_MAX_def)

text \<open>Nothing that was there is touched, and the indices are new and different.\<close>

lemma store_new_spec:
  assumes "valid t" and "store_new t ks = Some (t', rs)"
  shows "valid t' \<and> length rs = length ks \<and> distinct rs \<and>
    (\<forall>r \<in> set rs. look t r = Some None) \<and>
    (\<forall>n < length ks. look t' (rs ! n) = Some (Some (ks ! n))) \<and>
    (\<forall>j. j \<notin> set rs \<longrightarrow> look t' j = look t j)"
  using assms
proof (induction ks arbitrary: t rs)
  case (Cons k ks)
  from Cons.prems obtain t1 r rs1 where r: "replace t k (-1) = Some (t1, r)"
    and n: "store_new t1 ks = Some (t', rs1)" and rs: "rs = r # rs1"
    by (auto elim!: bind_eq_SomeE)
  note one = replace_valid [OF Cons.prems(1) minus_one r] replace_index [OF Cons.prems(1) minus_one r]
    look_replace [OF Cons.prems(1) minus_one r]
  note IH = Cons.IH [OF one(1) n]
  have new: "r \<notin> set rs1" using IH one(3) [of r] by auto
  show ?case
  proof (intro conjI allI impI ballI)
    show "look t q = Some None" if "q \<in> set rs" for q
      using that IH one(2,3) new by (auto simp: rs split: if_splits)
    show "look t' (rs ! n) = Some (Some ((k # ks) ! n))" if "n < length (k # ks)" for n
      using that IH one(3) new by (cases n) (auto simp: rs)
    show "look t' j = look t j" if "j \<notin> set rs" for j
      using that IH one(3) [of j] by (auto simp: rs)
  qed (use IH new in \<open>auto simp: rs\<close>)
qed simp

end

section \<open>The tables of keystore.c\<close>

text \<open>A live table of finitely many ints; -1 is never an index.\<close>

fun table_ok :: "'v table \<Rightarrow> bool" where
  "table_ok (Table t) \<longleftrightarrow> finite (dom t) \<and> -1 \<notin> dom t \<and> (\<forall>i \<in> dom t. in_i32 i)"
| "table_ok _ \<longleftrightarrow> False"

lemma table_okE:
  assumes "table_ok T"
  obtains t where "T = Table t" and "finite (dom t)" and "t (-1) = None" and "\<forall>i \<in> dom t. in_i32 i"
  using assms by (cases T) auto

interpretation store: key_table table_ok keystore_key_lookup keystore_key_replace
proof (unfold_locales, goal_cases)
  case (1 T i)
  then show ?case by (auto elim!: table_okE)
next
  case (2 T i k T' r)
  then show ?case
    by (elim table_okE)
      (auto split: if_splits elim!: bind_eq_SomeE dest!: next_free_Some
        simp: in_i32_def INT_MIN_def INT_MAX_def)
next
  case (3 T i k T' r)
  then show ?case
    by (elim table_okE) (auto split: if_splits elim!: bind_eq_SomeE dest!: next_free_Some)
next
  case (4 T i k T' r j)
  then show ?case
    by (elim table_okE) (auto split: if_splits elim!: bind_eq_SomeE)
qed

text \<open>The contents of a table; of none, nothing.\<close>

fun table_map :: "'v table \<Rightarrow> int \<rightharpoonup> 'v" where
  "table_map (Table t) = t"
| "table_map _ = Map.empty"

text \<open>Replacing is defined as long as there are fewer than 2^31 keys.\<close>

lemma replace_defined:
  assumes "table_ok (Table t)" and "int (card (dom t)) \<le> INT_MAX"
  shows "keystore_key_replace (Table t) k i \<noteq> None"
proof -
  have "finite (dom t)" using assms(1) by simp
  then obtain r where "next_free t 0 = Some r" using next_free_bound assms(2) by blast
  then show ?thesis by simp
qed

end
