(* ===== verification/Security_Crypto.thy ===== *)
theory Security_Crypto
  imports Security_Tables
begin

text \<open>
  aes.c, rsa.c and sha.c: what the module does around OpenSSL. Keys come from the tables of
  keystore.c; the ciphers, RSA and the digests are parameters. A buffer is the list of the bytes
  that may be accessed through its pointer.
\<close>

section \<open>Buffers\<close>

text \<open>Writing at an offset; past the end it is not defined.\<close>

definition write_at :: "u8 list \<Rightarrow> nat \<Rightarrow> u8 list \<Rightarrow> u8 list option" where
  "write_at buf off bs =
     (if off + length bs \<le> length buf then Some (take off buf @ bs @ drop (off + length bs) buf) else None)"

section \<open>AES\<close>

text \<open>
  \<open>cipher_update c enc key iv src len\<close> and \<open>cipher_final\<close> are what EVP_CipherUpdate and
  EVP_CipherFinal_ex do for a context set up with the first arguments: the bytes that they write and
  the number of bytes that they report, which may be fewer (decryption writes the padded last block,
  but holds it back); None on failure.
\<close>

datatype cipher = EVP_aes_128_cbc | EVP_aes_256_cbc

record cipher_lib =
  cipher_update :: "cipher \<Rightarrow> bool \<Rightarrow> u8 list \<Rightarrow> u8 list \<Rightarrow> u8 list \<Rightarrow> int \<Rightarrow> (u8 list \<times> nat) option"
  cipher_final :: "cipher \<Rightarrow> bool \<Rightarrow> u8 list \<Rightarrow> u8 list \<Rightarrow> u8 list \<Rightarrow> int \<Rightarrow> (u8 list \<times> nat) option"
  NYX_SECURITY_AES_CBC :: int

record aes_algo_data =
  algo_keylen :: int
  algo_mode :: int
  algo_cipher :: cipher

definition aes_algos :: "cipher_lib \<Rightarrow> aes_algo_data list" where
  "aes_algos C =
     [\<lparr>algo_keylen = 128, algo_mode = NYX_SECURITY_AES_CBC C, algo_cipher = EVP_aes_128_cbc\<rparr>,
      \<lparr>algo_keylen = 256, algo_mode = NYX_SECURITY_AES_CBC C, algo_cipher = EVP_aes_256_cbc\<rparr>]"

definition aes_supported_keylength :: "cipher_lib \<Rightarrow> int \<Rightarrow> bool" where
  "aes_supported_keylength C keylen = list_ex (\<lambda>a. algo_keylen a = keylen) (aes_algos C)"

definition aes_algo_data_lookup :: "cipher_lib \<Rightarrow> int \<Rightarrow> int \<Rightarrow> aes_algo_data option" where
  "aes_algo_data_lookup C keylen mode =
     find (\<lambda>a. algo_keylen a = keylen \<and> algo_mode a = mode) (aes_algos C)"

text \<open>
  \<open>rand n\<close>: what RAND_bytes returns for n bytes, and the bytes then in the buffer. \<open>mem\<close> is the
  block of g_malloc, None for NULL: the array of the key before it is filled.
\<close>

definition aes_generate_key ::
  "cipher_lib \<Rightarrow> u8 list option \<Rightarrow> (nat \<Rightarrow> int \<times> u8 list) \<Rightarrow> int \<Rightarrow> int \<Rightarrow> 'r keystore \<Rightarrow>
   (nyx_error \<times> int \<times> 'r keystore) option" where
  "aes_generate_key C mem rand keylen index store =
     (if \<not> aes_supported_keylength C keylen then Some (NYX_ERROR_INVALID_VALUE, index, store)
      else (case mem of
        None \<Rightarrow> Some (NYX_ERROR_OUT_OF_MEMORY, index, store)
      | Some block \<Rightarrow>
          (let n = nat (keylen sdiv 8); (ret, bytes) = rand n in
           do {
             key \<leftarrow> write_at block 0 bytes;
             if ret = 0 then Some (NYX_ERROR_GENERIC, index, store)
             else do {
               (t, i) \<leftarrow> keystore_key_replace (ks_aes store) \<lparr>aes_keylen = keylen, aes_bytes = key\<rparr> index;
               Some (NYX_ERROR_NONE, i, store\<lparr>ks_aes := t\<rparr>) } })))"

definition AES_BLOCK_SIZE :: nat where
  "AES_BLOCK_SIZE = 16"

text \<open>The bytes a cipher reads of the key array; the length set in bits is refused by OpenSSL.\<close>

fun cipher_key :: "cipher \<Rightarrow> u8 list \<Rightarrow> u8 list" where
  "cipher_key EVP_aes_128_cbc key = take 16 key"
| "cipher_key EVP_aes_256_cbc key = take 32 key"

text \<open>
  The common end: \<open>src\<close> and \<open>srclen\<close> behind the IV, \<open>off\<close> where the output starts. The results are
  the error, the destination and \<open>*destlen\<close>.
\<close>

definition aes_run ::
  "cipher_lib \<Rightarrow> cipher \<Rightarrow> bool \<Rightarrow> u8 list \<Rightarrow> u8 list \<Rightarrow> u8 list \<Rightarrow> int \<Rightarrow> u8 list \<Rightarrow> nat \<Rightarrow> int \<Rightarrow>
   (nyx_error \<times> u8 list \<times> int) option" where
  "aes_run C c enc key iv src srclen dest off destlen =
     (if int (length src) < srclen then None
      else case cipher_update C c enc key iv (take (nat srclen) src) srclen of
        None \<Rightarrow> Some (NYX_ERROR_GENERIC, dest, destlen)
      | Some (out1, len1) \<Rightarrow> do {
          d1 \<leftarrow> write_at dest off out1;
          (case cipher_final C c enc key iv (take (nat srclen) src) srclen of
             None \<Rightarrow> Some (NYX_ERROR_GENERIC, d1, int len1)
           | Some (out2, tmplen) \<Rightarrow> do {
               d2 \<leftarrow> write_at d1 (off + len1) out2;
               Some (NYX_ERROR_NONE, d2, int len1 + int tmplen + int off) }) })"

definition aes_crypt ::
  "cipher_lib \<Rightarrow> (nat \<Rightarrow> int \<times> u8 list) \<Rightarrow> 'r keystore \<Rightarrow> int \<Rightarrow> bool \<Rightarrow> int \<Rightarrow> u8 list \<Rightarrow> int \<Rightarrow>
   u8 list \<Rightarrow> int \<Rightarrow> int \<Rightarrow> (nyx_error \<times> u8 list \<times> int \<times> int) option" where
  "aes_crypt C rand store index encrypt mode src srclen dest destlen ivlen = do {
     found \<leftarrow> keystore_key_lookup (ks_aes store) index;
     (case found of
        None \<Rightarrow> Some (NYX_ERROR_INVALID_VALUE, dest, destlen, ivlen)
      | Some k \<Rightarrow>
          (case aes_algo_data_lookup C (aes_keylen k) mode of
             None \<Rightarrow> Some (NYX_ERROR_INVALID_VALUE, dest, destlen, ivlen)
           | Some algo \<Rightarrow>
               (let c = algo_cipher algo; key = cipher_key c (aes_bytes k) in
                if encrypt then
                  (let (ret, iv) = rand AES_BLOCK_SIZE in
                   do {
                     d \<leftarrow> write_at dest 0 iv;
                     if ret = 0 then Some (NYX_ERROR_GENERIC, d, destlen, int AES_BLOCK_SIZE)
                     else do {
                       (r, d', n) \<leftarrow> aes_run C c True key iv src srclen d AES_BLOCK_SIZE destlen;
                       Some (r, d', n, int AES_BLOCK_SIZE) } })
                else if ivlen \<noteq> int AES_BLOCK_SIZE \<or> length src < AES_BLOCK_SIZE then None
                else do {
                  (r, d', n) \<leftarrow> aes_run C c False key (take AES_BLOCK_SIZE src) (drop AES_BLOCK_SIZE src)
                     (srclen - ivlen) dest 0 destlen;
                  Some (r, d', n, ivlen) }))) }"

section \<open>RSA\<close>

text \<open>\<open>rsa_public_encrypt\<close> draws its padding from a seed; None is the result -1.\<close>

record 'r rsa_lib =
  RSA_size :: "'r \<Rightarrow> int"
  rsa_public_encrypt :: "nat \<Rightarrow> 'r \<Rightarrow> u8 list \<Rightarrow> u8 list option"
  rsa_private_decrypt :: "'r \<Rightarrow> u8 list \<Rightarrow> u8 list option"

text \<open>
  \<open>gen\<close>: the result of RSA_generate_key_ex and the key object then, \<open>mem_ok\<close>: g_malloc.
\<close>

definition rsa_generate_key ::
  "bool \<Rightarrow> int \<times> 'r \<Rightarrow> int \<Rightarrow> int \<Rightarrow> 'r keystore \<Rightarrow> (nyx_error \<times> int \<times> 'r keystore) option" where
  "rsa_generate_key mem_ok gen keylen key_index store =
     (if keylen \<noteq> 2048 \<and> keylen \<noteq> 4096 then Some (NYX_ERROR_INVALID_VALUE, key_index, store)
      else if \<not> mem_ok then Some (NYX_ERROR_OUT_OF_MEMORY, key_index, store)
      else if fst gen = -1 then Some (NYX_ERROR_GENERIC, key_index, store)
      else do {
        (t, i) \<leftarrow> keystore_key_replace (ks_rsa store) \<lparr>rsa_keylen = keylen, rsa_rsa = snd gen\<rparr> key_index;
        Some (NYX_ERROR_NONE, i, store\<lparr>ks_rsa := t\<rparr>) })"

definition rsa_crypt ::
  "'r rsa_lib \<Rightarrow> nat \<Rightarrow> 'r keystore \<Rightarrow> int \<Rightarrow> bool \<Rightarrow> u8 list \<Rightarrow> int \<Rightarrow> u8 list \<Rightarrow> int \<Rightarrow>
   (nyx_error \<times> u8 list \<times> int) option" where
  "rsa_crypt R seed store key_index encrypt src srclen dest destlen = do {
     found \<leftarrow> keystore_key_lookup (ks_rsa store) key_index;
     (case found of
        None \<Rightarrow> Some (NYX_ERROR_INVALID_VALUE, dest, destlen)
      | Some k \<Rightarrow>
          if encrypt \<and> RSA_size R (rsa_rsa k) - 41 \<le> srclen then Some (NYX_ERROR_INVALID_VALUE, dest, destlen)
          else if srclen < 0 \<or> int (length src) < srclen then None
          else (case (if encrypt then rsa_public_encrypt R seed (rsa_rsa k) (take (nat srclen) src)
                      else rsa_private_decrypt R (rsa_rsa k) (take (nat srclen) src)) of
                  None \<Rightarrow> Some (NYX_ERROR_GENERIC, dest, -1)
                | Some out \<Rightarrow> do {
                    d \<leftarrow> write_at dest 0 out;
                    Some (NYX_ERROR_NONE, d, int (length out)) })) }"

section \<open>Digests\<close>

datatype md = EVP_sha256 | EVP_sha512

text \<open>\<open>'h\<close> is the state of a digest; the names are constants of OpenSSL.\<close>

record 'h md_lib =
  SN_sha256 :: string
  SN_sha512 :: string
  md_init :: "md \<Rightarrow> 'h"
  md_update :: "'h \<Rightarrow> u8 list \<Rightarrow> 'h"
  md_final :: "'h \<Rightarrow> u8 list"

definition sha_algo_data_lookup :: "'h md_lib \<Rightarrow> string \<Rightarrow> md option" where
  "sha_algo_data_lookup H name =
     map_option snd (find (\<lambda>(n, _). n = name) [(SN_sha256 H, EVP_sha256), (SN_sha512 H, EVP_sha512)])"

text \<open>
  The running context and the contexts that exist, each with its digest once it is set up.
\<close>

record 'h sha =
  running_mdctx :: ptr
  mdctxs :: "ptr \<rightharpoonup> 'h option"

definition sha_start :: "'h sha" where
  "sha_start = \<lparr>running_mdctx = NULL, mdctxs = Map.empty\<rparr>"

text \<open>Destroying a context that does not exist is not defined.\<close>

definition mdctx_destroy :: "ptr \<Rightarrow> 'h sha \<Rightarrow> 'h sha option" where
  "mdctx_destroy p s = (if mdctxs s p = None then None else Some (s\<lparr>mdctxs := (mdctxs s)(p := None)\<rparr>))"

text \<open>\<open>ctx\<close>: the result of EVP_MD_CTX_create, which is used unchecked; \<open>ret\<close>: of EVP_DigestInit_ex.\<close>

definition sha_init :: "'h md_lib \<Rightarrow> ptr \<Rightarrow> int \<Rightarrow> string \<Rightarrow> 'h sha \<Rightarrow> (nyx_error \<times> 'h sha) option" where
  "sha_init H ctx ret name s =
     (case sha_algo_data_lookup H name of
        None \<Rightarrow> Some (NYX_ERROR_INVALID_VALUE, s)
      | Some algo \<Rightarrow> do {
          s1 \<leftarrow> (if running_mdctx s \<noteq> NULL then mdctx_destroy (running_mdctx s) s else Some s);
          if ctx = NULL then None
          else if ret \<noteq> 1 then
            Some (NYX_ERROR_GENERIC, s1\<lparr>running_mdctx := ctx, mdctxs := (mdctxs s1)(ctx \<mapsto> None)\<rparr>)
          else Some (NYX_ERROR_NONE,
            s1\<lparr>running_mdctx := ctx, mdctxs := (mdctxs s1)(ctx \<mapsto> Some (md_init H algo))\<rparr>) })"

text \<open>A context that was never set up has no update function: calling it is not defined.\<close>

definition sha_update :: "'h md_lib \<Rightarrow> int \<Rightarrow> u8 list \<Rightarrow> 'h sha \<Rightarrow> (nyx_error \<times> 'h sha) option" where
  "sha_update H ret src s =
     (if running_mdctx s = NULL then Some (NYX_ERROR_INVALID_VALUE, s)
      else case mdctxs s (running_mdctx s) of
        Some (Some h) \<Rightarrow>
          (if ret \<noteq> 1 then Some (NYX_ERROR_GENERIC, s)
           else Some (NYX_ERROR_NONE,
             s\<lparr>mdctxs := (mdctxs s)(running_mdctx s \<mapsto> Some (md_update H h src))\<rparr>))
      | _ \<Rightarrow> None)"

definition sha_finalize ::
  "'h md_lib \<Rightarrow> int \<Rightarrow> u8 list \<Rightarrow> int \<Rightarrow> 'h sha \<Rightarrow> (nyx_error \<times> u8 list \<times> int \<times> 'h sha) option" where
  "sha_finalize H ret dest destlen s =
     (if running_mdctx s = NULL then Some (NYX_ERROR_INVALID_VALUE, dest, destlen, s)
      else case mdctxs s (running_mdctx s) of
        Some (Some h) \<Rightarrow>
          (if ret \<noteq> 1 then Some (NYX_ERROR_GENERIC, dest, destlen, s)
           else do {
             d \<leftarrow> write_at dest 0 (md_final H h);
             s1 \<leftarrow> mdctx_destroy (running_mdctx s) s;
             Some (NYX_ERROR_NONE, d, int (length (md_final H h)), s1\<lparr>running_mdctx := NULL\<rparr>) })
      | _ \<Rightarrow> None)"

end
