(* ===== verification/Security_Module.thy ===== *)
theory Security_Module
  imports Security_Crypto
begin

text \<open>
  security.c: opening and closing the module and its operations, and the dump of keystore.c.
  No operation looks at the device handle it is given.
\<close>

section \<open>State\<close>

record ('r, 'h) security =
  sec_store :: "'r keystore"
  sec_sha :: "'h sha"

definition security_start :: "('r, 'h) security" where
  "security_start = \<lparr>sec_store = \<lparr>ks_aes = Null_Table, ks_rsa = Null_Table\<rparr>, sec_sha = sha_start\<rparr>"

section \<open>Opening\<close>

fun register_methods :: "nyx_error list \<Rightarrow> nyx_error" where
  "register_methods [] = NYX_ERROR_NONE"
| "register_methods (r # rs) = (if r \<noteq> NYX_ERROR_NONE then r else register_methods rs)"

text \<open>
  \<open>d\<close>: None for a NULL pointer, else \<open>*d\<close>; \<open>dev\<close>: the result of calloc; \<open>regs\<close>: the results of
  registering the seven methods; \<open>aes_mem\<close>, \<open>rsa_mem\<close>: whether the tables could be created;
  \<open>file\<close>: the contents of the store's file; \<open>mem\<close>: blocks of malloc. On failure \<open>*d\<close> is freed but
  keeps its value.
\<close>

definition security_module_open ::
  "('kf, 'd, 'r) store_lib \<Rightarrow> ptr \<Rightarrow> nyx_error list \<Rightarrow> bool \<Rightarrow> bool \<Rightarrow> (string \<Rightarrow> u8 list) \<Rightarrow> 'd option \<Rightarrow>
   ptr option \<Rightarrow> ('r, 'h) security \<Rightarrow> (nyx_error \<times> ptr option \<times> ('r, 'h) security) option" where
  "security_module_open L dev regs aes_mem rsa_mem mem file d s =
     (if d = None \<or> d \<noteq> Some NULL then Some (NYX_ERROR_INVALID_VALUE, d, s)
      else if dev = NULL then Some (NYX_ERROR_OUT_OF_MEMORY, Some NULL, s)
      else if register_methods regs \<noteq> NYX_ERROR_NONE then Some (register_methods regs, Some dev, s)
      else do {
        let (r1, ks1) = keystore_init aes_mem rsa_mem (sec_store s);
        (r2, ks2) \<leftarrow> (if r1 = NYX_ERROR_NONE then keystore_load L mem file ks1 else Some (r1, ks1));
        ks3 \<leftarrow> (if r2 \<noteq> NYX_ERROR_NONE then keystore_destroy ks2 else Some ks2);
        Some (r2, Some dev, s\<lparr>sec_store := ks3\<rparr>) })"

section \<open>Closing\<close>

definition hex_digit :: "nat \<Rightarrow> char" where
  "hex_digit n = ''0123456789ABCDEF'' ! n"

text \<open>\<open>%02X\<close>.\<close>

definition print_hex :: "u8 \<Rightarrow> string" where
  "print_hex b = [hex_digit (unat b div 16), hex_digit (unat b mod 16)]"

text \<open>What the dump prints: of an RSA key the PEM form that OpenSSL writes.\<close>

definition aeskey_hexdump :: "int \<Rightarrow> aes_key \<Rightarrow> string \<Rightarrow> string option" where
  "aeskey_hexdump index k out =
     (let n = aes_keylen k sdiv 8 in
      if n \<le> int (length (aes_bytes k)) then
        Some (out @ ''AES: keylen: '' @ print_int (aes_keylen k) @ '', key: ''
              @ concat (map print_hex (take (nat n) (aes_bytes k))) @ [CHR 0x0A])
      else None)"

definition rsakey_hexdump :: "('r \<Rightarrow> string) \<Rightarrow> int \<Rightarrow> 'r rsa_key \<Rightarrow> string \<Rightarrow> string option" where
  "rsakey_hexdump pem index k out =
     Some (out @ ''RSA: keylen: '' @ print_int (rsa_keylen k) @ '', privkey:'' @ [CHR 0x0A]
           @ pem (rsa_rsa k) @ [CHR 0x0A])"

fun dump_table :: "(int \<Rightarrow> 'v \<Rightarrow> string \<Rightarrow> string option) \<Rightarrow> 'v table \<Rightarrow> int list \<Rightarrow> string \<Rightarrow> string option" where
  "dump_table f (Table t) order out = table_foreach f t order out"
| "dump_table f _ order out = None"

definition keystore_dump ::
  "('r \<Rightarrow> string) \<Rightarrow> int list \<Rightarrow> int list \<Rightarrow> 'r keystore \<Rightarrow> string option" where
  "keystore_dump pem aes_order rsa_order store = do {
     out \<leftarrow> dump_table aeskey_hexdump (ks_aes store) aes_order [];
     dump_table (rsakey_hexdump pem) (ks_rsa store) rsa_order out }"

text \<open>The results are the error, the standard output, the file and the state.\<close>

definition security_module_close ::
  "('kf, 'd, 'r) store_lib \<Rightarrow> ('r \<Rightarrow> string) \<Rightarrow> int list \<Rightarrow> int list \<Rightarrow> bool \<Rightarrow> bool \<Rightarrow> 'd option \<Rightarrow>
   ('r, 'h) security \<Rightarrow> (nyx_error \<times> string \<times> 'd option \<times> ('r, 'h) security) option" where
  "security_module_close L pem aes_order rsa_order mkdir_ok write_ok file s = do {
     out \<leftarrow> keystore_dump pem aes_order rsa_order (sec_store s);
     file' \<leftarrow> keystore_save L aes_order rsa_order mkdir_ok write_ok (sec_store s) file;
     ks \<leftarrow> keystore_destroy (sec_store s);
     Some (NYX_ERROR_NONE, out, file', s\<lparr>sec_store := ks\<rparr>) }"

section \<open>Operations\<close>

definition security_create_aes_key ::
  "cipher_lib \<Rightarrow> u8 list option \<Rightarrow> (nat \<Rightarrow> int \<times> u8 list) \<Rightarrow> ptr \<Rightarrow> int \<Rightarrow> int \<Rightarrow> ('r, 'h) security \<Rightarrow>
   (nyx_error \<times> int \<times> ('r, 'h) security) option" where
  "security_create_aes_key C mem rand d keylen key_index s = do {
     (r, i, ks) \<leftarrow> aes_generate_key C mem rand keylen key_index (sec_store s);
     Some (r, i, s\<lparr>sec_store := ks\<rparr>) }"

definition security_aes_crypt ::
  "cipher_lib \<Rightarrow> (nat \<Rightarrow> int \<times> u8 list) \<Rightarrow> ptr \<Rightarrow> int \<Rightarrow> int \<Rightarrow> bool \<Rightarrow> u8 list \<Rightarrow> int \<Rightarrow> u8 list \<Rightarrow> int \<Rightarrow> int \<Rightarrow>
   ('r, 'h) security \<Rightarrow> (nyx_error \<times> u8 list \<times> int \<times> int) option" where
  "security_aes_crypt C rand d key_index mode encrypt src srclen dest destlen ivlen s =
     aes_crypt C rand (sec_store s) key_index encrypt mode src srclen dest destlen ivlen"

definition security_create_rsa_key ::
  "bool \<Rightarrow> int \<times> 'r \<Rightarrow> ptr \<Rightarrow> int \<Rightarrow> int \<Rightarrow> ('r, 'h) security \<Rightarrow>
   (nyx_error \<times> int \<times> ('r, 'h) security) option" where
  "security_create_rsa_key mem_ok gen d keylen key_index s = do {
     (r, i, ks) \<leftarrow> rsa_generate_key mem_ok gen keylen key_index (sec_store s);
     Some (r, i, s\<lparr>sec_store := ks\<rparr>) }"

definition security_rsa_crypt ::
  "'r rsa_lib \<Rightarrow> nat \<Rightarrow> ptr \<Rightarrow> int \<Rightarrow> bool \<Rightarrow> u8 list \<Rightarrow> int \<Rightarrow> u8 list \<Rightarrow> int \<Rightarrow> ('r, 'h) security \<Rightarrow>
   (nyx_error \<times> u8 list \<times> int) option" where
  "security_rsa_crypt R seed d key_index encrypt src srclen dest destlen s =
     rsa_crypt R seed (sec_store s) key_index encrypt src srclen dest destlen"

definition security_init_hash ::
  "'h md_lib \<Rightarrow> ptr \<Rightarrow> int \<Rightarrow> ptr \<Rightarrow> string \<Rightarrow> ('r, 'h) security \<Rightarrow> (nyx_error \<times> ('r, 'h) security) option" where
  "security_init_hash H ctx ret d hash_algo s = do {
     (r, h) \<leftarrow> sha_init H ctx ret hash_algo (sec_sha s);
     Some (r, s\<lparr>sec_sha := h\<rparr>) }"

definition security_update_hash ::
  "'h md_lib \<Rightarrow> int \<Rightarrow> ptr \<Rightarrow> u8 list \<Rightarrow> ('r, 'h) security \<Rightarrow> (nyx_error \<times> ('r, 'h) security) option" where
  "security_update_hash H ret d src s = do {
     (r, h) \<leftarrow> sha_update H ret src (sec_sha s);
     Some (r, s\<lparr>sec_sha := h\<rparr>) }"

text \<open>A string with its end as bytes.\<close>

definition c_bytes :: "string \<Rightarrow> u8 list" where
  "c_bytes str = map of_char str @ [0]"

definition security_finalize_hash ::
  "('kf, 'd, 'r) store_lib \<Rightarrow> 'h md_lib \<Rightarrow> int \<Rightarrow> ptr \<Rightarrow> u8 list \<Rightarrow> ('r, 'h) security \<Rightarrow>
   (nyx_error \<times> u8 list \<times> ('r, 'h) security) option" where
  "security_finalize_hash L H ret d dest s = do {
     (r, dest1, destlen, h) \<leftarrow> sha_finalize H ret dest (-1) (sec_sha s);
     dest2 \<leftarrow> (if r = NYX_ERROR_NONE
               then write_at dest1 0 (c_bytes (base64_encode L (take (nat destlen) dest1)))
               else Some dest1);
     Some (r, dest2, s\<lparr>sec_sha := h\<rparr>) }"

end
