(* ===== verification/Security_Test.thy ===== *)
theory Security_Test
  imports Security_Module
begin

text \<open>
  generic/security/test/test_security.c: the test program of the security module. It reaches the
  module through nyx-lib, whose functions are a record: the program is modelled over any client
  library, and \<open>module_client\<close> is the one that passes the calls on to the module.
\<close>

section \<open>The client library\<close>

text \<open>The result of opening says whether there is a handle.\<close>

record 's nyx_client =
  nc_init :: nyx_error
  nc_deinit :: nyx_error
  nc_open :: "'s \<Rightarrow> (nyx_error \<times> bool \<times> 's) option"
  nc_close :: "'s \<Rightarrow> (nyx_error \<times> 's) option"
  nc_create_aes_key :: "int \<Rightarrow> int \<Rightarrow> 's \<Rightarrow> (nyx_error \<times> int \<times> 's) option"
  nc_create_rsa_key :: "int \<Rightarrow> int \<Rightarrow> 's \<Rightarrow> (nyx_error \<times> int \<times> 's) option"
  nc_crypt_aes :: "int \<Rightarrow> int \<Rightarrow> bool \<Rightarrow> u8 list \<Rightarrow> int \<Rightarrow> u8 list \<Rightarrow> int \<Rightarrow> int \<Rightarrow> 's \<Rightarrow>
    (nyx_error \<times> u8 list \<times> int \<times> int \<times> 's) option"
  nc_crypt_rsa :: "int \<Rightarrow> bool \<Rightarrow> u8 list \<Rightarrow> int \<Rightarrow> u8 list \<Rightarrow> int \<Rightarrow> 's \<Rightarrow>
    (nyx_error \<times> u8 list \<times> int \<times> 's) option"
  nc_init_hash :: "string \<Rightarrow> 's \<Rightarrow> (nyx_error \<times> 's) option"
  nc_update_hash :: "u8 list \<Rightarrow> 's \<Rightarrow> (nyx_error \<times> 's) option"
  nc_finalize_hash :: "u8 list \<Rightarrow> 's \<Rightarrow> (nyx_error \<times> u8 list \<times> 's) option"

text \<open>Constants of OpenSSL and nyx-lib, and the contents of an uninitialised array.\<close>

record test_consts =
  tc_cbc :: int
  tc_max_block :: nat
  tc_max_iv :: nat
  tc_max_md :: nat
  tc_sha256 :: string
  tc_sha512 :: string
  tc_stack :: "nat \<Rightarrow> u8 list"

section \<open>The tests\<close>

text \<open>A failed assertion ends the program: \<open>None\<close>.\<close>

definition g_assert :: "bool \<Rightarrow> unit option" where
  "g_assert b = (if b then Some () else None)"

lemma g_assert_simps [simp]: "Option.bind (g_assert True) f = f ()" "Option.bind (g_assert False) f = None"
  by (simp_all add: g_assert_def)

text \<open>The string at the start of a buffer; without an end it is not defined.\<close>

definition buffer_string :: "u8 list \<Rightarrow> u8 list option" where
  "buffer_string bs = (if 0 \<in> set bs then Some (takeWhile (\<lambda>b. b \<noteq> 0) bs) else None)"

text \<open>\<open>g_strsplit (s, ";", 2)\<close>.\<close>

definition strsplit2 :: "string \<Rightarrow> string list" where
  "strsplit2 s = (case dropWhile (\<lambda>c. c \<noteq> CHR 0x3B) s of
     [] \<Rightarrow> [s] | _ # rest \<Rightarrow> [takeWhile (\<lambda>c. c \<noteq> CHR 0x3B) s, rest])"

definition fixture_setup :: "'s nyx_client \<Rightarrow> 's \<Rightarrow> 's option" where
  "fixture_setup N s = do {
     _ \<leftarrow> g_assert (nc_init N = NYX_ERROR_NONE);
     (r, handle, s1) \<leftarrow> nc_open N s;
     _ \<leftarrow> g_assert (r = NYX_ERROR_NONE);
     _ \<leftarrow> g_assert handle;
     Some s1 }"

definition fixture_teardown :: "'s nyx_client \<Rightarrow> 's \<Rightarrow> 's option" where
  "fixture_teardown N s = do {
     (r, s1) \<leftarrow> nc_close N s;
     _ \<leftarrow> g_assert (r = NYX_ERROR_NONE);
     _ \<leftarrow> g_assert (nc_deinit N = NYX_ERROR_NONE);
     Some s1 }"

text \<open>The two tests of key creation are the same but for the function.\<close>

definition create_keys :: "(int \<Rightarrow> int \<Rightarrow> 's \<Rightarrow> (nyx_error \<times> int \<times> 's) option) \<Rightarrow> string \<Rightarrow> 's \<Rightarrow> 's option" where
  "create_keys create userdata s = do {
     keylen \<leftarrow> atoi userdata;
     (r1, i1, s1) \<leftarrow> create keylen (-1) s;
     _ \<leftarrow> g_assert (r1 = NYX_ERROR_NONE);
     _ \<leftarrow> g_assert (i1 \<noteq> -1);
     (r2, i2, s2) \<leftarrow> create keylen 1 s1;
     _ \<leftarrow> g_assert (r2 = NYX_ERROR_NONE);
     _ \<leftarrow> g_assert (i2 = 1);
     (r3, i3, s3) \<leftarrow> create keylen (-1) s2;
     _ \<leftarrow> g_assert (r3 = NYX_ERROR_NONE);
     _ \<leftarrow> g_assert (2 \<le> i3);
     Some s3 }"

definition test_create_aes_key :: "'s nyx_client \<Rightarrow> string \<Rightarrow> 's \<Rightarrow> 's option" where
  "test_create_aes_key N userdata s = create_keys (nc_create_aes_key N) userdata s"

definition test_create_rsa_key :: "'s nyx_client \<Rightarrow> string \<Rightarrow> 's \<Rightarrow> 's option" where
  "test_create_rsa_key N userdata s = create_keys (nc_create_rsa_key N) userdata s"

text \<open>\<open>sizeof (src)\<close> is that of a pointer.\<close>

definition sizeof_pointer :: nat where
  "sizeof_pointer = 8"

definition test_src :: "u8 list" where
  "test_src = c_bytes ''foobar''"

definition test_crypt_aes :: "'s nyx_client \<Rightarrow> test_consts \<Rightarrow> int \<Rightarrow> 's \<Rightarrow> 's option" where
  "test_crypt_aes N K block_mode s = do {
     (r1, index, s1) \<leftarrow> nc_create_aes_key N 128 (-1) s;
     _ \<leftarrow> g_assert (r1 = NYX_ERROR_NONE);
     let size = sizeof_pointer + tc_max_block K + tc_max_iv K;
     (r2, enc, enclen, ivlen, s2) \<leftarrow> nc_crypt_aes N index block_mode True test_src (int (length test_src))
        (tc_stack K size) (-1) 0 s1;
     _ \<leftarrow> g_assert (r2 = NYX_ERROR_NONE);
     _ \<leftarrow> g_assert (0 < enclen);
     (r3, dec, declen, ivlen', s3) \<leftarrow> nc_crypt_aes N index block_mode False enc enclen (tc_stack K size) (-1) ivlen s2;
     _ \<leftarrow> g_assert (r3 = NYX_ERROR_NONE);
     _ \<leftarrow> g_assert (0 < declen);
     str \<leftarrow> buffer_string dec;
     _ \<leftarrow> g_assert (str @ [0] = test_src);
     Some s3 }"

definition test_crypt_rsa :: "'s nyx_client \<Rightarrow> test_consts \<Rightarrow> string \<Rightarrow> 's \<Rightarrow> 's option" where
  "test_crypt_rsa N K userdata s = do {
     keylen \<leftarrow> atoi userdata;
     _ \<leftarrow> g_assert (keylen smod 8 = 0);
     (r1, index, s1) \<leftarrow> nc_create_rsa_key N keylen (-1) s;
     _ \<leftarrow> g_assert (r1 = NYX_ERROR_NONE);
     let size = nat (keylen sdiv 8);
     (r2, enc, enclen, s2) \<leftarrow> nc_crypt_rsa N index True test_src (int (length test_src)) (tc_stack K size) (-1) s1;
     _ \<leftarrow> g_assert (r2 = NYX_ERROR_NONE);
     _ \<leftarrow> g_assert (0 < enclen);
     (r3, dec, declen, s3) \<leftarrow> nc_crypt_rsa N index False enc enclen (tc_stack K size) (-1) s2;
     _ \<leftarrow> g_assert (r3 = NYX_ERROR_NONE);
     _ \<leftarrow> g_assert (0 < declen);
     str \<leftarrow> buffer_string dec;
     _ \<leftarrow> g_assert (str @ [0] = test_src);
     Some s3 }"

definition test_calculate_sha :: "'s nyx_client \<Rightarrow> test_consts \<Rightarrow> string \<Rightarrow> 's \<Rightarrow> 's option" where
  "test_calculate_sha N K userdata s =
     (case strsplit2 userdata of
        [hash_type, expected] \<Rightarrow> do {
          (r1, s1) \<leftarrow> nc_init_hash N hash_type s;
          _ \<leftarrow> g_assert (r1 = NYX_ERROR_NONE);
          (r2, s2) \<leftarrow> nc_update_hash N (map of_char ''foobar'') s1;
          _ \<leftarrow> g_assert (r2 = NYX_ERROR_NONE);
          (r3, hash, s3) \<leftarrow> nc_finalize_hash N (replicate (tc_max_md K * 2) 0) s2;
          _ \<leftarrow> g_assert (r3 = NYX_ERROR_NONE);
          str \<leftarrow> buffer_string hash;
          _ \<leftarrow> g_assert (str = map of_char expected);
          Some s3 }
      | _ \<Rightarrow> None)"

section \<open>The program\<close>

definition sha256_foobar :: string where
  "sha256_foobar = ''w6uP8Tcg6K2QR905Rms8iXTlksL6OD1KOWBxTK7wxPI=''"

definition sha512_foobar :: string where
  "sha512_foobar = ''ClAmHr0aOQ/tK/Mm8mc8FFWCpjQtUjIElz0CGTN/gWFqgGmwElh89WNfaSXxtWw2AjDBmyc1AO4BPgMGAb8kJQ==''"

definition security_tests :: "'s nyx_client \<Rightarrow> test_consts \<Rightarrow> (string \<times> ('s \<Rightarrow> 's option)) list" where
  "security_tests N K =
     [(''/nyx/security/create_key_aes128cbc'', test_create_aes_key N ''128''),
      (''/nyx/security/create_key_aes256cbc'', test_create_aes_key N ''256''),
      (''/nyx/security/create_key_rsa2048'', test_create_rsa_key N ''2048''),
      (''/nyx/security/crypt_aes128cbc'', test_crypt_aes N K (tc_cbc K)),
      (''/nyx/security/crypt_rsa2048'', test_crypt_rsa N K ''2048''),
      (''/nyx/security/crypt_rsa2048'', test_crypt_rsa N K ''4096''),
      (''/nyx/security/calculate_sha256'', test_calculate_sha N K (tc_sha256 K @ '';'' @ sha256_foobar)),
      (''/nyx/security/calculate_sha512'', test_calculate_sha N K (tc_sha512 K @ '';'' @ sha512_foobar))]"

text \<open>Each test between the set-up and the tear-down of its fixture.\<close>

fun run_tests :: "'s nyx_client \<Rightarrow> (string \<times> ('s \<Rightarrow> 's option)) list \<Rightarrow> 's \<Rightarrow> 's option" where
  "run_tests N [] s = Some s"
| "run_tests N ((path, test) # ts) s = do {
     s1 \<leftarrow> fixture_setup N s;
     s2 \<leftarrow> test s1;
     s3 \<leftarrow> fixture_teardown N s2;
     run_tests N ts s3 }"

definition test_main :: "'s nyx_client \<Rightarrow> test_consts \<Rightarrow> 's \<Rightarrow> 's option" where
  "test_main N K s = run_tests N (security_tests N K) s"

section \<open>The client library over the module\<close>

text \<open>
  What the libraries and the system answer, at the \<open>n\<close>-th call where they may answer differently:
  blocks of malloc, random bytes, key generation, seeds of the padding, digest contexts, the
  orders in which tables are enumerated. \<open>te_reload\<close>: nyx-lib loads the module anew.
\<close>

record ('kf, 'd, 'r, 'h) test_env =
  te_store :: "('kf, 'd, 'r) store_lib"
  te_cipher :: cipher_lib
  te_rsa :: "'r rsa_lib"
  te_md :: "'h md_lib"
  te_pem :: "'r \<Rightarrow> string"
  te_block :: "nat \<Rightarrow> u8 list"
  te_mem :: "nat \<Rightarrow> string \<Rightarrow> u8 list"
  te_rand :: "nat \<Rightarrow> nat \<Rightarrow> int \<times> u8 list"
  te_gen :: "nat \<Rightarrow> int \<Rightarrow> int \<times> 'r"
  te_seed :: "nat \<Rightarrow> nat"
  te_ctx :: "nat \<Rightarrow> ptr"
  te_dev :: ptr
  te_aes_order :: "(int \<rightharpoonup> aes_key) \<Rightarrow> int list"
  te_rsa_order :: "(int \<rightharpoonup> 'r rsa_key) \<Rightarrow> int list"
  te_reload :: bool

record ('d, 'r, 'h) test_world =
  tw_sec :: "('r, 'h) security"
  tw_file :: "'d option"
  tw_time :: nat

definition ticked :: "('d, 'r, 'h) test_world \<Rightarrow> ('r, 'h) security \<Rightarrow> ('d, 'r, 'h) test_world" where
  "ticked w s = w\<lparr>tw_sec := s, tw_time := Suc (tw_time w)\<rparr>"

definition module_client :: "('kf, 'd, 'r, 'h) test_env \<Rightarrow> ('d, 'r, 'h) test_world nyx_client" where
  "module_client E = \<lparr>
     nc_init = NYX_ERROR_NONE,
     nc_deinit = NYX_ERROR_NONE,
     nc_open = (\<lambda>w. do {
       (r, d, s) \<leftarrow> security_module_open (te_store E) (te_dev E) (replicate 7 NYX_ERROR_NONE) True True
          (te_mem E (tw_time w)) (tw_file w) (Some NULL) (if te_reload E then security_start else tw_sec w);
       Some (r, d \<noteq> Some NULL, ticked w s) }),
     nc_close = (\<lambda>w. do {
       (r, out, file, s) \<leftarrow> security_module_close (te_store E) (te_pem E)
          (te_aes_order E (table_map (ks_aes (sec_store (tw_sec w)))))
          (te_rsa_order E (table_map (ks_rsa (sec_store (tw_sec w))))) True True (tw_file w) (tw_sec w);
       Some (r, (ticked w s)\<lparr>tw_file := file\<rparr>) }),
     nc_create_aes_key = (\<lambda>keylen index w. do {
       (r, i, s) \<leftarrow> security_create_aes_key (te_cipher E) (Some (te_block E (tw_time w))) (te_rand E (tw_time w))
          (te_dev E) keylen index (tw_sec w);
       Some (r, i, ticked w s) }),
     nc_create_rsa_key = (\<lambda>keylen index w. do {
       (r, i, s) \<leftarrow> security_create_rsa_key True (te_gen E (tw_time w) keylen) (te_dev E) keylen index (tw_sec w);
       Some (r, i, ticked w s) }),
     nc_crypt_aes = (\<lambda>index mode encrypt src srclen dest destlen ivlen w. do {
       (r, out, n, iv) \<leftarrow> security_aes_crypt (te_cipher E) (te_rand E (tw_time w)) (te_dev E) index mode encrypt
          src srclen dest destlen ivlen (tw_sec w);
       Some (r, out, n, iv, ticked w (tw_sec w)) }),
     nc_crypt_rsa = (\<lambda>index encrypt src srclen dest destlen w. do {
       (r, out, n) \<leftarrow> security_rsa_crypt (te_rsa E) (te_seed E (tw_time w)) (te_dev E) index encrypt
          src srclen dest destlen (tw_sec w);
       Some (r, out, n, ticked w (tw_sec w)) }),
     nc_init_hash = (\<lambda>name w. do {
       (r, s) \<leftarrow> security_init_hash (te_md E) (te_ctx E (tw_time w)) 1 (te_dev E) name (tw_sec w);
       Some (r, ticked w s) }),
     nc_update_hash = (\<lambda>src w. do {
       (r, s) \<leftarrow> security_update_hash (te_md E) 1 (te_dev E) src (tw_sec w);
       Some (r, ticked w s) }),
     nc_finalize_hash = (\<lambda>dest w. do {
       (r, out, s) \<leftarrow> security_finalize_hash (te_store E) (te_md E) 1 (te_dev E) dest (tw_sec w);
       Some (r, out, ticked w s) })\<rparr>"

end
