(* ===== verification/Security_Roundtrip.thy ===== *)
theory Security_Roundtrip
  imports Security_Module
begin

text \<open>
  The laws that the key store needs of its libraries, the invariant of a store, and the round trip
  of a store through its file.
\<close>

section \<open>The documented behaviour of the libraries\<close>

text \<open>Printable ASCII without the space: what base64 and \<open>%d\<close> write.\<close>

definition plain :: "string \<Rightarrow> bool" where
  "plain s \<longleftrightarrow> (\<forall>c \<in> set s. 33 \<le> (of_char c :: nat) \<and> (of_char c :: nat) \<le> 126)"

text \<open>
  Glib: a list of plain strings set under a number is what is read back, other entries stay, the
  keys of a group are listed in the order in which they were set first, and a file written and
  loaded has the same entries; base64 and the encoding of RSA keys are lossless. OpenSSL: keys have
  up to EVP_MAX_KEY_LENGTH bytes, enough for AES-256.
\<close>

definition store_lib_ok :: "('kf, 'd, 'r) store_lib \<Rightarrow> bool" where
  "store_lib_ok L \<longleftrightarrow>
     (\<forall>g k. kf_get L (kf_new L) g k = None) \<and> (\<forall>g. kf_keys L (kf_new L) g = None) \<and>
     (\<forall>kf g i l g' k'. in_i32 i \<and> (\<forall>s \<in> set l. plain s) \<longrightarrow>
        kf_get L (kf_set L kf g (print_int i) l) g' k' =
          (if g' = g \<and> k' = print_int i then Some l else kf_get L kf g' k')) \<and>
     (\<forall>kf g i l g'. in_i32 i \<and> (\<forall>s \<in> set l. plain s) \<longrightarrow>
        kf_keys L (kf_set L kf g (print_int i) l) g' =
          (if g' \<noteq> g then kf_keys L kf g'
           else case kf_keys L kf g of None \<Rightarrow> Some [print_int i]
             | Some ks \<Rightarrow> Some (if print_int i \<in> set ks then ks else ks @ [print_int i]))) \<and>
     (\<forall>kf. \<exists>kf'. kf_load L (kf_to_data L kf) = Some kf' \<and>
        kf_get L kf' = kf_get L kf \<and> kf_keys L kf' = kf_keys L kf) \<and>
     (\<forall>bs. plain (base64_encode L bs) \<and> base64_decode L (base64_encode L bs) = bs) \<and>
     (\<forall>r. d2i L (i2d L r) = Some r) \<and>
     32 \<le> EVP_MAX_KEY_LENGTH L"

lemma store_lib_okD:
  assumes "store_lib_ok L"
  shows "kf_get L (kf_new L) g k = None" "kf_keys L (kf_new L) g = None"
    and "in_i32 i \<Longrightarrow> (\<forall>s \<in> set l. plain s) \<Longrightarrow> kf_get L (kf_set L kf g (print_int i) l) g' k' =
          (if g' = g \<and> k' = print_int i then Some l else kf_get L kf g' k')"
    and "in_i32 i \<Longrightarrow> (\<forall>s \<in> set l. plain s) \<Longrightarrow> kf_keys L (kf_set L kf g (print_int i) l) g' =
          (if g' \<noteq> g then kf_keys L kf g'
           else case kf_keys L kf g of None \<Rightarrow> Some [print_int i]
             | Some ks \<Rightarrow> Some (if print_int i \<in> set ks then ks else ks @ [print_int i]))"
    and "\<exists>kf'. kf_load L (kf_to_data L kf) = Some kf' \<and> kf_get L kf' = kf_get L kf \<and> kf_keys L kf' = kf_keys L kf"
    and "plain (base64_encode L bs)" "base64_decode L (base64_encode L bs) = bs"
    and "d2i L (i2d L r) = Some r" "32 \<le> EVP_MAX_KEY_LENGTH L"
  using assms unfolding store_lib_ok_def by blast+

lemma plain_digit: "is_digit c \<Longrightarrow> 33 \<le> (of_char c :: nat) \<and> (of_char c :: nat) \<le> 126"
  using is_digit_char_code [of c] by simp

lemma plain_print_int: "plain (print_int i)"
  using dec_digits_all by (auto simp: plain_def print_int_def plain_digit)

section \<open>Stores\<close>

definition aes_key_ok :: "('kf, 'd, 'r) store_lib \<Rightarrow> aes_key \<Rightarrow> bool" where
  "aes_key_ok L k \<longleftrightarrow> (\<exists>n \<le> EVP_MAX_KEY_LENGTH L. aes_keylen k = int n * 8) \<and> in_i32 (aes_keylen k) \<and>
     length (aes_bytes k) = EVP_MAX_KEY_LENGTH L"

definition store_ok :: "('kf, 'd, 'r) store_lib \<Rightarrow> 'r keystore \<Rightarrow> bool" where
  "store_ok L ks \<longleftrightarrow> table_ok (ks_aes ks) \<and> table_ok (ks_rsa ks) \<and>
     (\<forall>i k. keystore_key_lookup (ks_aes ks) i = Some (Some k) \<longrightarrow> aes_key_ok L k) \<and>
     (\<forall>i k. keystore_key_lookup (ks_rsa ks) i = Some (Some k) \<longrightarrow> in_i32 (rsa_keylen k))"

lemma store_okE:
  assumes "store_ok L ks"
  obtains a r where "ks_aes ks = Table a" "ks_rsa ks = Table r"
    and "finite (dom a)" "a (-1) = None" "\<forall>i \<in> dom a. in_i32 i"
    and "finite (dom r)" "r (-1) = None" "\<forall>i \<in> dom r. in_i32 i"
    and "\<And>i k. a i = Some k \<Longrightarrow> aes_key_ok L k" "\<And>i k. r i = Some k \<Longrightarrow> in_i32 (rsa_keylen k)"
  using assms unfolding store_ok_def
  by (cases "ks_aes ks"; cases "ks_rsa ks") auto

text \<open>What counts of an AES key: its length and as many bytes.\<close>

definition aes_view :: "aes_key \<Rightarrow> int \<times> u8 list" where
  "aes_view k = (aes_keylen k, take (nat (aes_keylen k div 8)) (aes_bytes k))"

text \<open>An enumeration of a table: each index once.\<close>

definition enumerates :: "int list \<Rightarrow> (int \<rightharpoonup> 'v) \<Rightarrow> bool" where
  "enumerates order t \<longleftrightarrow> distinct order \<and> set order = dom t"

section \<open>What a saved file holds\<close>

text \<open>
  From the key file \<open>kf\<close>, the group \<open>g\<close> has got the entries of \<open>order\<close>, each as the list \<open>enc\<close> gives.
\<close>

definition saved ::
  "('kf, 'd, 'r) store_lib \<Rightarrow> string \<Rightarrow> ('v \<Rightarrow> string list) \<Rightarrow> (int \<rightharpoonup> 'v) \<Rightarrow> int list \<Rightarrow> 'kf \<Rightarrow> 'kf \<Rightarrow> bool" where
  "saved L g enc t order kf kf' \<longleftrightarrow>
     (\<forall>i \<in> set order. kf_get L kf' g (print_int i) = map_option enc (t i)) \<and>
     (\<forall>g' k. g' \<noteq> g \<or> k \<notin> print_int ` set order \<longrightarrow> kf_get L kf' g' k = kf_get L kf g' k) \<and>
     (\<forall>g'. g' \<noteq> g \<longrightarrow> kf_keys L kf' g' = kf_keys L kf g') \<and>
     (set (concat (option_list (kf_keys L kf g))) \<inter> print_int ` set order = {} \<longrightarrow>
       concat (option_list (kf_keys L kf' g)) = concat (option_list (kf_keys L kf g)) @ map print_int order)"

lemma savedD:
  assumes "saved L g enc t order kf kf'"
  shows "i \<in> set order \<Longrightarrow> kf_get L kf' g (print_int i) = map_option enc (t i)"
    and "g' \<noteq> g \<or> k \<notin> print_int ` set order \<Longrightarrow> kf_get L kf' g' k = kf_get L kf g' k"
    and "g' \<noteq> g \<Longrightarrow> kf_keys L kf' g' = kf_keys L kf g'"
    and "set (concat (option_list (kf_keys L kf g))) \<inter> print_int ` set order = {} \<Longrightarrow>
       concat (option_list (kf_keys L kf' g)) = concat (option_list (kf_keys L kf g)) @ map print_int order"
  using assms unfolding saved_def by blast+

lemma saved_Cons:
  assumes L: "store_lib_ok L" and v: "t i = Some v" and i: "in_i32 i" and e: "\<forall>s \<in> set (enc v). plain s"
    and o: "i \<notin> set order" "\<forall>j \<in> set order. in_i32 j"
    and s: "saved L g enc t order (kf_set L kf g (print_int i) (enc v)) kf'"
  shows "saved L g enc t (i # order) kf kf'"
proof -
  note D = store_lib_okD(3,4) [OF L i e] and S = savedD [OF s]
  have new: "print_int i \<notin> print_int ` set order"
  proof
    assume "print_int i \<in> print_int ` set order"
    then obtain j where "j \<in> set order" "print_int i = print_int j" by auto
    with o print_int_inj [OF i, of j] show False by auto
  qed
  show ?thesis
    unfolding saved_def
  proof (intro conjI ballI allI impI)
    show "kf_get L kf' g (print_int j) = map_option enc (t j)" if "j \<in> set (i # order)" for j
      using that S(1) [of j] S(2) [of g "print_int i"] new v by (auto simp: D(1))
    show "kf_get L kf' g' k = kf_get L kf g' k" if "g' \<noteq> g \<or> k \<notin> print_int ` set (i # order)" for g' k
      using that S(2) [of g' k] by (auto simp: D(1))
    show "kf_keys L kf' g' = kf_keys L kf g'" if "g' \<noteq> g" for g'
      using that S(3) [of g'] by (simp add: D(2))
    assume k: "set (concat (option_list (kf_keys L kf g))) \<inter> print_int ` set (i # order) = {}"
    then have "concat (option_list (kf_keys L (kf_set L kf g (print_int i) (enc v)) g)) =
        concat (option_list (kf_keys L kf g)) @ [print_int i]"
      by (cases "kf_keys L kf g") (auto simp: D(2))
    with k S(4) new
    show "concat (option_list (kf_keys L kf' g)) = concat (option_list (kf_keys L kf g)) @ map print_int (i # order)"
      by auto
  qed
qed

text \<open>Both tables are saved entry by entry, each as a list of plain strings.\<close>

lemma foreach_saved:
  assumes L: "store_lib_ok L"
    and f: "\<And>i v kf. t i = Some v \<Longrightarrow> f i v kf = Some (kf_set L kf g (print_int i) (enc v))"
    and e: "\<And>v. \<forall>s \<in> set (enc v). plain s"
    and "distinct order" "set order \<subseteq> dom t" "\<forall>i \<in> set order. in_i32 i"
  shows "\<exists>kf'. table_foreach f t order kf = Some kf' \<and> saved L g enc t order kf kf'"
  using assms(4-6)
proof (induction order arbitrary: kf)
  case Nil
  then show ?case by (auto simp: saved_def)
next
  case (Cons i order)
  then obtain v where v: "t i = Some v" by auto
  have o: "distinct order" "set order \<subseteq> dom t" "\<forall>i \<in> set order. in_i32 i" "i \<notin> set order" "in_i32 i"
    using Cons.prems by auto
  from Cons.IH [OF o(1-3), of "kf_set L kf g (print_int i) (enc v)"] obtain kf' where
    "table_foreach f t order (kf_set L kf g (print_int i) (enc v)) = Some kf'"
    "saved L g enc t order (kf_set L kf g (print_int i) (enc v)) kf'" by blast
  then show ?case
    using saved_Cons [where enc = enc and v = v and t = t, OF L v o(5) e [of v] o(4,3)] by (auto simp: v f)
qed

section \<open>Loading what was saved\<close>

lemma load_all_table:
  assumes put: "\<And>s. put (get s) s = s" "\<And>T s. get (put T s) = T" "\<And>T T' s. put T (put T' s) = put T s"
    and step: "\<And>i s a. i \<in> set order \<Longrightarrow> get s = Table a \<Longrightarrow> f (print_int i) s = Some (put (Table (a(i \<mapsto> h i))) s)"
    and "get s = Table a"
  shows "load_all f (map print_int order) s = Some (put (Table (\<lambda>i. if i \<in> set order then Some (h i) else a i)) s)"
  using step assms(5)
proof (induction order arbitrary: s a)
  case Nil
  then show ?case using put(1) [of s] by simp
next
  case (Cons i order)
  have eq: "(\<lambda>j. if j \<in> set order then Some (h j) else (a(i \<mapsto> h i)) j) =
      (\<lambda>j. if j \<in> set (i # order) then Some (h j) else a j)"
    by auto
  let ?s = "put (Table (a(i \<mapsto> h i))) s"
  have one: "f (print_int i) s = Some ?s"
    by (rule Cons.prems(1)) (simp_all add: Cons.prems(2))
  have "load_all f (map print_int (i # order)) s = load_all f (map print_int order) ?s"
    unfolding list.map load_all.simps one bind.simps ..
  also have "\<dots> = Some (put (Table (\<lambda>j. if j \<in> set order then Some (h j) else (a(i \<mapsto> h i)) j)) ?s)"
    by (rule Cons.IH) (simp_all only: Cons.prems(1) put(2) list.set_intros)
  also have "\<dots> = Some (put (Table (\<lambda>j. if j \<in> set (i # order) then Some (h j) else a j)) s)"
    by (simp only: eq put(3))
  finally show ?case .
qed

text \<open>The key that comes back: the same length and bytes, the rest of the array from the new block.\<close>

definition reloaded :: "('kf, 'd, 'r) store_lib \<Rightarrow> u8 list \<Rightarrow> aes_key \<Rightarrow> aes_key" where
  "reloaded L block k = (let n = nat (aes_keylen k div 8) in
     \<lparr>aes_keylen = aes_keylen k, aes_bytes = take n (aes_bytes k) @ drop n (take (EVP_MAX_KEY_LENGTH L) block)\<rparr>)"

lemma aes_key_okE:
  assumes "aes_key_ok L k"
  obtains n where "n \<le> EVP_MAX_KEY_LENGTH L" "aes_keylen k = int n * 8" "in_i32 (aes_keylen k)"
    "length (aes_bytes k) = EVP_MAX_KEY_LENGTH L"
  using assms by (auto simp: aes_key_ok_def)

lemma reloaded_view: "aes_key_ok L k \<Longrightarrow> aes_view (reloaded L block k) = aes_view k"
  by (elim aes_key_okE) (simp add: aes_view_def reloaded_def)

lemma reloaded_ok: "aes_key_ok L k \<Longrightarrow> EVP_MAX_KEY_LENGTH L \<le> length block \<Longrightarrow> aes_key_ok L (reloaded L block k)"
  by (elim aes_key_okE) (auto simp: aes_key_ok_def reloaded_def)

definition aes_entry :: "('kf, 'd, 'r) store_lib \<Rightarrow> aes_key \<Rightarrow> string list" where
  "aes_entry L k = [print_int (aes_keylen k), base64_encode L (take (nat (aes_keylen k div 8)) (aes_bytes k))]"

definition rsa_entry :: "('kf, 'd, 'r) store_lib \<Rightarrow> 'r rsa_key \<Rightarrow> string list" where
  "rsa_entry L k = [print_int (rsa_keylen k), base64_encode L (i2d L (rsa_rsa k))]"

lemma save_aes_entry:
  "aes_key_ok L k \<Longrightarrow> keystore_save_aeskey L i k kf = Some (kf_set L kf ''aes'' (print_int i) (aes_entry L k))"
  by (elim aes_key_okE) (simp add: keystore_save_aeskey_def aes_entry_def sdiv_nonneg)

lemma load_aes_entry:
  assumes L: "store_lib_ok L" and k: "aes_key_ok L k" and i: "in_i32 i" "i \<noteq> -1"
    and g: "kf_get L kf ''aes'' (print_int i) = Some (aes_entry L k)" and a: "ks_aes s = Table a"
  shows "keystore_load_aeskey L mem kf (print_int i) s =
    Some (s\<lparr>ks_aes := Table (a(i \<mapsto> reloaded L (mem (print_int i)) k))\<rparr>)"
proof -
  obtain n where n: "n \<le> EVP_MAX_KEY_LENGTH L" "aes_keylen k = int n * 8" "in_i32 (aes_keylen k)"
    "length (aes_bytes k) = EVP_MAX_KEY_LENGTH L"
    using k by (rule aes_key_okE)
  show ?thesis
    using n i by (simp add: keystore_load_aeskey_def g aes_entry_def atoi_print_int store_lib_okD(7) [OF L] a
        reloaded_def Let_def min_absorb2)
qed

lemma load_rsa_entry:
  assumes L: "store_lib_ok L" and k: "in_i32 (rsa_keylen k)" and i: "in_i32 i" "i \<noteq> -1"
    and g: "kf_get L kf ''rsa'' (print_int i) = Some (rsa_entry L k)" and a: "ks_rsa s = Table a"
  shows "keystore_load_rsakey L kf (print_int i) s = Some (s\<lparr>ks_rsa := Table (a(i \<mapsto> k))\<rparr>)"
  using i k by (cases k) (simp add: keystore_load_rsakey_def g rsa_entry_def atoi_print_int store_lib_okD(7,8) [OF L] a)

section \<open>A store through its file\<close>

text \<open>The store that is loaded back.\<close>

definition reloaded_store :: "('kf, 'd, 'r) store_lib \<Rightarrow> (string \<Rightarrow> u8 list) \<Rightarrow> (int \<rightharpoonup> aes_key) \<Rightarrow> (int \<rightharpoonup> 'r rsa_key) \<Rightarrow> 'r keystore" where
  "reloaded_store L mem a r =
     \<lparr>ks_aes = Table (\<lambda>i. map_option (reloaded L (mem (print_int i))) (a i)), ks_rsa = Table r\<rparr>"

lemma load_keys_case:
  "(case K of None \<Rightarrow> Some s | Some ks \<Rightarrow> load_all f ks s) = load_all f (concat (option_list K)) s"
  by (cases K) simp_all

lemma entries_plain:
  "store_lib_ok L \<Longrightarrow> \<forall>s \<in> set (aes_entry L k). plain s"
  "store_lib_ok L \<Longrightarrow> \<forall>s \<in> set (rsa_entry L k'). plain s"
  by (simp_all add: aes_entry_def rsa_entry_def plain_print_int store_lib_okD(6))

lemma load_store:
  fixes r :: "int \<rightharpoonup> 'r rsa_key"
  assumes L: "store_lib_ok L" and aes: "\<And>i k. a i = Some k \<Longrightarrow> aes_key_ok L k \<and> in_i32 i \<and> i \<noteq> -1"
    and rsa: "\<And>i k. r i = Some k \<Longrightarrow> in_i32 (rsa_keylen k) \<and> in_i32 i \<and> i \<noteq> -1"
    and keys: "concat (option_list (kf_keys L kf ''aes'')) = map print_int ao"
      "concat (option_list (kf_keys L kf ''rsa'')) = map print_int ro"
    and gets: "\<And>i. i \<in> set ao \<Longrightarrow> kf_get L kf ''aes'' (print_int i) = map_option (aes_entry L) (a i)"
      "\<And>i. i \<in> set ro \<Longrightarrow> kf_get L kf ''rsa'' (print_int i) = map_option (rsa_entry L) (r i)"
    and load: "kf_load L data = Some kf" and ao: "set ao = dom a" and ro: "set ro = dom r"
  shows "keystore_load L mem (Some data) \<lparr>ks_aes = Table Map.empty, ks_rsa = Table Map.empty\<rparr> =
    Some (NYX_ERROR_NONE, reloaded_store L mem a r)"
proof -
  let ?a = "\<lambda>i. if i \<in> set ao then Some (reloaded L (mem (print_int i)) (the (a i))) else None"
  let ?r = "\<lambda>i. if i \<in> set ro then Some (the (r i)) else None"
  let ?s = "\<lparr>ks_aes = Table Map.empty, ks_rsa = Table Map.empty\<rparr>"
  have a: "?a = (\<lambda>i. map_option (reloaded L (mem (print_int i))) (a i))" and r: "?r = r"
    using ao ro by (auto simp: fun_eq_iff domIff)
  have 1: "load_all (keystore_load_aeskey L mem kf) (map print_int ao) ?s =
      Some (?s\<lparr>ks_aes := Table ?a\<rparr>)"
  proof (rule load_all_table [where get = ks_aes and put = "\<lambda>T s. s\<lparr>ks_aes := T\<rparr>"])
    fix i b and s :: "'r keystore" assume i: "i \<in> set ao" and s: "ks_aes s = Table b"
    then obtain k where k: "a i = Some k" using ao by auto
    have g: "kf_get L kf ''aes'' (print_int i) = Some (aes_entry L k)" using gets(1) [OF i] k by simp
    from aes [OF k] load_aes_entry [where mem = mem, OF L _ _ _ g s] k
    show "keystore_load_aeskey L mem kf (print_int i) s =
        Some (s\<lparr>ks_aes := Table (b(i \<mapsto> reloaded L (mem (print_int i)) (the (a i))))\<rparr>)" by simp
  qed simp_all
  have 2: "load_all (keystore_load_rsakey L kf) (map print_int ro) (?s\<lparr>ks_aes := Table ?a\<rparr>) =
      Some (?s\<lparr>ks_aes := Table ?a\<rparr>\<lparr>ks_rsa := Table ?r\<rparr>)"
  proof (rule load_all_table [where get = ks_rsa and put = "\<lambda>T s. s\<lparr>ks_rsa := T\<rparr>"])
    fix i b and s :: "'r keystore" assume i: "i \<in> set ro" and s: "ks_rsa s = Table b"
    then obtain k where k: "r i = Some k" using ro by auto
    have g: "kf_get L kf ''rsa'' (print_int i) = Some (rsa_entry L k)" using gets(2) [OF i] k by simp
    from rsa [OF k] load_rsa_entry [OF L _ _ _ g s] k
    show "keystore_load_rsakey L kf (print_int i) s = Some (s\<lparr>ks_rsa := Table (b(i \<mapsto> the (r i)))\<rparr>)" by simp
  qed simp_all
  have "keystore_load L mem (Some data) ?s = Some (NYX_ERROR_NONE, ?s\<lparr>ks_aes := Table ?a\<rparr>\<lparr>ks_rsa := Table ?r\<rparr>)"
    unfolding keystore_load_def option.case load load_keys_case keys 1 bind.simps 2 ..
  then show ?thesis unfolding reloaded_store_def a r by simp
qed

text \<open>Saving a store and loading the file into empty tables.\<close>

lemma save_load:
  assumes L: "store_lib_ok L" and ok: "store_ok L ks" and T: "ks_aes ks = Table a" "ks_rsa ks = Table r"
    and o: "enumerates ao a" "enumerates ro r"
  obtains data where "keystore_save L ao ro True True ks file = Some (Some data)"
    and "keystore_load L mem (Some data) \<lparr>ks_aes = Table Map.empty, ks_rsa = Table Map.empty\<rparr> =
      Some (NYX_ERROR_NONE, reloaded_store L mem a r)"
proof -
  from ok T have aes: "\<And>i k. a i = Some k \<Longrightarrow> aes_key_ok L k \<and> in_i32 i \<and> i \<noteq> -1"
    and rsa: "\<And>i k. r i = Some k \<Longrightarrow> in_i32 (rsa_keylen k) \<and> in_i32 i \<and> i \<noteq> -1"
    by (auto elim!: store_okE)
  have ao: "distinct ao" "set ao \<subseteq> dom a" "\<forall>i \<in> set ao. in_i32 i"
    and ro: "distinct ro" "set ro \<subseteq> dom r" "\<forall>i \<in> set ro. in_i32 i"
    using o aes rsa unfolding enumerates_def by blast+
  have fa: "\<And>i v kf. a i = Some v \<Longrightarrow> keystore_save_aeskey L i v kf = Some (kf_set L kf ''aes'' (print_int i) (aes_entry L v))"
    by (rule save_aes_entry [OF conjunct1 [OF aes]])
  have fr: "\<And>i v kf. r i = Some v \<Longrightarrow> keystore_save_rsakey L i v kf = Some (kf_set L kf ''rsa'' (print_int i) (rsa_entry L v))"
    by (simp add: keystore_save_rsakey_def rsa_entry_def)
  from foreach_saved [where kf = "kf_new L" and f = "keystore_save_aeskey L" and enc = "aes_entry L" and t = a, OF L fa entries_plain(1) [OF L] ao]
  obtain kf1 where s1: "table_foreach (keystore_save_aeskey L) a ao (kf_new L) = Some kf1"
    and S1: "saved L ''aes'' (aes_entry L) a ao (kf_new L) kf1" by blast
  from foreach_saved [where kf = kf1 and f = "keystore_save_rsakey L" and enc = "rsa_entry L" and t = r, OF L fr entries_plain(2) [OF L] ro]
  obtain kf2 where s2: "table_foreach (keystore_save_rsakey L) r ro kf1 = Some kf2"
    and S2: "saved L ''rsa'' (rsa_entry L) r ro kf1 kf2" by blast
  obtain kf where kf: "kf_load L (kf_to_data L kf2) = Some kf" "kf_get L kf = kf_get L kf2" "kf_keys L kf = kf_keys L kf2"
    using store_lib_okD(5) [OF L] by blast
  note N = store_lib_okD(1,2) [OF L]
  have keys: "concat (option_list (kf_keys L kf ''aes'')) = map print_int ao"
    "concat (option_list (kf_keys L kf ''rsa'')) = map print_int ro"
    using savedD(3) [OF S2, of "''aes''"] savedD(4) [OF S1] savedD(3) [OF S1, of "''rsa''"] savedD(4) [OF S2]
    by (simp_all add: kf N)
  have "keystore_load L mem (Some (kf_to_data L kf2)) \<lparr>ks_aes = Table Map.empty, ks_rsa = Table Map.empty\<rparr> =
      Some (NYX_ERROR_NONE, reloaded_store L mem a r)"
  proof (rule load_store [OF L aes rsa keys _ _ kf(1)])
    show "kf_get L kf ''aes'' (print_int i) = map_option (aes_entry L) (a i)" if "i \<in> set ao" for i
      using savedD(1) [OF S1 that] savedD(2) [OF S2, of "''aes''"] by (simp add: kf)
    show "kf_get L kf ''rsa'' (print_int i) = map_option (rsa_entry L) (r i)" if "i \<in> set ro" for i
      using savedD(1) [OF S2 that] by (simp add: kf)
  qed (use o in \<open>auto simp: enumerates_def\<close>)
  then show ?thesis
    by (intro that [of "kf_to_data L kf2"]) (simp_all add: keystore_save_def T s1 s2)
qed

end
