(* ===== verification/Security_Properties.thy ===== *)
theory Security_Properties
  imports Security_Roundtrip
begin

text \<open>The properties of the security module.\<close>

section \<open>Keys\<close>

lemma aes_supported_iff: "aes_supported_keylength C keylen \<longleftrightarrow> keylen = 128 \<or> keylen = 256"
  by (auto simp: aes_supported_keylength_def aes_algos_def)

lemma aes_lookup_Some:
  "aes_algo_data_lookup C keylen mode = Some algo \<longleftrightarrow> mode = NYX_SECURITY_AES_CBC C \<and>
    (keylen = 128 \<and> algo = \<lparr>algo_keylen = 128, algo_mode = mode, algo_cipher = EVP_aes_128_cbc\<rparr> \<or>
     keylen = 256 \<and> algo = \<lparr>algo_keylen = 256, algo_mode = mode, algo_cipher = EVP_aes_256_cbc\<rparr>)"
  by (auto simp: aes_algo_data_lookup_def aes_algos_def)

lemma write_at_0: "length bs \<le> length buf \<Longrightarrow> write_at buf 0 bs = Some (bs @ drop (length bs) buf)"
  by (simp add: write_at_def)

lemma store_ok_aes:
  assumes "store_ok L ks" and "in_i32 i" and "i \<noteq> -1" and "aes_key_ok L k" and "ks_aes ks = Table t"
  shows "store_ok L (ks\<lparr>ks_aes := Table (t(i \<mapsto> k))\<rparr>)"
  using assms by (auto simp: store_ok_def)

text \<open>A key is created at the index that is asked for, or at the least free one.\<close>

lemma generate_aes_key:
  assumes L: "store_lib_ok L" and ok: "store_ok L ks" and t: "ks_aes ks = Table t"
    and room: "int (card (dom t)) \<le> INT_MAX"
    and keylen: "aes_supported_keylength C keylen"
    and block: "length block = EVP_MAX_KEY_LENGTH L"
    and rand: "rand (nat (keylen div 8)) = (1, bs)" and bs: "length bs = nat (keylen div 8)"
    and index: "in_i32 index"
  obtains i k where "aes_generate_key C (Some block) rand keylen index ks =
      Some (NYX_ERROR_NONE, i, ks\<lparr>ks_aes := Table (t(i \<mapsto> k))\<rparr>)"
    and "if index = -1 then 0 \<le> i \<and> i \<le> int (card (dom t)) \<and> t i = None \<and> (\<forall>j. 0 \<le> j \<and> j < i \<longrightarrow> t j \<noteq> None)
         else i = index"
    and "aes_view k = (keylen, bs)" and "store_ok L (ks\<lparr>ks_aes := Table (t(i \<mapsto> k))\<rparr>)"
proof -
  let ?n = "nat (keylen div 8)"
  let ?k = "\<lparr>aes_keylen = keylen, aes_bytes = bs @ drop ?n block\<rparr>"
  have kl: "keylen = int ?n * 8" "?n \<le> 32" using keylen by (auto simp: aes_supported_iff)
  have sd: "keylen sdiv 8 = keylen div 8"
    using keylen sdiv_nonneg [of keylen 8] by (auto simp: aes_supported_iff)
  have max: "?n \<le> EVP_MAX_KEY_LENGTH L" using kl store_lib_okD(9) [OF L] by simp
  have k: "aes_key_ok L ?k" "aes_view ?k = (keylen, bs)"
    using kl max bs block keylen
    by (auto simp: aes_key_ok_def aes_view_def aes_supported_iff in_i32_def INT_MIN_def INT_MAX_def intro!: exI [of _ ?n])
  obtain f where f: "next_free t 0 = Some f" "0 \<le> f" "f \<le> int (card (dom t))" "t f = None"
    and least: "\<And>j. 0 \<le> j \<Longrightarrow> j < f \<Longrightarrow> t j \<noteq> None"
    by (rule next_free_bound [OF _ room]) (use ok t in \<open>auto elim!: store_okE\<close>)
  let ?i = "if index = -1 then f else index"
  have "in_i32 ?i" "?i \<noteq> -1" using f room index by (auto simp: in_i32_def INT_MIN_def)
  with ok k(1) t have "store_ok L (ks\<lparr>ks_aes := Table (t(?i \<mapsto> ?k))\<rparr>)" by (intro store_ok_aes)
  moreover have "aes_generate_key C (Some block) rand keylen index ks =
      Some (NYX_ERROR_NONE, ?i, ks\<lparr>ks_aes := Table (t(?i \<mapsto> ?k))\<rparr>)"
    using keylen max f(1) by (simp add: aes_generate_key_def sd rand bs block write_at_0 t)
  ultimately show ?thesis using f least k(2) by (intro that [of ?i ?k]) auto
qed

text \<open>
  C32: Creating an AES key of a supported length at a free index, with random bytes at hand, always
  succeeds while there are fewer than 2^31 keys. The key goes to the least free index from 0 on,
  which is at most the number of keys; it has the random bytes, no other key is touched, and the
  store stays well formed.
\<close>

theorem security_create_key_first_free:
  assumes L: "store_lib_ok L" and ok: "store_ok L (sec_store s)" and t: "ks_aes (sec_store s) = Table t"
    and room: "int (card (dom t)) \<le> INT_MAX"
    and keylen: "aes_supported_keylength C keylen"
    and block: "length block = EVP_MAX_KEY_LENGTH L"
    and rand: "rand (nat (keylen div 8)) = (1, bs)" and bs: "length bs = nat (keylen div 8)"
  shows "\<exists>i k s'. security_create_aes_key C (Some block) rand d keylen (-1) s = Some (NYX_ERROR_NONE, i, s') \<and>
    0 \<le> i \<and> i \<le> int (card (dom t)) \<and> t i = None \<and> (\<forall>j. 0 \<le> j \<and> j < i \<longrightarrow> t j \<noteq> None) \<and>
    aes_view k = (keylen, bs) \<and> sec_store s' = (sec_store s)\<lparr>ks_aes := Table (t(i \<mapsto> k))\<rparr> \<and>
    store_ok L (sec_store s')"
proof -
  have "in_i32 (-1)" by (simp add: in_i32_def INT_MIN_def INT_MAX_def)
  obtain i k where g: "aes_generate_key C (Some block) rand keylen (-1) (sec_store s) =
      Some (NYX_ERROR_NONE, i, (sec_store s)\<lparr>ks_aes := Table (t(i \<mapsto> k))\<rparr>)"
    and i: "if (-1 :: int) = -1 then 0 \<le> i \<and> i \<le> int (card (dom t)) \<and> t i = None \<and> (\<forall>j. 0 \<le> j \<and> j < i \<longrightarrow> t j \<noteq> None)
      else i = -1"
    and k: "aes_view k = (keylen, bs)" "store_ok L ((sec_store s)\<lparr>ks_aes := Table (t(i \<mapsto> k))\<rparr>)"
    using generate_aes_key [where rand = rand, OF L ok t room keylen block rand bs \<open>in_i32 (-1)\<close>] by metis
  have "security_create_aes_key C (Some block) rand d keylen (-1) s = Some (NYX_ERROR_NONE, i,
      s\<lparr>sec_store := (sec_store s)\<lparr>ks_aes := Table (t(i \<mapsto> k))\<rparr>\<rparr>)"
    by (simp add: security_create_aes_key_def g)
  with i k show ?thesis by (intro exI [of _ i] exI [of _ k] exI conjI) (assumption | simp)+
qed

text \<open>
  Keys stored one after the other at indices of the table's choice get different indices that
  were all free before; each is found at its index afterwards, and no key that was there changes.
\<close>

theorem security_new_keys_distinct:
  assumes "table_ok T" and "store.store_new T ks = Some (T', rs)"
  shows "table_ok T' \<and> length rs = length ks \<and> distinct rs \<and>
    (\<forall>r \<in> set rs. keystore_key_lookup T r = Some None) \<and>
    (\<forall>n < length ks. keystore_key_lookup T' (rs ! n) = Some (Some (ks ! n))) \<and>
    (\<forall>j. j \<notin> set rs \<longrightarrow> keystore_key_lookup T' j = keystore_key_lookup T j)"
  using assms by (rule store.store_new_spec)

section \<open>Closing and opening again\<close>

lemma reloaded_cipher_key:
  assumes "store_lib_ok L" and "aes_key_ok L k" and "aes_algo_data_lookup C (aes_keylen k) mode = Some algo"
  shows "cipher_key (algo_cipher algo) (aes_bytes (reloaded L block k)) = cipher_key (algo_cipher algo) (aes_bytes k)"
  using assms(2,3) store_lib_okD(9) [OF assms(1)]
  by (auto simp: aes_lookup_Some aes_key_ok_def reloaded_def)

lemma reloaded_keylen [simp]: "aes_keylen (reloaded L block k) = aes_keylen k"
  by (simp add: reloaded_def Let_def)

text \<open>No client can tell the reloaded store from the old one.\<close>

lemma reloaded_crypt:
  assumes L: "store_lib_ok L" and ok: "store_ok L ks" and T: "ks_aes ks = Table a" "ks_rsa ks = Table r"
  shows "aes_crypt C rand (reloaded_store L mem a r) index enc mode src srclen dest destlen ivlen =
      aes_crypt C rand ks index enc mode src srclen dest destlen ivlen"
    and "rsa_crypt R seed (reloaded_store L mem a r) index enc src srclen dest destlen =
      rsa_crypt R seed ks index enc src srclen dest destlen"
proof -
  show "rsa_crypt R seed (reloaded_store L mem a r) index enc src srclen dest destlen =
      rsa_crypt R seed ks index enc src srclen dest destlen"
    by (simp add: rsa_crypt_def reloaded_store_def T)
  show "aes_crypt C rand (reloaded_store L mem a r) index enc mode src srclen dest destlen ivlen =
      aes_crypt C rand ks index enc mode src srclen dest destlen ivlen"
  proof (cases "a index")
    case None
    then show ?thesis by (simp add: aes_crypt_def reloaded_store_def T)
  next
    case (Some k)
    with ok T have k: "aes_key_ok L k" by (auto elim!: store_okE)
    show ?thesis
    proof (cases "aes_algo_data_lookup C (aes_keylen k) mode")
      case None
      with Some show ?thesis by (simp add: aes_crypt_def reloaded_store_def T)
    next
      case algo: (Some algo)
      show ?thesis
        using Some algo reloaded_cipher_key [OF L k algo]
        by (simp add: aes_crypt_def reloaded_store_def T)
    qed
  qed
qed

lemma foreach_defined:
  "(\<And>i v a. t i = Some v \<Longrightarrow> f i v a \<noteq> None) \<Longrightarrow> table_foreach f t order a \<noteq> None"
proof (induction order arbitrary: a)
  case (Cons i order)
  show ?case
  proof (cases "t i")
    case (Some v)
    then obtain b where "f i v a = Some b" using Cons.prems by blast
    with Some Cons.IH [of b] Cons.prems show ?thesis by simp
  qed (use Cons in simp)
qed simp

lemma dump_defined:
  assumes ok: "store_ok L ks" and T: "ks_aes ks = Table a" "ks_rsa ks = Table r"
  shows "keystore_dump pem ao ro ks \<noteq> None"
proof -
  have "aeskey_hexdump i k out \<noteq> None" if "a i = Some k" for i k out
  proof -
    have "aes_key_ok L k" using ok T that by (auto elim!: store_okE)
    then show ?thesis by (elim aes_key_okE) (simp add: aeskey_hexdump_def sdiv_nonneg Let_def)
  qed
  then have "table_foreach aeskey_hexdump a ao [] \<noteq> None" by (rule foreach_defined)
  moreover have "table_foreach (rsakey_hexdump pem) r ro out \<noteq> None" for out
    by (rule foreach_defined) (simp add: rsakey_hexdump_def)
  ultimately show ?thesis by (auto simp: keystore_dump_def T)
qed

lemma reloaded_store_ok:
  assumes ok: "store_ok L ks" and T: "ks_aes ks = Table a" "ks_rsa ks = Table r"
    and mem: "\<And>k. EVP_MAX_KEY_LENGTH L \<le> length (mem k)"
  shows "store_ok L (reloaded_store L mem a r)"
proof -
  have "dom (\<lambda>i. map_option (reloaded L (mem (print_int i))) (a i)) = dom a" by auto
  with ok T reloaded_ok [OF _ mem] show ?thesis
    by (auto elim!: store_okE simp: store_ok_def reloaded_store_def)
qed

text \<open>
  C29: Closing the module and opening it again restores the keys, whatever the order in which the
  tables are enumerated: both succeed, the new store is well formed, and every AES or RSA operation
  at every index answers exactly as it would have before.
\<close>

theorem security_reopen_roundtrip:
  assumes L: "store_lib_ok L" and ok: "store_ok L (sec_store s)"
    and o: "enumerates ao (table_map (ks_aes (sec_store s)))" "enumerates ro (table_map (ks_rsa (sec_store s)))"
    and mem: "\<And>k. EVP_MAX_KEY_LENGTH L \<le> length (mem k)"
    and regs: "register_methods regs = NYX_ERROR_NONE" and dev: "dev \<noteq> NULL"
  shows "\<exists>out file' s1 s2. security_module_close L pem ao ro True True file s = Some (NYX_ERROR_NONE, out, file', s1) \<and>
    security_module_open L dev regs True True mem file' (Some NULL) s1 = Some (NYX_ERROR_NONE, Some dev, s2) \<and>
    store_ok L (sec_store s2) \<and>
    (\<forall>C rand d index mode enc src srclen dest destlen ivlen.
       security_aes_crypt C rand d index mode enc src srclen dest destlen ivlen s2 =
       security_aes_crypt C rand d index mode enc src srclen dest destlen ivlen s) \<and>
    (\<forall>R seed d index enc src srclen dest destlen.
       security_rsa_crypt R seed d index enc src srclen dest destlen s2 =
       security_rsa_crypt R seed d index enc src srclen dest destlen s)"
proof -
  from ok obtain a r where T: "ks_aes (sec_store s) = Table a" "ks_rsa (sec_store s) = Table r"
    by (auto elim!: store_okE)
  have e: "enumerates ao a" "enumerates ro r" using o by (simp_all add: T)
  obtain data where save: "keystore_save L ao ro True True (sec_store s) file = Some (Some data)"
    and load: "keystore_load L mem (Some data) \<lparr>ks_aes = Table Map.empty, ks_rsa = Table Map.empty\<rparr> =
      Some (NYX_ERROR_NONE, reloaded_store L mem a r)"
    by (rule save_load [OF L ok T e])
  obtain out where dump: "keystore_dump pem ao ro (sec_store s) = Some out"
    using dump_defined [OF ok T] by blast
  let ?s1 = "s\<lparr>sec_store := (sec_store s)\<lparr>ks_aes := Freed_Table, ks_rsa := Freed_Table\<rparr>\<rparr>"
  let ?s2 = "s\<lparr>sec_store := reloaded_store L mem a r\<rparr>"
  have "security_module_close L pem ao ro True True file s = Some (NYX_ERROR_NONE, out, Some data, ?s1)"
    by (simp add: security_module_close_def dump save keystore_destroy_def T)
  moreover have "keystore_init True True (sec_store ?s1) =
      (NYX_ERROR_NONE, \<lparr>ks_aes = Table Map.empty, ks_rsa = Table Map.empty\<rparr>)"
    by (cases "sec_store s") (simp add: keystore_init_def)
  then have "security_module_open L dev regs True True mem (Some data) (Some NULL) ?s1 =
      Some (NYX_ERROR_NONE, Some dev, ?s2)"
    using regs dev load by (simp add: security_module_open_def)
  ultimately show ?thesis
    using reloaded_store_ok [OF ok T mem] reloaded_crypt [OF L ok T]
    by (intro exI [of _ out] exI [of _ "Some data"] exI [of _ ?s1] exI [of _ ?s2])
      (simp add: security_aes_crypt_def security_rsa_crypt_def)
qed

section \<open>Encryption\<close>

lemma write_at_Some:
  "write_at buf off bs = Some buf' \<longleftrightarrow>
    off + length bs \<le> length buf \<and> buf' = take off buf @ bs @ drop (off + length bs) buf"
  by (auto simp: write_at_def)

lemma write_at_drop:
  assumes "write_at buf off bs = Some buf'" and "off + length bs \<le> k"
  shows "drop k buf' = drop k buf"
proof -
  from assms(2) obtain j where "k = off + length bs + j" by (metis le_Suc_ex)
  then show ?thesis using assms(1) by (simp add: write_at_Some min_absorb2 add_ac)
qed

text \<open>Of two writes one behind the other the second may overwrite the end of the first.\<close>

lemma write_at_two:
  assumes "write_at buf off w1 = Some b1" and "write_at b1 (off + n1) w2 = Some b2"
    and n: "n1 \<le> length w1" "n2 \<le> length w2"
  obtains rest where "b2 = take off buf @ take n1 w1 @ take n2 w2 @ rest" and "length b2 = length buf"
    and "drop (max (off + length w1) (off + n1 + length w2)) b2 = drop (max (off + length w1) (off + n1 + length w2)) buf"
proof -
  have b1: "off + length w1 \<le> length buf" "b1 = take off buf @ w1 @ drop (off + length w1) buf"
    and b2: "off + n1 + length w2 \<le> length b1" "b2 = take (off + n1) b1 @ w2 @ drop (off + n1 + length w2) b1"
    using assms(1,2) by (auto simp: write_at_Some)
  have t: "take (off + n1) b1 = take off buf @ take n1 w1" using b1 n(1) by (simp add: min_absorb2)
  have len: "length b1 = length buf" using b1 by simp
  show ?thesis
  proof (rule that)
    show "b2 = take off buf @ take n1 w1 @ take n2 w2 @ (drop n2 w2 @ drop (off + n1 + length w2) b1)"
      using b2(2) t by simp
    show "length b2 = length buf" using b2 len n(1) by simp
    show "drop (max (off + length w1) (off + n1 + length w2)) b2 = drop (max (off + length w1) (off + n1 + length w2)) buf"
      using write_at_drop [OF assms(1)] write_at_drop [OF assms(2)] by simp
  qed
qed

lemma write_at_room:
  assumes "off + length w1 \<le> length buf" and "off + n1 + length w2 \<le> length buf"
  obtains b1 b2 where "write_at buf off w1 = Some b1" and "write_at b1 (off + n1) w2 = Some b2"
  using assms by (auto simp: write_at_def min_absorb2)

text \<open>
  What OpenSSL documents of its block ciphers, whose blocks are of 16 bytes: how many bytes the two
  functions may write; that encryption pads by at most a block, and at least a byte; and that
  decrypting with the key and IV of an encryption gives the source back.
\<close>

definition cipher_lib_ok :: "cipher_lib \<Rightarrow> bool" where
  "cipher_lib_ok C \<longleftrightarrow> (\<forall>c key iv p w1 n1 w2 n2.
     cipher_update C c True key iv p (int (length p)) = Some (w1, n1) \<and>
     cipher_final C c True key iv p (int (length p)) = Some (w2, n2) \<longrightarrow>
     n1 \<le> length w1 \<and> length w1 \<le> length p + 15 \<and> n2 \<le> length w2 \<and> length w2 \<le> 16 \<and>
     length p < n1 + n2 \<and> n1 + n2 \<le> length p + 16 \<and>
     (let e = take n1 w1 @ take n2 w2 in
      \<exists>d1 m1 d2 m2. cipher_update C c False key iv e (int (length e)) = Some (d1, m1) \<and>
        cipher_final C c False key iv e (int (length e)) = Some (d2, m2) \<and>
        m1 \<le> length d1 \<and> length d1 \<le> length e + 16 \<and> m2 \<le> length d2 \<and> length d2 \<le> 16 \<and>
        take m1 d1 @ take m2 d2 = p))"

lemma cipher_lib_okD:
  assumes "cipher_lib_ok C" and "cipher_update C c True key iv p (int (length p)) = Some (w1, n1)"
    and "cipher_final C c True key iv p (int (length p)) = Some (w2, n2)"
  shows "n1 \<le> length w1" "length w1 \<le> length p + 15" "n2 \<le> length w2" "length w2 \<le> 16" "length p < n1 + n2" "n1 + n2 \<le> length p + 16"
    and "\<exists>d1 m1 d2 m2. cipher_update C c False key iv (take n1 w1 @ take n2 w2) (int (n1 + n2)) = Some (d1, m1) \<and>
        cipher_final C c False key iv (take n1 w1 @ take n2 w2) (int (n1 + n2)) = Some (d2, m2) \<and>
        m1 \<le> length d1 \<and> length d1 \<le> n1 + n2 + 16 \<and> m2 \<le> length d2 \<and> length d2 \<le> 16 \<and> take m1 d1 @ take m2 d2 = p"
proof -
  note H = assms(1) [unfolded cipher_lib_ok_def, rule_format, OF conjI, OF assms(2,3)]
  then show "n1 \<le> length w1" "length w1 \<le> length p + 15" "n2 \<le> length w2" "length w2 \<le> 16" "length p < n1 + n2" "n1 + n2 \<le> length p + 16"
    by (simp_all add: Let_def)
  with H show "\<exists>d1 m1 d2 m2. cipher_update C c False key iv (take n1 w1 @ take n2 w2) (int (n1 + n2)) = Some (d1, m1) \<and>
        cipher_final C c False key iv (take n1 w1 @ take n2 w2) (int (n1 + n2)) = Some (d2, m2) \<and>
        m1 \<le> length d1 \<and> length d1 \<le> n1 + n2 + 16 \<and> m2 \<le> length d2 \<and> length d2 \<le> 16 \<and> take m1 d1 @ take m2 d2 = p"
    by (simp add: Let_def min_absorb2)
qed

lemma aes_run_success:
  assumes "aes_run C c enc key iv src (int (length src)) dest off dl = Some (NYX_ERROR_NONE, d, n)"
  obtains w1 n1 w2 n2 b1 where "cipher_update C c enc key iv src (int (length src)) = Some (w1, n1)"
    and "cipher_final C c enc key iv src (int (length src)) = Some (w2, n2)"
    and "write_at dest off w1 = Some b1" and "write_at b1 (off + n1) w2 = Some d" and "n = int (n1 + n2 + off)"
  using assms by (fastforce simp: aes_run_def split: option.splits elim!: bind_eq_SomeE)

lemma aes_run_ok:
  assumes "cipher_update C c enc key iv src (int (length src)) = Some (w1, n1)"
    and "cipher_final C c enc key iv src (int (length src)) = Some (w2, n2)"
    and "write_at dest off w1 = Some b1" and "write_at b1 (off + n1) w2 = Some d"
  shows "aes_run C c enc key iv src (int (length src)) dest off dl = Some (NYX_ERROR_NONE, d, int (n1 + n2 + off))"
  using assms by (simp add: aes_run_def)

lemma aes_encrypt_success:
  assumes C: "cipher_lib_ok C"
    and enc: "security_aes_crypt C rand d index mode True src (int (length src)) dest dl ivlen s
      = Some (NYX_ERROR_NONE, out, n, ivn)"
    and iv: "length (snd (rand AES_BLOCK_SIZE)) = AES_BLOCK_SIZE"
  obtains k algo w1 n1 w2 n2 rest where "keystore_key_lookup (ks_aes (sec_store s)) index = Some (Some k)"
    and "aes_algo_data_lookup C (aes_keylen k) mode = Some algo" and "ivn = int AES_BLOCK_SIZE"
    and "cipher_update C (algo_cipher algo) True (cipher_key (algo_cipher algo) (aes_bytes k))
        (snd (rand AES_BLOCK_SIZE)) src (int (length src)) = Some (w1, n1)"
    and "cipher_final C (algo_cipher algo) True (cipher_key (algo_cipher algo) (aes_bytes k))
        (snd (rand AES_BLOCK_SIZE)) src (int (length src)) = Some (w2, n2)"
    and "out = snd (rand AES_BLOCK_SIZE) @ take n1 w1 @ take n2 w2 @ rest"
    and "n = int (n1 + n2 + AES_BLOCK_SIZE)"
proof -
  obtain k algo where k: "keystore_key_lookup (ks_aes (sec_store s)) index = Some (Some k)"
    and a: "aes_algo_data_lookup C (aes_keylen k) mode = Some algo"
    using enc by (auto simp: security_aes_crypt_def aes_crypt_def split: option.splits elim!: bind_eq_SomeE)
  obtain d0 where w: "write_at dest 0 (snd (rand AES_BLOCK_SIZE)) = Some d0" and ivn: "ivn = int AES_BLOCK_SIZE"
    and r: "aes_run C (algo_cipher algo) True (cipher_key (algo_cipher algo) (aes_bytes k)) (snd (rand AES_BLOCK_SIZE))
      src (int (length src)) d0 AES_BLOCK_SIZE dl = Some (NYX_ERROR_NONE, out, n)"
    using enc
    by (auto simp: security_aes_crypt_def aes_crypt_def k a Let_def split: prod.splits if_splits elim!: bind_eq_SomeE)
  obtain w1 n1 w2 n2 b1 where u: "cipher_update C (algo_cipher algo) True (cipher_key (algo_cipher algo) (aes_bytes k))
        (snd (rand AES_BLOCK_SIZE)) src (int (length src)) = Some (w1, n1)"
    and f: "cipher_final C (algo_cipher algo) True (cipher_key (algo_cipher algo) (aes_bytes k))
        (snd (rand AES_BLOCK_SIZE)) src (int (length src)) = Some (w2, n2)"
    and b: "write_at d0 AES_BLOCK_SIZE w1 = Some b1" "write_at b1 (AES_BLOCK_SIZE + n1) w2 = Some out"
    and n: "n = int (n1 + n2 + AES_BLOCK_SIZE)"
    by (rule aes_run_success [OF r])
  obtain rest where "out = take AES_BLOCK_SIZE d0 @ take n1 w1 @ take n2 w2 @ rest"
    by (rule write_at_two [OF b cipher_lib_okD(1,3) [OF C u f]])
  moreover have "take AES_BLOCK_SIZE d0 = snd (rand AES_BLOCK_SIZE)" using w iv by (simp add: write_at_Some)
  ultimately show ?thesis using that [OF k a ivn u f _ n] by simp
qed

text \<open>Whatever follows the encrypted bytes in the buffer is not looked at.\<close>

lemma aes_run_prefix:
  "aes_run C c enc key iv (src @ rest) (int (length src)) dest off dl =
   aes_run C c enc key iv src (int (length src)) dest off dl"
proof -
  have t: "take (nat (int (length src))) (src @ rest) = src" "take (nat (int (length src))) src = src" by simp_all
  show ?thesis unfolding aes_run_def t by simp
qed

text \<open>
  The room that decryption needs: the encrypted bytes and one more block. Behind that nothing is
  touched; between it and the plain text nothing is said of the bytes.
\<close>

lemma aes_decrypts:
  assumes C: "cipher_lib_ok C" and iv: "length iv = AES_BLOCK_SIZE"
    and k: "keystore_key_lookup (ks_aes ks) index = Some (Some k)"
    and a: "aes_algo_data_lookup C (aes_keylen k) mode = Some algo"
    and u: "cipher_update C (algo_cipher algo) True (cipher_key (algo_cipher algo) (aes_bytes k)) iv src (int (length src)) = Some (w1, n1)"
    and f: "cipher_final C (algo_cipher algo) True (cipher_key (algo_cipher algo) (aes_bytes k)) iv src (int (length src)) = Some (w2, n2)"
    and room: "n1 + n2 + 16 \<le> length dest"
  shows "\<exists>pad. aes_crypt C rand ks index False mode (iv @ (take n1 w1 @ take n2 w2) @ rest) (int (n1 + n2 + AES_BLOCK_SIZE))
    dest dl (int AES_BLOCK_SIZE) = Some (NYX_ERROR_NONE, src @ pad, int (length src), int AES_BLOCK_SIZE) \<and>
    length (src @ pad) = length dest \<and> drop (n1 + n2 + 16) (src @ pad) = drop (n1 + n2 + 16) dest"
proof -
  let ?e = "take n1 w1 @ take n2 w2"
  note law = cipher_lib_okD [OF C u f]
  obtain d1 m1 d2 m2 where d: "cipher_update C (algo_cipher algo) False (cipher_key (algo_cipher algo) (aes_bytes k)) iv
        ?e (int (n1 + n2)) = Some (d1, m1)"
      "cipher_final C (algo_cipher algo) False (cipher_key (algo_cipher algo) (aes_bytes k)) iv ?e (int (n1 + n2)) = Some (d2, m2)"
      "m1 \<le> length d1" "length d1 \<le> n1 + n2 + 16" "m2 \<le> length d2" "length d2 \<le> 16" "take m1 d1 @ take m2 d2 = src"
    using law(7) by blast
  have e: "length ?e = n1 + n2" using law(1,3) by (simp add: min_absorb2)
  have src: "m1 + m2 = length src" using d(3,5,7) by (auto simp: min_absorb2)
  have "m1 \<le> n1 + n2" using src law(5) by simp
  then obtain b1 b2 where b: "write_at dest 0 d1 = Some b1" "write_at b1 (0 + m1) d2 = Some b2"
    using write_at_room [of 0 d1 dest m1 d2] d(4,6) room by auto
  obtain pad where pad: "b2 = take 0 dest @ take m1 d1 @ take m2 d2 @ pad" "length b2 = length dest"
    "drop (max (0 + length d1) (0 + m1 + length d2)) b2 = drop (max (0 + length d1) (0 + m1 + length d2)) dest"
    by (rule write_at_two [OF b d(3,5)])
  have b2: "b2 = src @ pad" using pad(1) d(7) by simp
  have "max (length d1) (m1 + length d2) \<le> n1 + n2 + 16" using d(4,6) \<open>m1 \<le> n1 + n2\<close> by simp
  then obtain r where r: "n1 + n2 + 16 = r + max (length d1) (m1 + length d2)" by (metis add.commute le_Suc_ex)
  have rest: "drop (n1 + n2 + 16) (src @ pad) = drop (n1 + n2 + 16) dest"
    using pad(3) unfolding r b2 [symmetric] by (simp flip: drop_drop)
  have "aes_run C (algo_cipher algo) False (cipher_key (algo_cipher algo) (aes_bytes k)) iv
      (?e @ rest) (int (length ?e)) dest 0 dl = Some (NYX_ERROR_NONE, src @ pad, int (length src))"
    unfolding aes_run_prefix
    using aes_run_ok [of C "algo_cipher algo" False _ iv ?e, unfolded e, OF d(1,2) b] law(1,3) by (simp add: min_absorb2 b2 src)
  then have "aes_crypt C rand ks index False mode (iv @ ?e @ rest) (int (n1 + n2 + AES_BLOCK_SIZE))
    dest dl (int AES_BLOCK_SIZE) = Some (NYX_ERROR_NONE, src @ pad, int (length src), int AES_BLOCK_SIZE)"
    using iv unfolding e by (simp add: aes_crypt_def k a)
  with pad(2) rest b2 show ?thesis by auto
qed

text \<open>
  C33: What an AES encryption writes, IV included, decrypts with the same key, at any later time the
  key is still there, to the bytes that were encrypted; the IV takes the first 16 bytes. The
  destination of the decryption has to be as long as the encrypted bytes with their IV, which is
  what OpenSSL asks for: it may write its padding and more behind the plain text, but nothing beyond.
\<close>

theorem security_aes_roundtrip:
  assumes C: "cipher_lib_ok C" and iv: "length (snd (rand AES_BLOCK_SIZE)) = AES_BLOCK_SIZE"
    and enc: "security_aes_crypt C rand d index mode True src (int (length src)) dest dl ivlen s
      = Some (NYX_ERROR_NONE, out, n, ivn)"
    and same: "keystore_key_lookup (ks_aes (sec_store s')) index = keystore_key_lookup (ks_aes (sec_store s)) index"
    and room: "n \<le> int (length dest')"
  shows "ivn = 16 \<and> int (length src) + 16 < n \<and> n \<le> int (length src) + 32 \<and>
    (\<exists>pad. security_aes_crypt C rand' d' index mode False (take (nat n) out) n dest' dl' ivn s'
      = Some (NYX_ERROR_NONE, src @ pad, int (length src), 16) \<and>
      length (src @ pad) = length dest' \<and> drop (nat n) (src @ pad) = drop (nat n) dest')"
proof -
  obtain k algo w1 n1 w2 n2 rest where k: "keystore_key_lookup (ks_aes (sec_store s)) index = Some (Some k)"
    and a: "aes_algo_data_lookup C (aes_keylen k) mode = Some algo" and ivn: "ivn = int AES_BLOCK_SIZE"
    and u: "cipher_update C (algo_cipher algo) True (cipher_key (algo_cipher algo) (aes_bytes k))
        (snd (rand AES_BLOCK_SIZE)) src (int (length src)) = Some (w1, n1)"
    and f: "cipher_final C (algo_cipher algo) True (cipher_key (algo_cipher algo) (aes_bytes k))
        (snd (rand AES_BLOCK_SIZE)) src (int (length src)) = Some (w2, n2)"
    and out: "out = snd (rand AES_BLOCK_SIZE) @ take n1 w1 @ take n2 w2 @ rest"
    and n: "n = int (n1 + n2 + AES_BLOCK_SIZE)"
    by (rule aes_encrypt_success [OF C enc iv])
  note law = cipher_lib_okD [OF C u f]
  have src: "take (nat n) out = snd (rand AES_BLOCK_SIZE) @ (take n1 w1 @ take n2 w2) @ []"
  proof -
    have "nat n = AES_BLOCK_SIZE + (n1 + n2)" unfolding n by simp
    then show ?thesis using iv law(1,3) by (simp add: out)
  qed
  have "n1 + n2 + 16 \<le> length dest'" using room by (simp add: n AES_BLOCK_SIZE_def)
  from aes_decrypts [OF C iv _ a u f this, of "sec_store s'" index rand' "[]" dl'] k same
  have "\<exists>pad. security_aes_crypt C rand' d' index mode False (take (nat n) out) n dest' dl' ivn s'
      = Some (NYX_ERROR_NONE, src @ pad, int (length src), int AES_BLOCK_SIZE) \<and>
      length (src @ pad) = length dest' \<and> drop (n1 + n2 + 16) (src @ pad) = drop (n1 + n2 + 16) dest'"
    unfolding security_aes_crypt_def src ivn unfolding n by simp
  moreover have "n1 + n2 + 16 = nat n" unfolding n AES_BLOCK_SIZE_def by simp
  ultimately have "\<exists>pad. security_aes_crypt C rand' d' index mode False (take (nat n) out) n dest' dl' ivn s'
      = Some (NYX_ERROR_NONE, src @ pad, int (length src), 16) \<and>
      length (src @ pad) = length dest' \<and> drop (nat n) (src @ pad) = drop (nat n) dest'"
    by (simp only: AES_BLOCK_SIZE_def of_nat_numeral)
  then show ?thesis using law(5,6) by (simp add: n ivn AES_BLOCK_SIZE_def)
qed

definition rsa_lib_ok :: "'r rsa_lib \<Rightarrow> bool" where
  "rsa_lib_ok R \<longleftrightarrow> (\<forall>seed r p c. rsa_public_encrypt R seed r p = Some c \<longrightarrow> rsa_private_decrypt R r c = Some p)"

text \<open>
  C34: RSA encryption refuses exactly the sources that are not more than 41 bytes shorter than the key,
  leaving the destination alone; what it does encrypt decrypts to the source.
\<close>

theorem security_rsa_roundtrip:
  assumes R: "rsa_lib_ok R" and k: "keystore_key_lookup (ks_rsa (sec_store s)) index = Some (Some k)"
    and src: "int (length src) < RSA_size R (rsa_rsa k) - 41 \<Longrightarrow> rsa_public_encrypt R seed (rsa_rsa k) src = Some c"
    and room: "length c \<le> length dest" "length src \<le> length dest'"
  shows "if int (length src) < RSA_size R (rsa_rsa k) - 41 then
      security_rsa_crypt R seed d index True src (int (length src)) dest dl s
        = Some (NYX_ERROR_NONE, c @ drop (length c) dest, int (length c)) \<and>
      security_rsa_crypt R seed' d index False c (int (length c)) dest' dl' s
        = Some (NYX_ERROR_NONE, src @ drop (length src) dest', int (length src))
    else security_rsa_crypt R seed d index True src (int (length src)) dest dl s
        = Some (NYX_ERROR_INVALID_VALUE, dest, dl)"
proof (cases "int (length src) < RSA_size R (rsa_rsa k) - 41")
  case True
  then have e: "rsa_public_encrypt R seed (rsa_rsa k) src = Some c" by (rule src)
  then have "rsa_private_decrypt R (rsa_rsa k) c = Some src" using R unfolding rsa_lib_ok_def by blast
  with True e room show ?thesis by (simp add: security_rsa_crypt_def rsa_crypt_def k write_at_0)
next
  case False
  then show ?thesis by (simp add: security_rsa_crypt_def rsa_crypt_def k)
qed

text \<open>
  A failed RSA key generation goes unnoticed: RSA_generate_key_ex reports failure as 0, the code
  tests for -1, so the empty key object is stored under an index and the call reports success.
\<close>

theorem security_rsa_generate_failure_stored:
  assumes "ks_rsa (sec_store s) = Table t" and "keylen = 2048 \<or> keylen = 4096" and "index \<noteq> -1"
  shows "\<exists>s'. security_create_rsa_key True (0, r) d keylen index s = Some (NYX_ERROR_NONE, index, s') \<and>
    keystore_key_lookup (ks_rsa (sec_store s')) index = Some (Some \<lparr>rsa_keylen = keylen, rsa_rsa = r\<rparr>) \<and>
    security_create_rsa_key True (-1, r) d keylen index s = Some (NYX_ERROR_GENERIC, index, s)"
  using assms by (auto simp: security_create_rsa_key_def rsa_generate_key_def)

section \<open>Digests\<close>

text \<open>
  The contexts the code can reach: calls of the three functions in any order, with any results of
  OpenSSL; a context that is created is new.
\<close>

inductive sha_reach :: "'h md_lib \<Rightarrow> 'h sha \<Rightarrow> bool" for H where
  start: "sha_reach H sha_start"
| init: "sha_reach H s \<Longrightarrow> mdctxs s ctx = None \<Longrightarrow> sha_init H ctx ret name s = Some (r, s') \<Longrightarrow> sha_reach H s'"
| update: "sha_reach H s \<Longrightarrow> sha_update H ret src s = Some (r, s') \<Longrightarrow> sha_reach H s'"
| finalize: "sha_reach H s \<Longrightarrow> sha_finalize H ret dest destlen s = Some (r, dest', n, s') \<Longrightarrow> sha_reach H s'"

definition sha_ok :: "'h sha \<Rightarrow> bool" where
  "sha_ok s \<longleftrightarrow> dom (mdctxs s) = (if running_mdctx s = NULL then {} else {running_mdctx s})"

lemma sha_init_ok:
  assumes "sha_ok s" and "sha_init H ctx ret name s = Some (r, s')"
  shows "sha_ok s'"
  using assms
  by (auto simp: sha_init_def sha_ok_def mdctx_destroy_def split: option.splits if_splits elim!: bind_eq_SomeE)

lemma sha_update_ok:
  assumes "sha_ok s" and "sha_update H ret src s = Some (r, s')"
  shows "sha_ok s'"
  using assms by (auto simp: sha_update_def sha_ok_def split: option.splits if_splits)

lemma dom_singleton_upd: "dom m = {p} \<Longrightarrow> m(p := None) = Map.empty"
  by (auto simp: fun_eq_iff domIff)

lemma sha_finalize_ok:
  assumes "sha_ok s" and "sha_finalize H ret dest destlen s = Some (r, dest', n, s')"
  shows "sha_ok s'"
  using assms
  by (auto simp: sha_finalize_def sha_ok_def mdctx_destroy_def dom_singleton_upd split: option.splits if_splits elim!: bind_eq_SomeE)

lemma sha_reach_ok: "sha_reach H s \<Longrightarrow> sha_ok s"
proof (induction rule: sha_reach.induct)
  case start
  then show ?case by (simp add: sha_ok_def sha_start_def)
qed (auto intro: sha_init_ok sha_update_ok sha_finalize_ok)

lemma sha_init_defined:
  assumes "sha_ok s" and "ctx \<noteq> NULL" and "sha_algo_data_lookup H name = Some algo"
  obtains s' where "sha_init H ctx 1 name s = Some (NYX_ERROR_NONE, s')" and "running_mdctx s' = ctx"
    and "mdctxs s' ctx = Some (Some (md_init H algo))"
proof -
  have "running_mdctx s \<noteq> NULL \<Longrightarrow> mdctxs s (running_mdctx s) \<noteq> None"
    using assms(1) by (auto simp: sha_ok_def domIff split: if_splits)
  with assms(2,3) that show ?thesis
    by (cases "running_mdctx s = NULL") (fastforce simp: sha_init_def mdctx_destroy_def)+
qed

text \<open>
  C35: The digest functions neither leak a context nor use one that is gone: whatever is called and
  whatever fails, the only context that exists is the running one, and a new digest can always be
  started.
\<close>

theorem security_digest_contexts:
  assumes "sha_reach H s"
  shows "dom (mdctxs s) = (if running_mdctx s = NULL then {} else {running_mdctx s}) \<and>
    (\<forall>name algo ctx. sha_algo_data_lookup H name = Some algo \<and> ctx \<noteq> NULL \<longrightarrow>
      (\<exists>s'. sha_init H ctx 1 name s = Some (NYX_ERROR_NONE, s') \<and> running_mdctx s' = ctx))"
proof -
  note ok = sha_reach_ok [OF assms]
  show ?thesis using ok sha_init_defined [OF ok] unfolding sha_ok_def by metis
qed

text \<open>A digest over several parts.\<close>

fun update_all :: "'h md_lib \<Rightarrow> ptr \<Rightarrow> u8 list list \<Rightarrow> ('r, 'h) security \<Rightarrow> ('r, 'h) security option" where
  "update_all H d [] s = Some s"
| "update_all H d (m # ms) s =
     (case security_update_hash H 1 d m s of
        Some (NYX_ERROR_NONE, s') \<Rightarrow> update_all H d ms s'
      | _ \<Rightarrow> None)"

definition md_lib_ok :: "'h md_lib \<Rightarrow> bool" where
  "md_lib_ok H \<longleftrightarrow> (\<forall>h. md_update H h [] = h) \<and>
     (\<forall>h x y. md_update H (md_update H h x) y = md_update H h (x @ y))"

lemma update_all_ok:
  assumes H: "md_lib_ok H"
  shows "running_mdctx (sec_sha s) = ctx \<Longrightarrow> ctx \<noteq> NULL \<Longrightarrow> mdctxs (sec_sha s) ctx = Some (Some h) \<Longrightarrow>
    \<exists>s'. update_all H d ms s = Some s' \<and> running_mdctx (sec_sha s') = ctx \<and>
      mdctxs (sec_sha s') ctx = Some (Some (md_update H h (concat ms)))"
proof (induction ms arbitrary: s h)
  case Nil
  then show ?case using H by (simp add: md_lib_ok_def)
next
  case (Cons m ms)
  let ?s = "s\<lparr>sec_sha := (sec_sha s)\<lparr>mdctxs := (mdctxs (sec_sha s))(ctx \<mapsto> Some (md_update H h m))\<rparr>\<rparr>"
  have u: "security_update_hash H 1 d m s = Some (NYX_ERROR_NONE, ?s)"
    using Cons.prems by (simp add: security_update_hash_def sha_update_def)
  show ?case using Cons.IH [of ?s "md_update H h m"] Cons.prems u H by (simp add: md_lib_ok_def)
qed

text \<open>
  C36: Starting a digest, passing data in parts and finishing it leaves in the destination the base64
  form, with its end, of the digest of the parts joined together, however the data was cut; then no
  digest is running, and passing more data is an invalid value.
\<close>

theorem security_digest_functional:
  assumes H: "md_lib_ok H" and r: "sha_reach H (sec_sha s)"
    and name: "sha_algo_data_lookup H name = Some algo" and ctx: "ctx \<noteq> NULL"
    and b64: "base64_encode L (md_final H (md_update H (md_init H algo) (concat ms))) = str"
    and room: "length (md_final H (md_update H (md_init H algo) (concat ms))) \<le> length dest" "length str < length dest"
  shows "\<exists>s1 s2 rest s3. security_init_hash H ctx 1 d name s = Some (NYX_ERROR_NONE, s1) \<and>
    update_all H d ms s1 = Some s2 \<and>
    security_finalize_hash L H 1 d dest s2 = Some (NYX_ERROR_NONE, c_bytes str @ rest, s3) \<and>
    running_mdctx (sec_sha s3) = NULL \<and> security_update_hash H ret d src s3 = Some (NYX_ERROR_INVALID_VALUE, s3)"
proof -
  let ?h = "md_update H (md_init H algo) (concat ms)"
  obtain h1 where h1: "sha_init H ctx 1 name (sec_sha s) = Some (NYX_ERROR_NONE, h1)" "running_mdctx h1 = ctx"
    "mdctxs h1 ctx = Some (Some (md_init H algo))"
    by (rule sha_init_defined [OF sha_reach_ok [OF r] ctx name])
  let ?s1 = "s\<lparr>sec_sha := h1\<rparr>"
  obtain s2 where s2: "update_all H d ms ?s1 = Some s2" "running_mdctx (sec_sha s2) = ctx"
    "mdctxs (sec_sha s2) ctx = Some (Some ?h)"
    using update_all_ok [OF H, of ?s1 ctx "md_init H algo" d ms] h1 ctx by auto
  have "security_init_hash H ctx 1 d name s = Some (NYX_ERROR_NONE, ?s1)"
    by (simp add: security_init_hash_def h1(1))
  moreover have "\<exists>rest. security_finalize_hash L H 1 d dest s2 = Some (NYX_ERROR_NONE, c_bytes str @ rest,
      s2\<lparr>sec_sha := (sec_sha s2)\<lparr>mdctxs := (mdctxs (sec_sha s2))(ctx := None), running_mdctx := NULL\<rparr>\<rparr>)"
    using s2(2,3) ctx room b64
    by (simp add: security_finalize_hash_def sha_finalize_def write_at_0 mdctx_destroy_def c_bytes_def)
  moreover have "security_update_hash H ret d src
      (s2\<lparr>sec_sha := (sec_sha s2)\<lparr>mdctxs := (mdctxs (sec_sha s2))(ctx := None), running_mdctx := NULL\<rparr>\<rparr>) =
      Some (NYX_ERROR_INVALID_VALUE, s2\<lparr>sec_sha := (sec_sha s2)\<lparr>mdctxs := (mdctxs (sec_sha s2))(ctx := None), running_mdctx := NULL\<rparr>\<rparr>)"
    by (simp add: security_update_hash_def sha_update_def)
  ultimately show ?thesis using s2(1) by fastforce
qed

end
