(* ===== verification/Security_Test_Service.thy ===== *)
theory Security_Test_Service
  imports Security_Test Security_Properties
begin

text \<open>
  What the test program needs of the security service it tests, as interfaces, and the proofs inside
  them that every test, and the whole program, then passes.
\<close>

section \<open>Programs that use up room for keys\<close>

text \<open>\<open>live n s\<close>: the service is open in the state \<open>s\<close> and has room for \<open>n\<close> more keys of each kind.\<close>

definition spends :: "(nat \<Rightarrow> 's \<Rightarrow> bool) \<Rightarrow> nat \<Rightarrow> ('s \<Rightarrow> 's option) \<Rightarrow> bool" where
  "spends live k f \<longleftrightarrow> (\<forall>n s. live (k + n) s \<longrightarrow> (\<exists>s'. f s = Some s' \<and> live n s'))"

lemma spendsI: "(\<And>n s. live (k + n) s \<Longrightarrow> \<exists>s'. f s = Some s' \<and> live n s') \<Longrightarrow> spends live k f"
  by (simp add: spends_def)

lemma spendsE:
  assumes "spends live k f" and "live (k + n) s"
  obtains s' where "f s = Some s'" and "live n s'"
  using assms by (auto simp: spends_def)

section \<open>Creating keys\<close>

text \<open>\<open>keys s\<close>: the lengths of the keys there are, under their indices.\<close>

locale key_creation =
  fixes create :: "int \<Rightarrow> int \<Rightarrow> 's \<Rightarrow> (nyx_error \<times> int \<times> 's) option"
    and lengths :: "int set"
    and live :: "nat \<Rightarrow> 's \<Rightarrow> bool"
    and keys :: "'s \<Rightarrow> int \<Rightarrow> int option"
  assumes created: "live (Suc n) s \<Longrightarrow> keylen \<in> lengths \<Longrightarrow> in_i32 index \<Longrightarrow>
    \<exists>i s'. create keylen index s = Some (NYX_ERROR_NONE, i, s') \<and> live n s' \<and> keys s' = (keys s)(i \<mapsto> keylen) \<and>
      (if index = -1 then 0 \<le> i \<and> keys s i = None \<and> (\<forall>j. 0 \<le> j \<and> j < i \<longrightarrow> keys s j \<noteq> None) else i = index)"
begin

lemma new_key:
  assumes "live (Suc n) s" and "keylen \<in> lengths"
  obtains i s' where "create keylen (-1) s = Some (NYX_ERROR_NONE, i, s')" and "live n s'"
    and "keys s' = (keys s)(i \<mapsto> keylen)" and "0 \<le> i" and "keys s i = None"
    and "\<And>j. 0 \<le> j \<Longrightarrow> j < i \<Longrightarrow> keys s j \<noteq> None"
proof -
  have "in_i32 (-1)" by (simp add: in_i32_def INT_MIN_def INT_MAX_def)
  from created [OF assms this] that show ?thesis by auto
qed

text \<open>The first two keys leave no index below 2 free.\<close>

lemma create_keys_pass:
  assumes u: "atoi u = Some keylen" and k: "keylen \<in> lengths"
  shows "spends live 3 (create_keys create u)"
proof (rule spendsI)
  fix n s assume live: "live (3 + n) s"
  obtain i1 s1 where 1: "create keylen (-1) s = Some (NYX_ERROR_NONE, i1, s1)" "live (Suc (Suc n)) s1"
      "keys s1 = (keys s)(i1 \<mapsto> keylen)" "0 \<le> i1" "\<And>j. 0 \<le> j \<Longrightarrow> j < i1 \<Longrightarrow> keys s j \<noteq> None"
    by (rule new_key [OF _ k, of "Suc (Suc n)" s]) (use live in \<open>simp_all add: numeral_3_eq_3\<close>)
  have zero: "keys s1 0 \<noteq> None" using 1(3-5) by (cases "i1 = 0") auto
  have "in_i32 1" by (simp add: in_i32_def INT_MIN_def INT_MAX_def)
  from created [OF 1(2) k this] obtain s2 where 2: "create keylen 1 s1 = Some (NYX_ERROR_NONE, 1, s2)" "live (Suc n) s2"
      "keys s2 = (keys s1)(1 \<mapsto> keylen)" by auto
  obtain i3 s3 where 3: "create keylen (-1) s2 = Some (NYX_ERROR_NONE, i3, s3)" "live n s3" "0 \<le> i3" "keys s2 i3 = None"
    by (rule new_key [OF 2(2) k])
  have "i3 \<noteq> 0" "i3 \<noteq> 1" using zero 2(3) 3(4) by auto
  with 1(1,4) 2(1) 3(1-3) u show "\<exists>s'. create_keys create u s = Some s' \<and> live n s'"
    by (simp add: create_keys_def)
qed

end

section \<open>The service\<close>

text \<open>
  \<open>closed n s\<close>: the service is closed and has room for \<open>n\<close> more keys once it is opened. \<open>digest\<close> is
  the printed digest of a message. While the service is open, encrypting with a key that is there
  succeeds, and at once decrypting what it wrote gives the source back.
\<close>

definition consts_ok :: "test_consts \<Rightarrow> bool" where
  "consts_ok K \<longleftrightarrow> (\<forall>n. length (tc_stack K n) = n) \<and>
     length test_src + 47 \<le> sizeof_pointer + tc_max_block K + tc_max_iv K \<and>
     CHR 0x3B \<notin> set (tc_sha256 K) \<and> CHR 0x3B \<notin> set (tc_sha512 K)"

locale security_service =
  aes: key_creation "nc_create_aes_key N" "{128, 256}" live aes_keys +
  rsa: key_creation "nc_create_rsa_key N" "{2048, 4096}" live rsa_keys
  for N :: "'s nyx_client" and live :: "nat \<Rightarrow> 's \<Rightarrow> bool"
    and aes_keys :: "'s \<Rightarrow> int \<Rightarrow> int option" and rsa_keys :: "'s \<Rightarrow> int \<Rightarrow> int option" +
  fixes K :: test_consts
    and closed :: "nat \<Rightarrow> 's \<Rightarrow> bool"
    and digest :: "string \<Rightarrow> u8 list \<Rightarrow> string option"
  assumes init_ok: "nc_init N = NYX_ERROR_NONE" "nc_deinit N = NYX_ERROR_NONE"
    and open_ok: "closed n s \<Longrightarrow> \<exists>s'. nc_open N s = Some (NYX_ERROR_NONE, True, s') \<and> live n s'"
    and close_ok: "live n s \<Longrightarrow> \<exists>s'. nc_close N s = Some (NYX_ERROR_NONE, s') \<and> closed n s'"
    and live_consts: "live n s \<Longrightarrow> consts_ok K"
    and aes_ok: "live n s \<Longrightarrow> aes_keys s i = Some l \<Longrightarrow> l \<in> {128, 256} \<Longrightarrow> length src + 47 \<le> length dest \<Longrightarrow>
      \<exists>enc m iv s'. nc_crypt_aes N i (tc_cbc K) True src (int (length src)) dest dl 0 s =
          Some (NYX_ERROR_NONE, enc, m, iv, s') \<and> 0 < m \<and> live n s' \<and>
        (\<forall>dest' dl'. length src + 47 \<le> length dest' \<longrightarrow> (\<exists>pad iv' s''. nc_crypt_aes N i (tc_cbc K) False enc m dest' dl' iv s' =
          Some (NYX_ERROR_NONE, src @ pad, int (length src), iv', s'') \<and> live n s''))"
    and rsa_ok: "live n s \<Longrightarrow> rsa_keys s i = Some l \<Longrightarrow> int (length dest) * 8 = l \<Longrightarrow> length src + 41 < length dest \<Longrightarrow>
      \<exists>enc m s'. nc_crypt_rsa N i True src (int (length src)) dest dl s =
          Some (NYX_ERROR_NONE, enc, m, s') \<and> 0 < m \<and> live n s' \<and>
        (\<forall>dest' dl'. length src \<le> length dest' \<longrightarrow> (\<exists>s''. nc_crypt_rsa N i False enc m dest' dl' s' =
          Some (NYX_ERROR_NONE, src @ drop (length src) dest', int (length src), s'') \<and> live n s''))"
    and digest_ok: "live n s \<Longrightarrow> digest name msg = Some str \<Longrightarrow> length dest = tc_max_md K * 2 \<Longrightarrow>
      \<exists>s1 s2 rest s3. nc_init_hash N name s = Some (NYX_ERROR_NONE, s1) \<and>
        nc_update_hash N msg s1 = Some (NYX_ERROR_NONE, s2) \<and>
        nc_finalize_hash N dest s2 = Some (NYX_ERROR_NONE, c_bytes str @ rest, s3) \<and> live n s3"
    and digests: "live n s \<Longrightarrow> digest (tc_sha256 K) (map of_char ''foobar'') = Some sha256_foobar"
      "live n s \<Longrightarrow> digest (tc_sha512 K) (map of_char ''foobar'') = Some sha512_foobar"

section \<open>Strings\<close>

lemma test_atoi:
  "atoi ''128'' = Some 128" "atoi ''256'' = Some 256" "atoi ''2048'' = Some 2048" "atoi ''4096'' = Some 4096"
  by code_simp+

lemma buffer_string_prefix:
  "0 \<notin> set bs \<Longrightarrow> buffer_string (bs @ 0 # rest) = Some bs"
  by (induction bs) (auto simp: buffer_string_def)

text \<open>A string whose characters are not 0.\<close>

definition proper :: "string \<Rightarrow> bool" where
  "proper str \<longleftrightarrow> (0 :: u8) \<notin> of_char ` set str"

lemma proper_buffer_string: "proper str \<Longrightarrow> buffer_string (c_bytes str @ rest) = Some (map of_char str)"
  by (simp add: c_bytes_def proper_def buffer_string_prefix)

lemma proper_strings: "proper ''foobar''" "proper sha256_foobar" "proper sha512_foobar"
  by code_simp+

lemma strsplit2_join: "CHR 0x3B \<notin> set a \<Longrightarrow> strsplit2 (a @ CHR 0x3B # b) = [a, b]"
  by (induction a) (auto simp: strsplit2_def split: list.splits)

section \<open>The tests\<close>

lemma test_src_string: "buffer_string (test_src @ rest) = Some (map of_char ''foobar'')" "test_src = map of_char ''foobar'' @ [0]"
  unfolding test_src_def by (rule proper_buffer_string [OF proper_strings(1)]) (simp add: c_bytes_def)

context security_service begin

lemma setup_ok: "closed n s \<Longrightarrow> \<exists>s'. fixture_setup N s = Some s' \<and> live n s'"
  using open_ok [of n s] by (auto simp: fixture_setup_def init_ok)

lemma teardown_ok: "live n s \<Longrightarrow> \<exists>s'. fixture_teardown N s = Some s' \<and> closed n s'"
  using close_ok [of n s] by (auto simp: fixture_teardown_def init_ok)

lemma create_tests:
  "spends live 3 (test_create_aes_key N ''128'')" "spends live 3 (test_create_aes_key N ''256'')"
  "spends live 3 (test_create_rsa_key N ''2048'')"
  unfolding test_create_aes_key_def [abs_def] test_create_rsa_key_def [abs_def]
  by (rule aes.create_keys_pass rsa.create_keys_pass, rule test_atoi, simp)+

lemma crypt_aes_test: "spends live 1 (test_crypt_aes N K (tc_cbc K))"
proof (rule spendsI)
  fix n s assume "live (1 + n) s"
  then have "live (Suc n) s" by simp
  then obtain i s1 where 1: "nc_create_aes_key N 128 (-1) s = Some (NYX_ERROR_NONE, i, s1)" "live n s1"
      "aes_keys s1 i = Some 128"
    by (rule aes.new_key [where keylen = 128]) simp_all
  let ?size = "sizeof_pointer + tc_max_block K + tc_max_iv K"
  have K: "length (tc_stack K ?size) = ?size" "length test_src + 47 \<le> length (tc_stack K ?size)"
    using live_consts [OF 1(2)] by (simp_all add: consts_ok_def)
  from aes_ok [OF 1(2,3) _ K(2)] obtain enc m iv s2 where 2:
    "nc_crypt_aes N i (tc_cbc K) True test_src (int (length test_src)) (tc_stack K ?size) (-1) 0 s1 =
      Some (NYX_ERROR_NONE, enc, m, iv, s2)" "0 < m"
    and dec: "\<And>dest' dl'. length test_src + 47 \<le> length dest' \<Longrightarrow> \<exists>pad iv' s3. nc_crypt_aes N i (tc_cbc K) False enc m dest' dl' iv s2 =
      Some (NYX_ERROR_NONE, test_src @ pad, int (length test_src), iv', s3) \<and> live n s3"
    by blast
  from dec [of "tc_stack K ?size" "-1"] K obtain pad iv' s3 where 3: "nc_crypt_aes N i (tc_cbc K) False enc m (tc_stack K ?size) (-1) iv s2 =
      Some (NYX_ERROR_NONE, test_src @ pad, int (length test_src), iv', s3)" "live n s3"
    by auto
  show "\<exists>s'. test_crypt_aes N K (tc_cbc K) s = Some s' \<and> live n s'"
    using 1(1) 2 3 by (simp add: test_crypt_aes_def Let_def test_src_string(1)) (simp add: test_src_string(2))
qed

lemma crypt_rsa_test:
  assumes u: "atoi u = Some l" and l: "l \<in> {2048, 4096}"
  shows "spends live 1 (test_crypt_rsa N K u)"
proof (rule spendsI)
  fix n s assume "live (1 + n) s"
  then have "live (Suc n) s" by simp
  then obtain i s1 where 1: "nc_create_rsa_key N l (-1) s = Some (NYX_ERROR_NONE, i, s1)" "live n s1"
      "rsa_keys s1 i = Some l"
    by (rule rsa.new_key [OF _ l]) simp_all
  let ?d = "tc_stack K (nat (l sdiv 8))"
  have len: "length test_src = 7" by (simp add: test_src_string(2))
  have l8: "l smod 8 = 0" "int (nat (l sdiv 8)) * 8 = l" "256 \<le> nat (l sdiv 8)"
    using l sdiv_nonneg [of l 8] smod_nonneg [of l 8] by auto
  then have K: "int (length ?d) * 8 = l" "length test_src + 41 < length ?d" "length test_src \<le> length ?d"
    using live_consts [OF 1(2)] by (simp_all add: consts_ok_def len)
  from rsa_ok [OF 1(2,3) K(1,2)] obtain enc m s2 where 2:
    "nc_crypt_rsa N i True test_src (int (length test_src)) ?d (-1) s1 = Some (NYX_ERROR_NONE, enc, m, s2)" "0 < m"
    and dec: "\<And>dest' dl'. length test_src \<le> length dest' \<Longrightarrow> \<exists>s3. nc_crypt_rsa N i False enc m dest' dl' s2 =
      Some (NYX_ERROR_NONE, test_src @ drop (length test_src) dest', int (length test_src), s3) \<and> live n s3"
    by blast
  from dec [of ?d "-1"] K(3) obtain s3 where 3: "nc_crypt_rsa N i False enc m ?d (-1) s2 =
      Some (NYX_ERROR_NONE, test_src @ drop (length test_src) ?d, int (length test_src), s3)" "live n s3"
    by auto
  show "\<exists>s'. test_crypt_rsa N K u s = Some s' \<and> live n s'"
    using 1(1) 2 3 l8(1) u by (simp add: test_crypt_rsa_def Let_def test_src_string(1)) (simp add: test_src_string(2))
qed

lemma sha_test:
  assumes sep: "\<And>n s. live n s \<Longrightarrow> CHR 0x3B \<notin> set name \<and> digest name (map of_char ''foobar'') = Some str" and str: "proper str"
  shows "spends live 0 (test_calculate_sha N K (name @ '';'' @ str))"
proof (rule spendsI)
  fix n s assume "live (0 + n) s"
  then have live: "live n s" by simp
  obtain s1 s2 rest s3 where "nc_init_hash N name s = Some (NYX_ERROR_NONE, s1)"
    "nc_update_hash N (map of_char ''foobar'') s1 = Some (NYX_ERROR_NONE, s2)"
    "nc_finalize_hash N (replicate (tc_max_md K * 2) 0) s2 = Some (NYX_ERROR_NONE, c_bytes str @ rest, s3)" "live n s3"
    using digest_ok [OF live conjunct2 [OF sep [OF live]], of "replicate (tc_max_md K * 2) 0"] by auto
  then show "\<exists>s'. test_calculate_sha N K (name @ '';'' @ str) s = Some s' \<and> live n s'"
    using sep [OF live] proper_buffer_string [OF str] by (simp add: test_calculate_sha_def strsplit2_join)
qed

section \<open>The program\<close>

text \<open>\<open>ks\<close>: the keys that the tests need room for.\<close>

lemma run_tests_pass:
  "list_all2 (spends live) ks (map snd ts) \<Longrightarrow> closed (sum_list ks + n) s \<Longrightarrow>
    \<exists>s'. run_tests N ts s = Some s' \<and> closed n s'"
proof (induction ts arbitrary: ks s)
  case (Cons t ts)
  then obtain k ks' where ks: "ks = k # ks'" "spends live k (snd t)" "list_all2 (spends live) ks' (map snd ts)"
    by (auto simp: list_all2_Cons2)
  from Cons.prems(2) ks(1) obtain s1 where 1: "fixture_setup N s = Some s1" "live (k + (sum_list ks' + n)) s1"
    using setup_ok [of "k + (sum_list ks' + n)" s] by (auto simp: add.assoc)
  obtain s2 where 2: "snd t s1 = Some s2" "live (sum_list ks' + n) s2" by (rule spendsE [OF ks(2) 1(2)])
  from teardown_ok [OF 2(2)] obtain s3 where 3: "fixture_teardown N s2 = Some s3" "closed (sum_list ks' + n) s3" by auto
  from Cons.IH [OF ks(3) 3(2)] 1 2 3 show ?case by (cases t) auto
qed simp

lemma main_passes:
  assumes "closed (12 + n) s"
  shows "\<exists>s'. test_main N K s = Some s' \<and> closed n s'"
  unfolding test_main_def
proof (rule run_tests_pass)
  have "\<And>n s. live n s \<Longrightarrow> CHR 0x3B \<notin> set (tc_sha256 K) \<and> digest (tc_sha256 K) (map of_char ''foobar'') = Some sha256_foobar"
    "\<And>n s. live n s \<Longrightarrow> CHR 0x3B \<notin> set (tc_sha512 K) \<and> digest (tc_sha512 K) (map of_char ''foobar'') = Some sha512_foobar"
    using live_consts digests by (auto simp: consts_ok_def)
  note sha = sha_test [OF this(1) proper_strings(2)] sha_test [OF this(2) proper_strings(3)]
  show "list_all2 (spends live) [3, 3, 3, 1, 1, 1, 0, 0] (map snd (security_tests N K))"
    unfolding security_tests_def list.map snd_conv
    by (intro list_all2_Cons [THEN iffD2] conjI create_tests crypt_aes_test crypt_rsa_test [OF test_atoi(3)]
        crypt_rsa_test [OF test_atoi(4)] sha list.rel_intros) simp_all
  show "closed (sum_list [3, 3, 3, 1, 1, 1, 0, 0] + n) s" using assms by (simp add: eval_nat_numeral)
qed

end

end
