(* ===== verification/Security_Witnesses.thy ===== *)
theory Security_Witnesses
  imports Security_Properties
begin

text \<open>
  Concrete libraries that have the documented behaviour, and the properties of the security module
  at concrete inputs.
\<close>

section \<open>A key file\<close>

text \<open>A file as its entries and the keys of its groups; two letters stand for a byte.\<close>

type_synonym ex_file = "(string \<Rightarrow> string \<Rightarrow> string list option) \<times> (string \<Rightarrow> string list option)"

definition ex_set :: "ex_file \<Rightarrow> string \<Rightarrow> string \<Rightarrow> string list \<Rightarrow> ex_file" where
  "ex_set kf g k l =
     ((fst kf)(g := (fst kf g)(k := Some l)),
      (snd kf)(g := (case snd kf g of None \<Rightarrow> Some [k]
        | Some ks \<Rightarrow> Some (if k \<in> set ks then ks else ks @ [k]))))"

definition ex_encode :: "u8 list \<Rightarrow> string" where
  "ex_encode bs = concat (map (\<lambda>b. [char_of (65 + unat b div 16), char_of (65 + unat b mod 16)]) bs)"

fun ex_decode :: "string \<Rightarrow> u8 list" where
  "ex_decode (c # d # s) = word_of_nat ((of_char c - 65) * 16 + (of_char d - 65)) # ex_decode s"
| "ex_decode _ = []"

definition ex_store_lib :: "(ex_file, ex_file, u8 list) store_lib" where
  "ex_store_lib = \<lparr>kf_new = (\<lambda>_ _. None, \<lambda>_. None), kf_set = ex_set, kf_get = fst, kf_keys = snd,
     kf_to_data = (\<lambda>kf. kf), kf_load = Some, base64_encode = ex_encode, base64_decode = ex_decode,
     i2d = (\<lambda>r. r), d2i = Some, EVP_MAX_KEY_LENGTH = 64\<rparr>"

lemma u8_unat: "unat b < 256" for b :: u8
proof -
  have "unat b < 2 ^ LENGTH(8)" by (rule unsigned_less)
  then show ?thesis by simp
qed

lemma ex_letter [simp]: "(65 + unat b div 16) mod 256 = 65 + unat b div 16" for b :: u8
  using u8_unat [of b] by simp

lemma ex_byte: "word_of_nat (unat b div 16) * 16 + word_of_nat (unat b mod 16) = b" for b :: u8
proof -
  have "word_of_nat (unat b div 16 * 16 + unat b mod 16) = b"
    unfolding div_mult_mod_eq by simp
  then show ?thesis by (simp only: of_nat_add of_nat_mult of_nat_numeral)
qed

lemma ex_encode_decode: "ex_decode (ex_encode bs) = bs"
  by (induction bs) (simp_all add: ex_encode_def of_char_of ex_byte)

lemma ex_encode_plain: "plain (ex_encode bs)"
proof -
  have "unat b div 16 \<le> 61" "unat b mod 16 \<le> 61" for b :: u8
    using u8_unat [of b] mod_less_divisor [of 16 "unat b"] by linarith+
  then show ?thesis by (auto simp: plain_def ex_encode_def of_char_of)
qed

lemma ex_store_lib_ok: "store_lib_ok ex_store_lib"
  unfolding store_lib_ok_def
  by (simp add: ex_store_lib_def ex_set_def ex_encode_decode ex_encode_plain)

section \<open>OpenSSL\<close>

text \<open>
  A cipher that adds the first byte of the key to every byte, with the padding of OpenSSL. As there,
  decryption writes the padded block before it knows how much of it is padding.
\<close>

definition ex_pad :: "u8 list \<Rightarrow> u8 list" where
  "ex_pad p = (let k = 16 - length p mod 16 in p @ replicate k (of_nat k))"

definition ex_cipher_lib :: cipher_lib where
  "ex_cipher_lib = \<lparr>
     cipher_update = (\<lambda>c enc key iv src n.
       if enc then (let m = 16 * (length src div 16) in Some (take m (map (\<lambda>b. b + hd key) src), m))
       else Some (map (\<lambda>b. b - hd key) src, length src - 16)),
     cipher_final = (\<lambda>c enc key iv src n.
       if enc then Some (drop (16 * (length src div 16)) (map (\<lambda>b. b + hd key) (ex_pad src)), 16)
       else (let x = map (\<lambda>b. b - hd key) src; d = drop (length x - 16) (take (length x - unat (last x)) x) in
             Some (d, length d))),
     NYX_SECURITY_AES_CBC = 1\<rparr>"

lemma ex_pad_props:
  "length (ex_pad p) = 16 * (length p div 16) + 16" "length p < length (ex_pad p)"
  "take (length p) (ex_pad p) = p" "unat (last (ex_pad p)) = 16 - length p mod 16"
proof -
  have k: "0 < 16 - length p mod 16" "16 - length p mod 16 \<le> 16" by simp_all
  have "length p = 16 * (length p div 16) + length p mod 16" by simp
  with k show "length (ex_pad p) = 16 * (length p div 16) + 16" unfolding ex_pad_def Let_def length_append length_replicate by linarith
  show "length p < length (ex_pad p)" "take (length p) (ex_pad p) = p" using k by (simp_all add: ex_pad_def Let_def)
  have u: "unat (word_of_nat j :: u8) = j" if "j \<le> 16" for j
    using that by (simp add: unsigned_of_nat take_bit_nat_eq_self)
  have "unat (word_of_nat (16 - length p mod 16) :: u8) = 16 - length p mod 16" by (rule u [OF k(2)])
  moreover have "last (p @ replicate j x) = x" if "0 < j" for j and x :: u8 using that by (simp add: last_append)
  ultimately show "unat (last (ex_pad p)) = 16 - length p mod 16" using k(1) unfolding ex_pad_def Let_def by metis
qed

lemma ex_cipher_lib_ok: "cipher_lib_ok ex_cipher_lib"
  unfolding cipher_lib_ok_def
proof (intro allI impI, elim conjE)
  fix c key iv p w1 n1 w2 n2
  assume u: "cipher_update ex_cipher_lib c True key iv p (int (length p)) = Some (w1, n1)"
    and f: "cipher_final ex_cipher_lib c True key iv p (int (length p)) = Some (w2, n2)"
  let ?m = "16 * (length p div 16)" and ?f = "map (\<lambda>b. b + hd key)" and ?g = "map (\<lambda>b. b - hd key)"
  have w: "w1 = take ?m (?f p)" "n1 = ?m" "w2 = drop ?m (?f (ex_pad p))" "n2 = 16"
    using u f by (auto simp: ex_cipher_lib_def Let_def)
  have m: "?m \<le> length p" "length p < ?m + 16" by simp_all
  note pad = ex_pad_props [of p]
  have len: "length w1 = ?m" "length w2 = 16" using m pad(1) by (simp_all add: w)
  have "take ?m (?f p) = take ?m (?f (ex_pad p))"
    using m(1) pad(3) by (metis (no_types, lifting) min_absorb1 take_map take_take)
  then have "w1 @ w2 = ?f (ex_pad p)" unfolding w(1,3) by (simp only: append_take_drop_id)
  moreover have "take n1 w1 = w1" "take n2 w2 = w2" using len w(2,4) by simp_all
  ultimately have e: "take n1 w1 @ take n2 w2 = ?f (ex_pad p)" by simp
  have g: "?g (?f q) = q" for q by (simp add: comp_def)
  have "length p = ?m + length p mod 16" by simp
  then have strip: "length (ex_pad p) - (16 - length p mod 16) = length p" using pad(1) m by linarith
  have strip2: "length (ex_pad p) + length p mod 16 = length p + 16" using pad(1) m by simp
  have "take (length (ex_pad p) - 16) (ex_pad p) = take (length (ex_pad p) - 16) p"
    using pad(1,3) m(1) by (metis add_diff_cancel_right' min_absorb1 take_take)
  then have split: "take (length (ex_pad p) - 16) (ex_pad p) @ drop (length (ex_pad p) - 16) p = p" by simp
  have "cipher_update ex_cipher_lib c False key iv (?f (ex_pad p)) (int (length (?f (ex_pad p)))) = Some (ex_pad p, length (ex_pad p) - 16)"
    by (simp add: ex_cipher_lib_def g del: map_map)
  moreover have "cipher_final ex_cipher_lib c False key iv (?f (ex_pad p)) (int (length (?f (ex_pad p)))) =
      Some (drop (length (ex_pad p) - 16) p, length (drop (length (ex_pad p) - 16) p))"
    using strip2 by (simp add: ex_cipher_lib_def g pad(3,4) strip [simplified] Let_def del: map_map drop_take)
  ultimately have "\<exists>d1 m1 d2 m2. cipher_update ex_cipher_lib c False key iv (?f (ex_pad p)) (int (length (?f (ex_pad p)))) = Some (d1, m1) \<and>
      cipher_final ex_cipher_lib c False key iv (?f (ex_pad p)) (int (length (?f (ex_pad p)))) = Some (d2, m2) \<and>
      m1 \<le> length d1 \<and> length d1 \<le> length (?f (ex_pad p)) + 16 \<and> m2 \<le> length d2 \<and> length d2 \<le> 16 \<and> take m1 d1 @ take m2 d2 = p"
    using split pad(1) m by (intro exI conjI) (assumption, assumption, simp_all)
  then show "n1 \<le> length w1 \<and> length w1 \<le> length p + 15 \<and> n2 \<le> length w2 \<and> length w2 \<le> 16 \<and>
     length p < n1 + n2 \<and> n1 + n2 \<le> length p + 16 \<and>
     (let e = take n1 w1 @ take n2 w2 in
      \<exists>d1 m1 d2 m2. cipher_update ex_cipher_lib c False key iv e (int (length e)) = Some (d1, m1) \<and>
        cipher_final ex_cipher_lib c False key iv e (int (length e)) = Some (d2, m2) \<and>
        m1 \<le> length d1 \<and> length d1 \<le> length e + 16 \<and> m2 \<le> length d2 \<and> length d2 \<le> 16 \<and>
        take m1 d1 @ take m2 d2 = p)"
    unfolding e Let_def using len m by (simp add: w(2,4))
qed

definition ex_rsa_lib :: "u8 list rsa_lib" where
  "ex_rsa_lib = \<lparr>RSA_size = (\<lambda>_. 256), rsa_public_encrypt = (\<lambda>seed r p. Some (r @ p)),
     rsa_private_decrypt = (\<lambda>r c. Some (drop (length r) c))\<rparr>"

lemma ex_rsa_lib_ok: "rsa_lib_ok ex_rsa_lib"
  by (auto simp: rsa_lib_ok_def ex_rsa_lib_def)

definition ex_md_lib :: "u8 list md_lib" where
  "ex_md_lib = \<lparr>SN_sha256 = ''SHA256'', SN_sha512 = ''SHA512'', md_init = (\<lambda>_. []), md_update = (@),
     md_final = (\<lambda>h. [of_nat (length h)])\<rparr>"

lemma ex_md_lib_ok: "md_lib_ok ex_md_lib"
  by (simp add: md_lib_ok_def ex_md_lib_def)

section \<open>A module with a key\<close>

definition ex_key :: aes_key where
  "ex_key = \<lparr>aes_keylen = 128, aes_bytes = replicate 16 5 @ replicate 48 0\<rparr>"

definition ex_security :: "(u8 list, u8 list) security" where
  "ex_security = \<lparr>sec_store = \<lparr>ks_aes = Table [0 \<mapsto> ex_key], ks_rsa = Table [3 \<mapsto> \<lparr>rsa_keylen = 2048, rsa_rsa = [9, 9]\<rparr>]\<rparr>,
     sec_sha = sha_start\<rparr>"

lemma ex_ints: "in_i32 0" "in_i32 3" "in_i32 128" "in_i32 2048"
  by (simp_all add: in_i32_def INT_MIN_def INT_MAX_def)

lemma ex_key_ok: "aes_key_ok ex_store_lib ex_key"
  by (auto simp: aes_key_ok_def ex_key_def ex_store_lib_def ex_ints intro!: exI [of _ 16])

lemma ex_store_ok: "store_ok ex_store_lib (sec_store ex_security)"
  using ex_key_ok ex_ints by (auto simp: store_ok_def ex_security_def split: if_splits)

theorem security_create_key_first_free_witness:
  "\<exists>i k s'. security_create_aes_key ex_cipher_lib (Some (replicate 64 0)) (\<lambda>n. (1, replicate n 7)) 4 256 (-1) ex_security
      = Some (NYX_ERROR_NONE, i, s') \<and> aes_view k = (256, replicate 32 7) \<and> i = 1 \<and>
      keystore_key_lookup (ks_aes (sec_store s')) 1 = Some (Some k)"
proof -
  have t: "ks_aes (sec_store ex_security) = Table [0 \<mapsto> ex_key]" by (simp add: ex_security_def)
  from security_create_key_first_free [OF ex_store_lib_ok ex_store_ok t, of ex_cipher_lib 256 "replicate 64 0"
      "\<lambda>n. (1, replicate n 7)" "replicate 32 7" 4]
  obtain i k s' where h: "security_create_aes_key ex_cipher_lib (Some (replicate 64 0)) (\<lambda>n. (1, replicate n 7)) 4 256 (-1) ex_security
      = Some (NYX_ERROR_NONE, i, s')" "0 \<le> i" "i \<le> 1" "[0 \<mapsto> ex_key] i = None" "aes_view k = (256, replicate 32 7)"
      "sec_store s' = (sec_store ex_security)\<lparr>ks_aes := Table ([0 \<mapsto> ex_key](i \<mapsto> k))\<rparr>"
    by (auto simp: aes_supported_iff ex_store_lib_def INT_MAX_def)
  then have "i = 1" by (auto split: if_splits)
  with h show ?thesis by auto
qed

theorem security_new_keys_distinct_witness:
  "\<exists>T' r1 r2. store.store_new (Table [0 \<mapsto> ex_key]) [ex_key, ex_key] = Some (T', [r1, r2]) \<and> r1 \<noteq> r2 \<and> r1 \<noteq> 0"
proof -
  have ok: "table_ok (Table [0 \<mapsto> ex_key])" by (simp add: ex_ints)
  have s: "store.store_new (Table [0 \<mapsto> ex_key]) [ex_key, ex_key] = Some (Table (([0 \<mapsto> ex_key](1 \<mapsto> ex_key))(2 \<mapsto> ex_key)), [1, 2])"
    by (simp add: next_free.simps INT_MAX_def)
  from security_new_keys_distinct [OF ok s] s show ?thesis by simp
qed

theorem security_reopen_roundtrip_witness:
  "\<exists>out file' s1 s2. security_module_close ex_store_lib (\<lambda>_. []) [0] [3] True True None ex_security
      = Some (NYX_ERROR_NONE, out, file', s1) \<and>
    security_module_open ex_store_lib 8 [] True True (\<lambda>_. replicate 64 1) file' (Some NULL) s1
      = Some (NYX_ERROR_NONE, Some 8, s2) \<and> store_ok ex_store_lib (sec_store s2)"
proof -
  have "enumerates [0] (table_map (ks_aes (sec_store ex_security)))" "enumerates [3] (table_map (ks_rsa (sec_store ex_security)))"
    by (simp_all add: enumerates_def ex_security_def)
  moreover have "EVP_MAX_KEY_LENGTH ex_store_lib \<le> length (replicate 64 (1 :: u8))"
    by (simp add: ex_store_lib_def)
  ultimately show ?thesis
    using security_reopen_roundtrip [OF ex_store_lib_ok ex_store_ok, of "[0]" "[3]" "\<lambda>_. replicate 64 1" "[]" 8 "\<lambda>_. []" None]
    by simp (elim exE conjE, intro exI conjI, assumption+)
qed

theorem security_aes_roundtrip_witness:
  "\<exists>out n pad. security_aes_crypt ex_cipher_lib (\<lambda>n. (1, replicate n 3)) 4 0 1 True [1, 2, 3] 3 (replicate 40 0) 0 0 ex_security
      = Some (NYX_ERROR_NONE, out, n, 16) \<and> n = 32 \<and>
    security_aes_crypt ex_cipher_lib (\<lambda>n. (0, [])) 4 0 1 False (take (nat n) out) n (replicate 33 9) 0 16 ex_security
      = Some (NYX_ERROR_NONE, [1, 2, 3] @ pad @ [9], 3, 16)"
proof -
  have e: "security_aes_crypt ex_cipher_lib (\<lambda>n. (1, replicate n 3)) 4 0 1 True [1, 2, 3] (int (length [1, 2, 3 :: u8]))
      (replicate 40 0) 0 0 ex_security = Some (NYX_ERROR_NONE, replicate 16 3 @ [6, 7, 8] @ replicate 13 18 @ replicate 8 0, 32, 16)"
    by code_simp
  have "length (snd ((\<lambda>n. (1 :: int, replicate n (3 :: u8))) AES_BLOCK_SIZE)) = AES_BLOCK_SIZE" by simp
  from security_aes_roundtrip [OF ex_cipher_lib_ok this e refl, of "replicate 33 9" "\<lambda>n. (0, [])" 4 0]
  obtain pad where d: "security_aes_crypt ex_cipher_lib (\<lambda>n. (0, [])) 4 0 1 False
      (take (nat 32) (replicate 16 3 @ [6, 7, 8] @ replicate 13 18 @ replicate 8 0)) 32 (replicate 33 9) 0 16 ex_security
      = Some (NYX_ERROR_NONE, [1, 2, 3] @ pad, 3, 16)" "length ([1, 2, 3] @ pad) = 33" "drop 32 ([1, 2, 3] @ pad) = [9 :: u8]"
    by auto
  define q where "q = take 29 pad"
  have "pad = take 29 pad @ drop 29 pad" by simp
  also have "drop 29 pad = [9]" using d(3) by simp
  finally have pad: "pad = q @ [9]" by (simp add: q_def)
  have three: "int (length [1, 2, 3 :: u8]) = 3" by simp
  show ?thesis using e d(1) unfolding pad three by (intro exI conjI) (assumption, rule refl, assumption)
qed

theorem security_rsa_roundtrip_witness:
  "security_rsa_crypt ex_rsa_lib 0 4 3 True [1, 2] 2 (replicate 5 0) 0 ex_security
      = Some (NYX_ERROR_NONE, [9, 9, 1, 2, 0], 4) \<and>
   security_rsa_crypt ex_rsa_lib 0 4 3 False [9, 9, 1, 2] 4 [0, 0] 0 ex_security = Some (NYX_ERROR_NONE, [1, 2], 2)"
proof -
  have k: "keystore_key_lookup (ks_rsa (sec_store ex_security)) 3 = Some (Some \<lparr>rsa_keylen = 2048, rsa_rsa = [9, 9]\<rparr>)"
    by (simp add: ex_security_def)
  have e: "rsa_public_encrypt ex_rsa_lib 0 (rsa_rsa \<lparr>rsa_keylen = 2048, rsa_rsa = [9, 9]\<rparr>) [1, 2] = Some [9, 9, 1, 2]"
    by (simp add: ex_rsa_lib_def)
  have "RSA_size ex_rsa_lib r = 256" for r by (simp add: ex_rsa_lib_def)
  with security_rsa_roundtrip [OF ex_rsa_lib_ok k e, of "replicate 5 0" "[0, 0]" 4 0 0 0]
  show ?thesis by (simp add: numeral_eq_Suc)
qed

theorem security_rsa_generate_failure_stored_witness:
  "\<exists>s'. security_create_rsa_key True (0, []) 4 2048 5 ex_security = Some (NYX_ERROR_NONE, 5, s') \<and>
    keystore_key_lookup (ks_rsa (sec_store s')) 5 = Some (Some \<lparr>rsa_keylen = 2048, rsa_rsa = []\<rparr>)"
proof -
  have "ks_rsa (sec_store ex_security) = Table [3 \<mapsto> \<lparr>rsa_keylen = 2048, rsa_rsa = [9, 9]\<rparr>]"
    by (simp add: ex_security_def)
  from security_rsa_generate_failure_stored [OF this, of 2048 5 "[]" 4] show ?thesis by auto
qed

theorem security_digest_contexts_witness:
  "\<exists>s. sha_init ex_md_lib 7 1 ''SHA256'' sha_start = Some (NYX_ERROR_NONE, s) \<and> dom (mdctxs s) = {7} \<and>
    (\<exists>s'. sha_init ex_md_lib 8 1 ''SHA512'' s = Some (NYX_ERROR_NONE, s') \<and> running_mdctx s' = 8)"
proof -
  have n: "sha_algo_data_lookup ex_md_lib ''SHA256'' = Some EVP_sha256" "sha_algo_data_lookup ex_md_lib ''SHA512'' = Some EVP_sha512"
    by (simp_all add: sha_algo_data_lookup_def ex_md_lib_def)
  obtain s where i: "sha_init ex_md_lib 7 1 ''SHA256'' sha_start = Some (NYX_ERROR_NONE, s)" and r: "running_mdctx s = 7"
    using sha_init_defined [OF sha_reach_ok [OF sha_reach.start] _ n(1), of 7] by auto
  have "sha_reach ex_md_lib s" by (rule sha_reach.init [OF sha_reach.start _ i]) (simp add: sha_start_def)
  from security_digest_contexts [OF this] i r n(2) show ?thesis by auto
qed

theorem security_digest_functional_witness:
  "\<exists>s1 s2 rest s3. security_init_hash ex_md_lib 7 1 4 ''SHA256'' ex_security = Some (NYX_ERROR_NONE, s1) \<and>
    update_all ex_md_lib 4 [[1, 2], [3]] s1 = Some s2 \<and>
    security_finalize_hash ex_store_lib ex_md_lib 1 4 (replicate 9 0) s2 = Some (NYX_ERROR_NONE, c_bytes ''AD'' @ rest, s3)"
proof -
  have n: "sha_algo_data_lookup ex_md_lib ''SHA256'' = Some EVP_sha256"
    by (simp add: sha_algo_data_lookup_def ex_md_lib_def)
  have r: "sha_reach ex_md_lib (sec_sha ex_security)" by (simp add: ex_security_def sha_reach.start)
  have b: "base64_encode ex_store_lib (md_final ex_md_lib (md_update ex_md_lib (md_init ex_md_lib EVP_sha256) (concat [[1, 2], [3]]))) = ''AD''"
    by (simp add: ex_store_lib_def ex_md_lib_def ex_encode_def char_of_def bit_0)
  from security_digest_functional [OF ex_md_lib_ok r n _ b, of 7 "replicate 9 0" 4 0 "[]"]
  show ?thesis by (simp add: ex_md_lib_def) blast
qed

end
