(* ===== verification/Security_Load.thy ===== *)
theory Security_Load
  imports Security_Witnesses
begin

text \<open>
  Opening the module with any file: what the loops of \<open>keystore_load\<close> do with entries that nobody
  saved. No law of the libraries is needed.
\<close>

section \<open>Entries that stop the process\<close>

text \<open>
  An entry of two strings: its name and first string are read as ints, which has to be defined; for
  an AES key the length must be that of the decoded bits, and those must fit the array.
\<close>

definition aes_entry_bad :: "('kf, 'd, 'r) store_lib \<Rightarrow> 'kf \<Rightarrow> string \<Rightarrow> bool" where
  "aes_entry_bad L kf k \<longleftrightarrow> (\<exists>l0 l1. kf_get L kf ''aes'' k = Some [l0, l1] \<and>
     (atoi k = None \<or> atoi l0 \<noteq> Some (int (length (base64_decode L l1)) * 8) \<or>
      EVP_MAX_KEY_LENGTH L < length (base64_decode L l1)))"

definition rsa_entry_bad :: "('kf, 'd, 'r) store_lib \<Rightarrow> 'kf \<Rightarrow> string \<Rightarrow> bool" where
  "rsa_entry_bad L kf k \<longleftrightarrow> (\<exists>l0 l1. kf_get L kf ''rsa'' k = Some [l0, l1] \<and> (atoi k = None \<or> atoi l0 = None))"

section \<open>One entry\<close>

text \<open>At most \<open>n\<close> keys in each table.\<close>

definition store_upto :: "('kf, 'd, 'r) store_lib \<Rightarrow> nat \<Rightarrow> 'r keystore \<Rightarrow> bool" where
  "store_upto L n ks \<longleftrightarrow> store_ok L ks \<and>
     card (dom (table_map (ks_aes ks))) \<le> n \<and> card (dom (table_map (ks_rsa ks))) \<le> n"

lemma atoi_i32: "atoi s = Some i \<Longrightarrow> in_i32 i"
  by (auto simp: atoi_def Let_def i32_eq_Some_iff split: prod.splits)

lemma replace_one:
  assumes t: "table_ok (Table t)" and c: "int (card (dom t)) \<le> INT_MAX" and i: "in_i32 i"
  obtains r where "keystore_key_replace (Table t) k i = Some (Table (t(r \<mapsto> k)), r)"
    and "table_ok (Table (t(r \<mapsto> k)))" and "card (dom (t(r \<mapsto> k))) \<le> Suc (card (dom t))"
proof -
  obtain T r where e: "keystore_key_replace (Table t) k i = Some (T, r)"
    using replace_defined [OF t c, of k i] by auto
  then have T: "T = Table (t(r \<mapsto> k))" by (auto elim!: bind_eq_SomeE)
  have "table_ok (Table (t(r \<mapsto> k)))" using store.replace_valid [OF t i e] T by simp
  moreover have "card (dom (t(r \<mapsto> k))) \<le> Suc (card (dom t))"
    using t by (simp add: card_insert_if)
  ultimately show ?thesis using that e T by blast
qed

lemma store_upto_aes:
  assumes "store_upto L n ks" and "ks_aes ks = Table a"
    and "table_ok (Table (a(r \<mapsto> k)))" "card (dom (a(r \<mapsto> k))) \<le> Suc (card (dom a))" and "aes_key_ok L k"
  shows "store_upto L (Suc n) (ks\<lparr>ks_aes := Table (a(r \<mapsto> k))\<rparr>)"
  using assms by (auto simp: store_upto_def store_ok_def)

lemma store_upto_rsa:
  assumes "store_upto L n ks" and "ks_rsa ks = Table a"
    and "table_ok (Table (a(r \<mapsto> k)))" "card (dom (a(r \<mapsto> k))) \<le> Suc (card (dom a))" and "in_i32 (rsa_keylen k)"
  shows "store_upto L (Suc n) (ks\<lparr>ks_rsa := Table (a(r \<mapsto> k))\<rparr>)"
  using assms by (auto simp: store_upto_def store_ok_def)

lemma store_upto_Suc: "store_upto L n ks \<Longrightarrow> store_upto L (Suc n) ks"
  by (auto simp: store_upto_def)

lemma store_upto_tables:
  assumes "store_upto L n ks"
  obtains a r where "ks_aes ks = Table a" "ks_rsa ks = Table r" "table_ok (Table a)" "table_ok (Table r)"
    "card (dom a) \<le> n" "card (dom r) \<le> n"
proof -
  have "table_ok (ks_aes ks)" "table_ok (ks_rsa ks)" using assms by (simp_all add: store_upto_def store_ok_def)
  moreover from this obtain a r where "ks_aes ks = Table a" "ks_rsa ks = Table r" by (metis table_okE)
  ultimately show ?thesis using that assms by (simp add: store_upto_def)
qed

text \<open>A step of either loop, in the form that the loops need.\<close>

definition step_ok :: "(nat \<Rightarrow> 's \<Rightarrow> bool) \<Rightarrow> nat \<Rightarrow> bool \<Rightarrow> 's option \<Rightarrow> bool" where
  "step_ok I n bad r \<longleftrightarrow> (case r of None \<Rightarrow> bad | Some s \<Rightarrow> \<not> bad \<and> I n s)"

lemma load_aes_step:
  assumes ks: "store_upto L n ks" and n: "int n \<le> INT_MAX" and mem: "\<And>k. EVP_MAX_KEY_LENGTH L \<le> length (mem k)"
  shows "step_ok (store_upto L) (Suc n) (aes_entry_bad L kf key) (keystore_load_aeskey L mem kf key ks)"
proof (cases "\<exists>l0 l1. kf_get L kf ''aes'' key = Some [l0, l1]")
  case False
  then have "keystore_load_aeskey L mem kf key ks = Some ks" "\<not> aes_entry_bad L kf key"
    by (auto simp: keystore_load_aeskey_def aes_entry_bad_def split: option.splits list.splits)
  then show ?thesis using store_upto_Suc [OF ks] by (simp add: step_ok_def)
next
  case True
  then obtain l0 l1 where l: "kf_get L kf ''aes'' key = Some [l0, l1]" by auto
  let ?b = "base64_decode L l1"
  let ?k = "\<lparr>aes_keylen = int (length ?b) * 8, aes_bytes = ?b @ drop (length ?b) (take (EVP_MAX_KEY_LENGTH L) (mem key))\<rparr>"
  have bad: "aes_entry_bad L kf key \<longleftrightarrow> atoi key = None \<or> atoi l0 \<noteq> Some (int (length ?b) * 8) \<or> EVP_MAX_KEY_LENGTH L < length ?b"
    by (simp add: aes_entry_bad_def l)
  show ?thesis
  proof (cases "aes_entry_bad L kf key")
    case True
    then have "keystore_load_aeskey L mem kf key ks = None"
      unfolding bad keystore_load_aeskey_def l by (cases "atoi key"; cases "atoi l0"; simp add: Let_def)
    with True show ?thesis by (simp add: step_ok_def)
  next
    case False
    then obtain i where i: "atoi key = Some i" and l0: "atoi l0 = Some (int (length ?b) * 8)"
      and len: "length ?b \<le> EVP_MAX_KEY_LENGTH L" by (auto simp: bad)
    from store_upto_tables [OF ks] obtain a where a: "ks_aes ks = Table a" "table_ok (Table a)" "card (dom a) \<le> n" by metis
    obtain r where r: "keystore_key_replace (Table a) ?k i = Some (Table (a(r \<mapsto> ?k)), r)"
        "table_ok (Table (a(r \<mapsto> ?k)))" "card (dom (a(r \<mapsto> ?k))) \<le> Suc (card (dom a))"
      by (rule replace_one [OF a(2) _ atoi_i32 [OF i]]) (use a n in auto)
    have "aes_key_ok L ?k" using len atoi_i32 [OF l0] mem [of key] by (auto simp: aes_key_ok_def)
    from store_upto_aes [OF ks a(1) r(2,3) this] len False show ?thesis
      by (simp add: step_ok_def keystore_load_aeskey_def l i l0 a(1) r(1) Let_def del: keystore_key_replace.simps)
  qed
qed

lemma load_rsa_step:
  assumes ks: "store_upto L n ks" and n: "int n \<le> INT_MAX"
  shows "step_ok (store_upto L) (Suc n) (rsa_entry_bad L kf key) (keystore_load_rsakey L kf key ks)"
proof (cases "\<exists>l0 l1. kf_get L kf ''rsa'' key = Some [l0, l1]")
  case False
  then have "keystore_load_rsakey L kf key ks = Some ks" "\<not> rsa_entry_bad L kf key"
    by (auto simp: keystore_load_rsakey_def rsa_entry_bad_def split: option.splits list.splits)
  then show ?thesis using store_upto_Suc [OF ks] by (simp add: step_ok_def)
next
  case True
  then obtain l0 l1 where l: "kf_get L kf ''rsa'' key = Some [l0, l1]" by auto
  have bad: "rsa_entry_bad L kf key \<longleftrightarrow> atoi key = None \<or> atoi l0 = None" by (simp add: rsa_entry_bad_def l)
  show ?thesis
  proof (cases "rsa_entry_bad L kf key")
    case True
    then have "keystore_load_rsakey L kf key ks = None"
      unfolding bad keystore_load_rsakey_def l by (cases "atoi key"; cases "atoi l0"; simp)
    with True show ?thesis by (simp add: step_ok_def)
  next
    case False
    then obtain i m where i: "atoi key = Some i" and m: "atoi l0 = Some m" by (auto simp: bad)
    show ?thesis
    proof (cases "d2i L (base64_decode L l1)")
      case None
      then show ?thesis using False store_upto_Suc [OF ks]
        by (simp add: step_ok_def keystore_load_rsakey_def l i m Let_def)
    next
      case (Some rsa)
      let ?k = "\<lparr>rsa_keylen = m, rsa_rsa = rsa\<rparr>"
      from store_upto_tables [OF ks] obtain a where a: "ks_rsa ks = Table a" "table_ok (Table a)" "card (dom a) \<le> n" by metis
      obtain r where r: "keystore_key_replace (Table a) ?k i = Some (Table (a(r \<mapsto> ?k)), r)"
          "table_ok (Table (a(r \<mapsto> ?k)))" "card (dom (a(r \<mapsto> ?k))) \<le> Suc (card (dom a))"
        by (rule replace_one [OF a(2) _ atoi_i32 [OF i]]) (use a n in auto)
      have "in_i32 (rsa_keylen ?k)" using atoi_i32 [OF m] by simp
      from store_upto_rsa [OF ks a(1) r(2,3) this] False Some show ?thesis
        by (simp add: step_ok_def keystore_load_rsakey_def l i m a(1) r(1) Let_def del: keystore_key_replace.simps)
    qed
  qed
qed

section \<open>The loops\<close>

lemma load_all_step:
  assumes step: "\<And>k s n. I n s \<Longrightarrow> n < N \<Longrightarrow> step_ok I (Suc n) (bad k) (f k s)"
    and "I n s" and "n + length ks \<le> N"
  shows "step_ok I (n + length ks) (\<exists>k \<in> set ks. bad k) (load_all f ks s)"
  using assms(2,3)
proof (induction ks arbitrary: n s)
  case Nil
  then show ?case by (simp add: step_ok_def)
next
  case (Cons k ks)
  have st: "step_ok I (Suc n) (bad k) (f k s)" using Cons.prems step by simp
  show ?case
  proof (cases "f k s")
    case None
    with st show ?thesis by (simp add: step_ok_def)
  next
    case (Some s')
    with st have "\<not> bad k" "I (Suc n) s'" by (simp_all add: step_ok_def)
    with Cons.IH [of "Suc n" s'] Cons.prems Some show ?thesis by simp
  qed
qed

lemma empty_store_upto: "store_upto L 0 \<lparr>ks_aes = Table Map.empty, ks_rsa = Table Map.empty\<rparr>"
  by (simp add: store_upto_def store_ok_def)

lemma load_steps:
  assumes mem: "\<And>k. EVP_MAX_KEY_LENGTH L \<le> length (mem k)"
    and few: "int (length as + length rs) \<le> INT_MAX"
  shows "step_ok (store_upto L) (length as + length rs)
    ((\<exists>k \<in> set as. aes_entry_bad L kf k) \<or> (\<exists>k \<in> set rs. rsa_entry_bad L kf k))
    (Option.bind (load_all (keystore_load_aeskey L mem kf) as \<lparr>ks_aes = Table Map.empty, ks_rsa = Table Map.empty\<rparr>)
       (load_all (keystore_load_rsakey L kf) rs))"
proof -
  let ?s = "\<lparr>ks_aes = Table Map.empty, ks_rsa = Table Map.empty\<rparr>" and ?N = "length as + length rs"
  have 1: "step_ok (store_upto L) (0 + length as) (\<exists>k \<in> set as. aes_entry_bad L kf k)
      (load_all (keystore_load_aeskey L mem kf) as ?s)"
    by (rule load_all_step [where N = ?N])
      (use few in \<open>auto intro: load_aes_step [OF _ _ mem] empty_store_upto\<close>)
  show ?thesis
  proof (cases "load_all (keystore_load_aeskey L mem kf) as ?s")
    case None
    with 1 show ?thesis by (simp add: step_ok_def)
  next
    case (Some ks)
    with 1 have a: "\<not> (\<exists>k \<in> set as. aes_entry_bad L kf k)" "store_upto L (length as) ks" by (simp_all add: step_ok_def)
    have "step_ok (store_upto L) (length as + length rs) (\<exists>k \<in> set rs. rsa_entry_bad L kf k)
        (load_all (keystore_load_rsakey L kf) rs ks)"
      by (rule load_all_step [where N = ?N])
        (use few a(2) in \<open>auto intro: load_rsa_step\<close>)
    with a(1) Some show ?thesis by simp
  qed
qed

section \<open>The property\<close>

lemma bind_then_map: "Option.bind m (\<lambda>y. Option.bind (f y) (\<lambda>z. Some (g z))) = map_option g (Option.bind m f)"
proof (cases m)
  case (Some y)
  then show ?thesis by (cases "f y") simp_all
qed simp

lemma step_ok_map:
  assumes "step_ok I n bad x" and "\<And>ks. I n ks \<Longrightarrow> P (g ks)"
  shows "case map_option (\<lambda>ks. (r0, d0, g ks)) x of None \<Rightarrow> bad
    | Some (r, d, s) \<Rightarrow> \<not> bad \<and> r = r0 \<and> d = d0 \<and> P s"
  using assms by (cases x) (simp_all add: step_ok_def)

lemma loaded_then_open:
  "Option.bind (map_option (Pair NYX_ERROR_NONE) x)
     (\<lambda>(r2, ks2). Option.bind (if r2 \<noteq> NYX_ERROR_NONE then keystore_destroy ks2 else Some ks2)
        (\<lambda>ks3. Some (r2, d, g ks3))) = map_option (\<lambda>ks. (NYX_ERROR_NONE, d, g ks)) x"
  by (cases x) simp_all

lemma close_defined: "store_ok L (sec_store s) \<Longrightarrow> security_module_close L pem ao ro mk wr file s \<noteq> None"
proof -
  assume ok: "store_ok L (sec_store s)"
  then obtain a r where T: "ks_aes (sec_store s) = Table a" "ks_rsa (sec_store s) = Table r"
    and a: "\<And>i k. a i = Some k \<Longrightarrow> aes_key_ok L k" by (auto elim: store_okE)
  have "table_foreach (keystore_save_aeskey L) a ao (kf_new L) \<noteq> None"
    by (rule foreach_defined) (simp add: save_aes_entry a)
  then obtain kf1 where 1: "table_foreach (keystore_save_aeskey L) a ao (kf_new L) = Some kf1" by blast
  have "table_foreach (keystore_save_rsakey L) r ro kf1 \<noteq> None"
    by (rule foreach_defined) (simp add: keystore_save_rsakey_def)
  with 1 have "keystore_save L ao ro mk wr (sec_store s) file \<noteq> None"
    by (auto simp: keystore_save_def T)
  with dump_defined [OF ok T, of pem ao ro] show ?thesis
    by (auto simp: security_module_close_def keystore_destroy_def T)
qed

text \<open>
  C30: Opening the module with any file whatever. A file that is no key file makes it fail, with the
  tables destroyed. Otherwise the process stops (an assertion, a copy past the end of an array, a
  number that does not fit) exactly when some entry is bad; if none is, opening succeeds and the
  store is well formed, so that the module can be closed.
\<close>

theorem security_open_any_file:
  assumes mem: "\<And>k. EVP_MAX_KEY_LENGTH L \<le> length (mem k)"
    and regs: "register_methods regs = NYX_ERROR_NONE" and dev: "dev \<noteq> NULL"
    and few: "\<And>kf. kf_load L data = Some kf \<Longrightarrow>
      int (length (concat (option_list (kf_keys L kf ''aes''))) + length (concat (option_list (kf_keys L kf ''rsa'')))) \<le> INT_MAX"
  shows "case kf_load L data of
      None \<Rightarrow> security_module_open L dev regs True True mem (Some data) (Some NULL) s =
        Some (NYX_ERROR_GENERIC, Some dev, s\<lparr>sec_store := \<lparr>ks_aes = Freed_Table, ks_rsa = Freed_Table\<rparr>\<rparr>)
    | Some kf \<Rightarrow>
        (let bad = (\<exists>k \<in> set (concat (option_list (kf_keys L kf ''aes''))). aes_entry_bad L kf k) \<or>
                   (\<exists>k \<in> set (concat (option_list (kf_keys L kf ''rsa''))). rsa_entry_bad L kf k) in
         case security_module_open L dev regs True True mem (Some data) (Some NULL) s of
           None \<Rightarrow> bad
         | Some (r, d, s') \<Rightarrow> \<not> bad \<and> r = NYX_ERROR_NONE \<and> d = Some dev \<and> store_ok L (sec_store s') \<and>
             (\<forall>pem ao ro mk wr file. security_module_close L pem ao ro mk wr file s' \<noteq> None))"
proof -
  have init: "keystore_init True True (sec_store s) =
      (NYX_ERROR_NONE, \<lparr>ks_aes = Table Map.empty, ks_rsa = Table Map.empty\<rparr>)"
    by (cases "sec_store s") (simp add: keystore_init_def)
  show ?thesis
  proof (cases "kf_load L data")
    case None
    then show ?thesis by (simp add: security_module_open_def init regs dev keystore_load_def keystore_destroy_def)
  next
    case (Some kf)
    let ?load = "Option.bind (load_all (keystore_load_aeskey L mem kf) (concat (option_list (kf_keys L kf ''aes'')))
         \<lparr>ks_aes = Table Map.empty, ks_rsa = Table Map.empty\<rparr>)
       (load_all (keystore_load_rsakey L kf) (concat (option_list (kf_keys L kf ''rsa''))))"
    have op: "security_module_open L dev regs True True mem (Some data) (Some NULL) s =
        map_option (\<lambda>ks. (NYX_ERROR_NONE, Some dev, s\<lparr>sec_store := ks\<rparr>)) ?load"
      by (simp add: security_module_open_def init regs dev keystore_load_def Some load_keys_case bind_then_map
          loaded_then_open)
    note st = load_steps [where kf = kf, OF mem few [OF Some]]
    show ?thesis unfolding Some option.case Let_def op
      by (rule step_ok_map [OF st]) (simp add: store_upto_def close_defined)
  qed
qed

text \<open>A file whose AES key is a byte longer than it says.\<close>

theorem security_open_any_file_witness:
  "security_module_open ex_store_lib 4 [] True True (\<lambda>_. replicate 64 0)
     (Some (ex_set (\<lambda>_ _. None, \<lambda>_. None) ''aes'' ''7'' [''8'', ''FFFF''])) (Some NULL) ex_security = None"
proof -
  let ?kf = "ex_set (\<lambda>_ _. None, \<lambda>_. None) ''aes'' ''7'' [''8'', ''FFFF'']"
  have len: "EVP_MAX_KEY_LENGTH ex_store_lib \<le> length (replicate 64 (0 :: u8))" by (simp add: ex_store_lib_def)
  have l: "kf_load ex_store_lib ?kf = Some ?kf" by (simp add: ex_store_lib_def)
  have k: "kf_keys ex_store_lib ?kf ''aes'' = Some [''7'']" "kf_keys ex_store_lib ?kf ''rsa'' = None"
    by (simp_all add: ex_store_lib_def ex_set_def)
  have a: "atoi ''8'' = Some 8" by code_simp
  have b: "aes_entry_bad ex_store_lib ?kf ''7''"
    by (simp add: aes_entry_bad_def ex_store_lib_def ex_set_def a)
  show ?thesis
    using security_open_any_file [of ex_store_lib "\<lambda>_. replicate 64 0" "[]" 4 ?kf ex_security] len b
    by (simp add: l k INT_MAX_def split: option.splits prod.splits)
qed

end
