(* ===== verification/Security_Test_Passes.thy ===== *)
theory Security_Test_Passes
  imports Security_Test_Service Security_Load
begin

text \<open>
  The module provides the service that its test program needs: with libraries and a system that
  behave as documented, the test program passes.
\<close>

section \<open>The documented behaviour\<close>

text \<open>
  Beside the laws of the other theories: allocation and random numbers do not fail, keys are
  generated in the length that is asked for, encryption does not fail, RSA writes as many
  bytes as the key has, tables enumerate their indices once each, and SHA-256 and SHA-512 of the tested
  string are the expected ones, whatever the table of the module says.
\<close>

definition memory_ok :: "('kf, 'd, 'r, 'h) test_env \<Rightarrow> bool" where
  "memory_ok E \<longleftrightarrow> te_dev E \<noteq> NULL \<and> (\<forall>n. te_ctx E n \<noteq> NULL) \<and>
     (\<forall>n. length (te_block E n) = EVP_MAX_KEY_LENGTH (te_store E)) \<and>
     (\<forall>n k. EVP_MAX_KEY_LENGTH (te_store E) \<le> length (te_mem E n k)) \<and>
     (\<forall>n m. fst (te_rand E n m) = 1 \<and> length (snd (te_rand E n m)) = m) \<and>
     (\<forall>t. finite (dom t) \<longrightarrow> enumerates (te_aes_order E t) t) \<and>
     (\<forall>t. finite (dom t) \<longrightarrow> enumerates (te_rsa_order E t) t)"

definition crypto_ok :: "('kf, 'd, 'r, 'h) test_env \<Rightarrow> bool" where
  "crypto_ok E \<longleftrightarrow> cipher_lib_ok (te_cipher E) \<and> rsa_lib_ok (te_rsa E) \<and>
     (\<forall>c key iv p. cipher_update (te_cipher E) c True key iv p (int (length p)) \<noteq> None \<and>
        cipher_final (te_cipher E) c True key iv p (int (length p)) \<noteq> None) \<and>
     (\<forall>n l. l \<in> {2048, 4096} \<longrightarrow> fst (te_gen E n l) = 1 \<and> RSA_size (te_rsa E) (snd (te_gen E n l)) * 8 = l) \<and>
     (\<forall>seed r p. int (length p) + 41 < RSA_size (te_rsa E) r \<longrightarrow>
        (\<exists>c. rsa_public_encrypt (te_rsa E) seed r p = Some c \<and> int (length c) = RSA_size (te_rsa E) r))"

definition module_digest :: "('kf, 'd, 'r, 'h) test_env \<Rightarrow> string \<Rightarrow> u8 list \<Rightarrow> string option" where
  "module_digest E name msg = map_option
     (\<lambda>algo. base64_encode (te_store E) (md_final (te_md E) (md_update (te_md E) (md_init (te_md E) algo) msg)))
     (sha_algo_data_lookup (te_md E) name)"

definition digests_ok :: "('kf, 'd, 'r, 'h) test_env \<Rightarrow> test_consts \<Rightarrow> bool" where
  "digests_ok E K \<longleftrightarrow>
     tc_sha256 K = SN_sha256 (te_md E) \<and> tc_sha512 K = SN_sha512 (te_md E) \<and> SN_sha256 (te_md E) \<noteq> SN_sha512 (te_md E) \<and>
     base64_encode (te_store E) (md_final (te_md E) (md_update (te_md E) (md_init (te_md E) EVP_sha256) (map of_char ''foobar'')))
       = sha256_foobar \<and>
     base64_encode (te_store E) (md_final (te_md E) (md_update (te_md E) (md_init (te_md E) EVP_sha512) (map of_char ''foobar'')))
       = sha512_foobar \<and>
     (\<forall>h. length (md_final (te_md E) h) \<le> tc_max_md K * 2 \<and>
        length (base64_encode (te_store E) (md_final (te_md E) h)) < tc_max_md K * 2)"

definition env_ok :: "('kf, 'd, 'r, 'h) test_env \<Rightarrow> test_consts \<Rightarrow> bool" where
  "env_ok E K \<longleftrightarrow> store_lib_ok (te_store E) \<and> memory_ok E \<and> crypto_ok E \<and> digests_ok E K \<and> consts_ok K \<and>
     tc_cbc K = NYX_SECURITY_AES_CBC (te_cipher E)"

section \<open>The states of the service\<close>

definition key_room :: "nat \<Rightarrow> 'r keystore \<Rightarrow> bool" where
  "key_room n ks \<longleftrightarrow> int (card (dom (table_map (ks_aes ks))) + n) \<le> INT_MAX \<and>
     int (card (dom (table_map (ks_rsa ks))) + n) \<le> INT_MAX"

text \<open>A file that the module saved, or none, with room for \<open>n\<close> more keys.\<close>

definition saved_file :: "('kf, 'd, 'r) store_lib \<Rightarrow> nat \<Rightarrow> 'd option \<Rightarrow> bool" where
  "saved_file L n file \<longleftrightarrow> (file = None \<and> int n \<le> INT_MAX) \<or>
     (\<exists>ks ao ro old. store_ok L ks \<and> key_room n ks \<and> enumerates ao (table_map (ks_aes ks)) \<and>
        enumerates ro (table_map (ks_rsa ks)) \<and> keystore_save L ao ro True True ks old = Some file)"

definition closed_world :: "('kf, 'd, 'r, 'h) test_env \<Rightarrow> test_consts \<Rightarrow> nat \<Rightarrow> ('d, 'r, 'h) test_world \<Rightarrow> bool" where
  "closed_world E K n w \<longleftrightarrow> env_ok E K \<and> saved_file (te_store E) n (tw_file w) \<and> sha_ok (sec_sha (tw_sec w))"

definition live_world :: "('kf, 'd, 'r, 'h) test_env \<Rightarrow> test_consts \<Rightarrow> nat \<Rightarrow> ('d, 'r, 'h) test_world \<Rightarrow> bool" where
  "live_world E K n w \<longleftrightarrow> env_ok E K \<and> store_ok (te_store E) (sec_store (tw_sec w)) \<and>
     key_room n (sec_store (tw_sec w)) \<and> sha_ok (sec_sha (tw_sec w))"

definition aes_lengths :: "('d, 'r, 'h) test_world \<Rightarrow> int \<Rightarrow> int option" where
  "aes_lengths w i = map_option aes_keylen (table_map (ks_aes (sec_store (tw_sec w))) i)"

definition rsa_lengths :: "('kf, 'd, 'r, 'h) test_env \<Rightarrow> ('d, 'r, 'h) test_world \<Rightarrow> int \<Rightarrow> int option" where
  "rsa_lengths E w i = map_option (\<lambda>k. RSA_size (te_rsa E) (rsa_rsa k) * 8) (table_map (ks_rsa (sec_store (tw_sec w))) i)"

lemma tw_sec_ticked [simp]: "tw_sec (ticked w s) = s"
  by (simp add: ticked_def)

lemma live_ticked [simp]:
  "live_world E K n (ticked w s) \<longleftrightarrow> env_ok E K \<and> store_ok (te_store E) (sec_store s) \<and> key_room n (sec_store s) \<and> sha_ok (sec_sha s)"
  by (simp add: live_world_def)

lemma lengths_ticked [simp]:
  "aes_lengths (ticked w s) i = map_option aes_keylen (table_map (ks_aes (sec_store s)) i)"
  "rsa_lengths E (ticked w s) i = map_option (\<lambda>k. RSA_size (te_rsa E) (rsa_rsa k) * 8) (table_map (ks_rsa (sec_store s)) i)"
  by (simp_all add: aes_lengths_def rsa_lengths_def)

lemma live_tables:
  assumes "live_world E K n w"
  obtains a r where "ks_aes (sec_store (tw_sec w)) = Table a" and "ks_rsa (sec_store (tw_sec w)) = Table r"
    and "finite (dom a)" and "finite (dom r)"
    and "int (card (dom a) + n) \<le> INT_MAX" and "int (card (dom r) + n) \<le> INT_MAX"
  using assms by (auto simp: live_world_def key_room_def elim!: store_okE)

section \<open>Opening and closing\<close>

lemma module_close:
  assumes live: "live_world E K n w"
  shows "\<exists>w'. nc_close (module_client E) w = Some (NYX_ERROR_NONE, w') \<and> closed_world E K n w'"
proof -
  obtain a r where T: "ks_aes (sec_store (tw_sec w)) = Table a" "ks_rsa (sec_store (tw_sec w)) = Table r"
    and fin: "finite (dom a)" "finite (dom r)"
    by (rule live_tables [OF live])
  have E: "env_ok E K" and ok: "store_ok (te_store E) (sec_store (tw_sec w))" and L: "store_lib_ok (te_store E)"
    using live by (simp_all add: live_world_def env_ok_def)
  have o: "enumerates (te_aes_order E a) a" "enumerates (te_rsa_order E r) r"
    using E fin by (simp_all add: env_ok_def memory_ok_def)
  obtain data where save: "keystore_save (te_store E) (te_aes_order E a) (te_rsa_order E r) True True (sec_store (tw_sec w)) (tw_file w)
      = Some (Some data)"
    by (rule save_load [OF L ok T o])
  obtain out where dump: "keystore_dump (te_pem E) (te_aes_order E a) (te_rsa_order E r) (sec_store (tw_sec w)) = Some out"
    using dump_defined [OF ok T] by blast
  have "saved_file (te_store E) n (Some data)"
    unfolding saved_file_def using ok live o save by (force simp: T live_world_def)
  then show ?thesis
    using E live by (simp add: module_client_def security_module_close_def T save dump keystore_destroy_def closed_world_def
        live_world_def ticked_def)
qed

lemma init_empty:
  "keystore_init True True ks = (NYX_ERROR_NONE, \<lparr>ks_aes = Table Map.empty, ks_rsa = Table Map.empty\<rparr>)"
  by (cases ks) (simp add: keystore_init_def)

text \<open>What is loaded from a saved file.\<close>

lemma load_saved:
  assumes L: "store_lib_ok L" and f: "saved_file L n file" and mem: "\<And>k. EVP_MAX_KEY_LENGTH L \<le> length (mem k)"
  obtains ks where "keystore_load L mem file \<lparr>ks_aes = Table Map.empty, ks_rsa = Table Map.empty\<rparr> = Some (NYX_ERROR_NONE, ks)"
    and "store_ok L ks" and "key_room n ks"
proof (cases "file")
  case None
  then have "int n \<le> INT_MAX"
    using f by (auto simp: saved_file_def keystore_save_def elim!: bind_eq_SomeE)
  with None show ?thesis
    by (intro that [of "\<lparr>ks_aes = Table Map.empty, ks_rsa = Table Map.empty\<rparr>"]) (simp_all add: keystore_load_def store_ok_def key_room_def)
next
  case (Some data)
  then obtain ks ao ro old where ks: "store_ok L ks" "key_room n ks" "enumerates ao (table_map (ks_aes ks))"
      "enumerates ro (table_map (ks_rsa ks))" "keystore_save L ao ro True True ks old = Some (Some data)"
    using f by (auto simp: saved_file_def)
  obtain a r where T: "ks_aes ks = Table a" "ks_rsa ks = Table r" using ks(1) by (auto elim: store_okE)
  have e: "enumerates ao a" "enumerates ro r" using ks T by simp_all
  obtain data' where d: "keystore_save L ao ro True True ks old = Some (Some data')"
    "keystore_load L mem (Some data') \<lparr>ks_aes = Table Map.empty, ks_rsa = Table Map.empty\<rparr> =
      Some (NYX_ERROR_NONE, reloaded_store L mem a r)"
    by (rule save_load [OF L ks(1) T e])
  have "dom (\<lambda>i. map_option (reloaded L (mem (print_int i))) (a i)) = dom a" by auto
  then have "key_room n (reloaded_store L mem a r)"
    using ks(2) by (simp add: key_room_def reloaded_store_def T)
  with that d ks(5) reloaded_store_ok [OF ks(1) T mem] show ?thesis by (simp add: Some)
qed

lemma sha_start_ok: "sha_ok sha_start"
  by (simp add: sha_ok_def sha_start_def)

lemma module_open:
  assumes closed: "closed_world E K n w"
  shows "\<exists>w'. nc_open (module_client E) w = Some (NYX_ERROR_NONE, True, w') \<and> live_world E K n w'"
proof -
  have E: "env_ok E K" and L: "store_lib_ok (te_store E)" and f: "saved_file (te_store E) n (tw_file w)"
    and mem: "\<And>k. EVP_MAX_KEY_LENGTH (te_store E) \<le> length (te_mem E (tw_time w) k)" and dev: "te_dev E \<noteq> NULL"
    using closed by (auto simp: closed_world_def env_ok_def memory_ok_def)
  obtain ks where ks: "keystore_load (te_store E) (te_mem E (tw_time w)) (tw_file w)
      \<lparr>ks_aes = Table Map.empty, ks_rsa = Table Map.empty\<rparr> = Some (NYX_ERROR_NONE, ks)"
    "store_ok (te_store E) ks" "key_room n ks"
    by (rule load_saved [OF L f mem])
  have "register_methods (replicate 7 NYX_ERROR_NONE) = NYX_ERROR_NONE" by (simp add: numeral_eq_Suc)
  with E dev ks closed show ?thesis
    by (simp add: module_client_def security_module_open_def init_empty closed_world_def sha_start_ok security_start_def)
qed

section \<open>Creating keys\<close>

lemma random_bytes: "memory_ok E \<Longrightarrow> \<exists>bs. te_rand E n m = (1, bs) \<and> length bs = m"
  by (simp add: memory_ok_def prod_eq_iff)

lemma key_room_aes:
  assumes "key_room (Suc n) ks" and "ks_aes ks = Table a" and "finite (dom a)"
  shows "key_room n (ks\<lparr>ks_aes := Table (a(i \<mapsto> k))\<rparr>)"
  using assms by (auto simp: key_room_def card_insert_if)

lemma key_room_rsa:
  assumes "key_room (Suc n) ks" and "ks_rsa ks = Table r" and "finite (dom r)"
  shows "key_room n (ks\<lparr>ks_rsa := Table (r(i \<mapsto> k))\<rparr>)"
  using assms by (auto simp: key_room_def card_insert_if)

lemma module_create_aes:
  assumes live: "live_world E K (Suc n) w" and keylen: "keylen \<in> {128, 256}" and index: "in_i32 index"
  shows "\<exists>i w'. nc_create_aes_key (module_client E) keylen index w = Some (NYX_ERROR_NONE, i, w') \<and>
    live_world E K n w' \<and> aes_lengths w' = (aes_lengths w)(i \<mapsto> keylen) \<and>
    (if index = -1 then 0 \<le> i \<and> aes_lengths w i = None \<and> (\<forall>j. 0 \<le> j \<and> j < i \<longrightarrow> aes_lengths w j \<noteq> None) else i = index)"
proof -
  obtain a r where T: "ks_aes (sec_store (tw_sec w)) = Table a" "ks_rsa (sec_store (tw_sec w)) = Table r" "finite (dom a)"
    and room: "int (card (dom a)) \<le> INT_MAX"
    by (rule live_tables [OF live]) simp
  have E: "env_ok E K" and ok: "store_ok (te_store E) (sec_store (tw_sec w))" and L: "store_lib_ok (te_store E)"
    and block: "length (te_block E (tw_time w)) = EVP_MAX_KEY_LENGTH (te_store E)"
    using live by (auto simp: live_world_def env_ok_def memory_ok_def)
  obtain bs where rand: "te_rand E (tw_time w) (nat (keylen div 8)) = (1, bs)" and bs: "length bs = nat (keylen div 8)"
    using random_bytes E unfolding env_ok_def by metis
  have supp: "aes_supported_keylength (te_cipher E) keylen" using keylen by (simp add: aes_supported_iff)
  obtain i k where g: "aes_generate_key (te_cipher E) (Some (te_block E (tw_time w))) (te_rand E (tw_time w)) keylen index
        (sec_store (tw_sec w)) = Some (NYX_ERROR_NONE, i, (sec_store (tw_sec w))\<lparr>ks_aes := Table (a(i \<mapsto> k))\<rparr>)"
    and i: "if index = -1 then 0 \<le> i \<and> i \<le> int (card (dom a)) \<and> a i = None \<and> (\<forall>j. 0 \<le> j \<and> j < i \<longrightarrow> a j \<noteq> None) else i = index"
    and k: "aes_view k = (keylen, bs)"
      "store_ok (te_store E) ((sec_store (tw_sec w))\<lparr>ks_aes := Table (a(i \<mapsto> k))\<rparr>)"
    by (rule generate_aes_key [where rand = "te_rand E (tw_time w)", OF L ok T(1) room supp block rand bs index])
  let ?s = "(tw_sec w)\<lparr>sec_store := (sec_store (tw_sec w))\<lparr>ks_aes := Table (a(i \<mapsto> k))\<rparr>\<rparr>"
  have "aes_keylen k = keylen" using k(1) by (simp add: aes_view_def)
  then have "aes_lengths (ticked w ?s) = (aes_lengths w)(i \<mapsto> keylen)" by (auto simp: fun_eq_iff aes_lengths_def T)
  moreover have "live_world E K n (ticked w ?s)"
    using live k(2) key_room_aes [OF _ T(1,3)] by (simp add: live_world_def)
  moreover have "nc_create_aes_key (module_client E) keylen index w = Some (NYX_ERROR_NONE, i, ticked w ?s)"
    by (simp add: module_client_def security_create_aes_key_def g)
  moreover have "if index = -1 then 0 \<le> i \<and> aes_lengths w i = None \<and> (\<forall>j. 0 \<le> j \<and> j < i \<longrightarrow> aes_lengths w j \<noteq> None) else i = index"
    using i by (auto simp: aes_lengths_def T)
  ultimately show ?thesis by blast
qed

lemma module_create_rsa:
  assumes live: "live_world E K (Suc n) w" and keylen: "keylen \<in> {2048, 4096}" and index: "in_i32 index"
  shows "\<exists>i w'. nc_create_rsa_key (module_client E) keylen index w = Some (NYX_ERROR_NONE, i, w') \<and>
    live_world E K n w' \<and> rsa_lengths E w' = (rsa_lengths E w)(i \<mapsto> keylen) \<and>
    (if index = -1 then 0 \<le> i \<and> rsa_lengths E w i = None \<and> (\<forall>j. 0 \<le> j \<and> j < i \<longrightarrow> rsa_lengths E w j \<noteq> None) else i = index)"
proof -
  obtain a r where T: "ks_aes (sec_store (tw_sec w)) = Table a" "ks_rsa (sec_store (tw_sec w)) = Table r" "finite (dom r)"
    and room: "int (card (dom r)) \<le> INT_MAX"
    by (rule live_tables [OF live]) simp
  have ok: "store_ok (te_store E) (sec_store (tw_sec w))"
    and gen: "fst (te_gen E (tw_time w) keylen) = 1" "RSA_size (te_rsa E) (snd (te_gen E (tw_time w) keylen)) * 8 = keylen"
    using live keylen by (auto simp: live_world_def env_ok_def crypto_ok_def)
  let ?k = "\<lparr>rsa_keylen = keylen, rsa_rsa = snd (te_gen E (tw_time w) keylen)\<rparr>"
  obtain f where f: "next_free r 0 = Some f" "0 \<le> f" "f \<le> int (card (dom r))" "r f = None" "\<And>j. 0 \<le> j \<Longrightarrow> j < f \<Longrightarrow> r j \<noteq> None"
    using next_free_bound [OF T(3) room] by metis
  let ?i = "if index = -1 then f else index"
  let ?ks = "(sec_store (tw_sec w))\<lparr>ks_rsa := Table (r(?i \<mapsto> ?k))\<rparr>"
  have i: "in_i32 ?i" "?i \<noteq> -1" using f room index by (auto simp: in_i32_def INT_MIN_def)
  have "in_i32 keylen" using keylen by (auto simp: in_i32_def INT_MIN_def INT_MAX_def)
  with ok i T have "store_ok (te_store E) ?ks" by (auto simp: store_ok_def)
  then have "live_world E K n (ticked w ((tw_sec w)\<lparr>sec_store := ?ks\<rparr>))"
    using live key_room_rsa [OF _ T(2,3)] by (simp add: live_world_def)
  moreover have "nc_create_rsa_key (module_client E) keylen index w =
      Some (NYX_ERROR_NONE, ?i, ticked w ((tw_sec w)\<lparr>sec_store := ?ks\<rparr>))"
    using keylen f(1) by (auto simp: module_client_def security_create_rsa_key_def rsa_generate_key_def gen(1) T(2))
  moreover have "rsa_lengths E (ticked w ((tw_sec w)\<lparr>sec_store := ?ks\<rparr>)) = (rsa_lengths E w)(?i \<mapsto> keylen)"
    using gen(2) by (auto simp: fun_eq_iff rsa_lengths_def T)
  moreover have "if index = -1 then 0 \<le> ?i \<and> rsa_lengths E w ?i = None \<and> (\<forall>j. 0 \<le> j \<and> j < ?i \<longrightarrow> rsa_lengths E w j \<noteq> None) else ?i = index"
    using f by (auto simp: rsa_lengths_def T)
  ultimately show ?thesis by blast
qed

section \<open>Using keys\<close>

text \<open>A call that succeeds in the module and leaves its state alone.\<close>

lemma client_crypt_aes:
  "aes_crypt (te_cipher E) (te_rand E (tw_time w)) (sec_store (tw_sec w)) i enc mode src srclen dest dl ivlen = Some (r, out, n, iv) \<Longrightarrow>
    nc_crypt_aes (module_client E) i mode enc src srclen dest dl ivlen w = Some (r, out, n, iv, ticked w (tw_sec w))"
  by (simp add: module_client_def security_aes_crypt_def)

lemma client_crypt_rsa:
  "rsa_crypt (te_rsa E) (te_seed E (tw_time w)) (sec_store (tw_sec w)) i enc src srclen dest dl = Some (r, out, n) \<Longrightarrow>
    nc_crypt_rsa (module_client E) i enc src srclen dest dl w = Some (r, out, n, ticked w (tw_sec w))"
  by (simp add: module_client_def security_rsa_crypt_def)

lemma live_again: "live_world E K n w \<Longrightarrow> live_world E K n (ticked v (tw_sec w))"
  by (simp add: live_world_def)

lemma cipher_total:
  "crypto_ok E \<Longrightarrow> \<exists>w1 n1 w2 n2. cipher_update (te_cipher E) c True key iv p (int (length p)) = Some (w1, n1) \<and>
     cipher_final (te_cipher E) c True key iv p (int (length p)) = Some (w2, n2)"
  unfolding crypto_ok_def by (metis option.exhaust surj_pair)

lemma rsa_total:
  "crypto_ok E \<Longrightarrow> int (length p) + 41 < RSA_size (te_rsa E) r \<Longrightarrow>
    \<exists>c. rsa_public_encrypt (te_rsa E) seed r p = Some c \<and> int (length c) = RSA_size (te_rsa E) r"
  by (simp add: crypto_ok_def)

lemma module_crypt_aes:
  assumes live: "live_world E K n w" and key: "aes_lengths w i = Some l" and l: "l \<in> {128, 256}"
    and room: "length src + 47 \<le> length dest"
  shows "\<exists>enc m iv w'. nc_crypt_aes (module_client E) i (tc_cbc K) True src (int (length src)) dest dl 0 w =
      Some (NYX_ERROR_NONE, enc, m, iv, w') \<and> 0 < m \<and> live_world E K n w' \<and>
    (\<forall>dest' dl'. length src + 47 \<le> length dest' \<longrightarrow> (\<exists>pad iv' w''. nc_crypt_aes (module_client E) i (tc_cbc K) False enc m dest' dl' iv w' =
      Some (NYX_ERROR_NONE, src @ pad, int (length src), iv', w'') \<and> live_world E K n w''))"
proof -
  have E: "env_ok E K" and C: "cipher_lib_ok (te_cipher E)" using live by (simp_all add: live_world_def env_ok_def crypto_ok_def)
  obtain a where T: "ks_aes (sec_store (tw_sec w)) = Table a" by (rule live_tables [OF live])
  obtain k where k: "keystore_key_lookup (ks_aes (sec_store (tw_sec w))) i = Some (Some k)" "aes_keylen k = l"
    using key by (auto simp: aes_lengths_def T)
  obtain algo where algo: "aes_algo_data_lookup (te_cipher E) (aes_keylen k) (tc_cbc K) = Some algo"
    using l E k(2) by (auto simp: aes_lookup_Some env_ok_def)
  obtain iv0 where iv: "length iv0 = AES_BLOCK_SIZE" "te_rand E (tw_time w) AES_BLOCK_SIZE = (1, iv0)"
    using random_bytes E unfolding env_ok_def by metis
  let ?c = "algo_cipher algo"
  let ?key = "cipher_key ?c (aes_bytes k)"
  obtain w1 n1 w2 n2 where o: "cipher_update (te_cipher E) ?c True ?key iv0 src (int (length src)) = Some (w1, n1)"
      "cipher_final (te_cipher E) ?c True ?key iv0 src (int (length src)) = Some (w2, n2)"
    using cipher_total [of E] E unfolding env_ok_def by metis
  note law = cipher_lib_okD [OF C o]
  let ?d = "iv0 @ drop AES_BLOCK_SIZE dest"
  let ?m = "int (n1 + n2 + AES_BLOCK_SIZE)"
  have w: "write_at dest 0 iv0 = Some ?d" using room iv(1) by (simp add: write_at_0 AES_BLOCK_SIZE_def)
  have "AES_BLOCK_SIZE + length w1 \<le> length ?d" "AES_BLOCK_SIZE + n1 + length w2 \<le> length ?d"
    using room iv(1) law(1-4) by (simp_all add: AES_BLOCK_SIZE_def)
  then obtain b1 b2 where b: "write_at ?d AES_BLOCK_SIZE w1 = Some b1" "write_at b1 (AES_BLOCK_SIZE + n1) w2 = Some b2"
    by (rule write_at_room)
  obtain rest where "b2 = take AES_BLOCK_SIZE ?d @ take n1 w1 @ take n2 w2 @ rest"
    by (rule write_at_two [OF b law(1,3)])
  then have b2: "b2 = iv0 @ (take n1 w1 @ take n2 w2) @ rest" using iv(1) by simp
  have "aes_crypt (te_cipher E) (te_rand E (tw_time w)) (sec_store (tw_sec w)) i True (tc_cbc K) src (int (length src)) dest dl 0 =
      Some (NYX_ERROR_NONE, b2, ?m, int AES_BLOCK_SIZE)"
    using aes_run_ok [OF o b] by (simp add: aes_crypt_def k(1) algo iv(2) w)
  note client_crypt_aes [OF this] live_again [OF live, of w]
  moreover have "0 < ?m" by (simp add: AES_BLOCK_SIZE_def)
  moreover have "\<exists>pad iv' w''. nc_crypt_aes (module_client E) i (tc_cbc K) False b2 ?m dest' dl'
        (int AES_BLOCK_SIZE) (ticked w (tw_sec w)) =
      Some (NYX_ERROR_NONE, src @ pad, int (length src), iv', w'') \<and> live_world E K n w''"
    if room': "length src + 47 \<le> length dest'" for dest' dl'
  proof -
    let ?w = "ticked w (tw_sec w)"
    have key: "keystore_key_lookup (ks_aes (sec_store (tw_sec ?w))) i = Some (Some k)" using k(1) by simp
    have "n1 + n2 + 16 \<le> length dest'" using room' law(6) by simp
    from aes_decrypts [OF C iv(1) key algo o this, of "te_rand E (tw_time ?w)" rest dl'] obtain pad where
      "aes_crypt (te_cipher E) (te_rand E (tw_time ?w)) (sec_store (tw_sec ?w)) i False (tc_cbc K) b2 ?m dest' dl' (int AES_BLOCK_SIZE) =
        Some (NYX_ERROR_NONE, src @ pad, int (length src), int AES_BLOCK_SIZE)" unfolding b2 by blast
    from client_crypt_aes [OF this] live_again [OF live, of ?w] show ?thesis by (auto simp only: tw_sec_ticked)
  qed
  ultimately show ?thesis by blast
qed

lemma module_crypt_rsa:
  assumes live: "live_world E K n w" and key: "rsa_lengths E w i = Some l" and l: "int (length dest) * 8 = l"
    and room: "length src + 41 < length dest"
  shows "\<exists>enc m w'. nc_crypt_rsa (module_client E) i True src (int (length src)) dest dl w =
      Some (NYX_ERROR_NONE, enc, m, w') \<and> 0 < m \<and> live_world E K n w' \<and>
    (\<forall>dest' dl'. length src \<le> length dest' \<longrightarrow> (\<exists>w''. nc_crypt_rsa (module_client E) i False enc m dest' dl' w' =
      Some (NYX_ERROR_NONE, src @ drop (length src) dest', int (length src), w'') \<and> live_world E K n w''))"
proof -
  have C: "crypto_ok E" and R: "rsa_lib_ok (te_rsa E)" using live by (simp_all add: live_world_def env_ok_def crypto_ok_def)
  obtain r where T: "ks_rsa (sec_store (tw_sec w)) = Table r" by (rule live_tables [OF live])
  obtain k where k: "keystore_key_lookup (ks_rsa (sec_store (tw_sec w))) i = Some (Some k)"
      "RSA_size (te_rsa E) (rsa_rsa k) = int (length dest)"
    using key l by (auto simp: rsa_lengths_def T)
  obtain c where c: "rsa_public_encrypt (te_rsa E) (te_seed E (tw_time w)) (rsa_rsa k) src = Some c" "length c = length dest"
    using rsa_total [OF C, of src "rsa_rsa k" "te_seed E (tw_time w)"] room k(2) by auto
  then have p: "rsa_private_decrypt (te_rsa E) (rsa_rsa k) c = Some src" using R unfolding rsa_lib_ok_def by blast
  have "rsa_crypt (te_rsa E) (te_seed E (tw_time w)) (sec_store (tw_sec w)) i True src (int (length src)) dest dl =
      Some (NYX_ERROR_NONE, c, int (length c))"
    using room c by (simp add: rsa_crypt_def k write_at_0)
  note client_crypt_rsa [OF this] live_again [OF live, of w]
  moreover have "0 < int (length c)" using c(2) room by linarith
  moreover have "\<exists>w''. nc_crypt_rsa (module_client E) i False c (int (length c)) dest' dl' (ticked w (tw_sec w)) =
      Some (NYX_ERROR_NONE, src @ drop (length src) dest', int (length src), w'') \<and> live_world E K n w''"
    if room': "length src \<le> length dest'" for dest' dl'
  proof -
    have "rsa_crypt (te_rsa E) (te_seed E (tw_time (ticked w (tw_sec w)))) (sec_store (tw_sec (ticked w (tw_sec w)))) i False
        c (int (length c)) dest' dl' = Some (NYX_ERROR_NONE, src @ drop (length src) dest', int (length src))"
      using room' by (simp add: rsa_crypt_def k(1) p write_at_0)
    from client_crypt_rsa [OF this] live_again [OF live] show ?thesis by (simp only: tw_sec_ticked) blast
  qed
  ultimately show ?thesis by blast
qed

section \<open>Digests\<close>

lemma module_digests:
  assumes live: "live_world E K n w" and digest: "module_digest E name msg = Some str" and dest: "length dest = tc_max_md K * 2"
  shows "\<exists>w1 w2 rest w3. nc_init_hash (module_client E) name w = Some (NYX_ERROR_NONE, w1) \<and>
    nc_update_hash (module_client E) msg w1 = Some (NYX_ERROR_NONE, w2) \<and>
    nc_finalize_hash (module_client E) dest w2 = Some (NYX_ERROR_NONE, c_bytes str @ rest, w3) \<and> live_world E K n w3"
proof -
  have sha: "sha_ok (sec_sha (tw_sec w))" and ctx: "te_ctx E (tw_time w) \<noteq> NULL" and D: "digests_ok E K"
    using live by (simp_all add: live_world_def env_ok_def memory_ok_def)
  obtain algo where algo: "sha_algo_data_lookup (te_md E) name = Some algo"
    and str: "str = base64_encode (te_store E) (md_final (te_md E) (md_update (te_md E) (md_init (te_md E) algo) msg))"
    using digest by (auto simp: module_digest_def)
  obtain h1 where h1: "sha_init (te_md E) (te_ctx E (tw_time w)) 1 name (sec_sha (tw_sec w)) = Some (NYX_ERROR_NONE, h1)"
      "running_mdctx h1 = te_ctx E (tw_time w)" "mdctxs h1 (te_ctx E (tw_time w)) = Some (Some (md_init (te_md E) algo))"
    by (rule sha_init_defined [OF sha ctx algo])
  let ?h = "md_update (te_md E) (md_init (te_md E) algo) msg"
  obtain h2 where h2: "sha_update (te_md E) 1 msg h1 = Some (NYX_ERROR_NONE, h2)"
      "running_mdctx h2 = te_ctx E (tw_time w)" "mdctxs h2 (te_ctx E (tw_time w)) = Some (Some ?h)"
    using h1(2,3) ctx by (auto simp: sha_update_def)
  have fits: "length (md_final (te_md E) ?h) \<le> length dest" "length (c_bytes str) \<le> length dest"
    using D by (simp_all add: digests_ok_def dest str c_bytes_def Suc_le_eq)
  obtain h3 where h3: "sha_finalize (te_md E) 1 dest (-1) h2 =
      Some (NYX_ERROR_NONE, md_final (te_md E) ?h @ drop (length (md_final (te_md E) ?h)) dest, int (length (md_final (te_md E) ?h)), h3)"
    using h2(2,3) ctx fits(1) by (auto simp: sha_finalize_def write_at_0 mdctx_destroy_def)
  have ok: "sha_ok h3" using sha_finalize_ok [OF sha_update_ok [OF sha_init_ok [OF sha h1(1)] h2(1)] h3] .
  let ?w1 = "ticked w ((tw_sec w)\<lparr>sec_sha := h1\<rparr>)"
  let ?w2 = "ticked ?w1 ((tw_sec w)\<lparr>sec_sha := h2\<rparr>)"
  let ?w3 = "ticked ?w2 ((tw_sec w)\<lparr>sec_sha := h3\<rparr>)"
  have "nc_init_hash (module_client E) name w = Some (NYX_ERROR_NONE, ?w1)"
    by (simp add: module_client_def security_init_hash_def h1(1))
  moreover have "nc_update_hash (module_client E) msg ?w1 = Some (NYX_ERROR_NONE, ?w2)"
    by (simp add: module_client_def security_update_hash_def h2(1))
  moreover have "\<exists>rest. nc_finalize_hash (module_client E) dest ?w2 = Some (NYX_ERROR_NONE, c_bytes str @ rest, ?w3)"
    using fits by (simp add: module_client_def security_finalize_hash_def h3 write_at_0 flip: str)
  moreover have "live_world E K n ?w3" using live ok by (simp add: live_world_def)
  ultimately show ?thesis by blast
qed

section \<open>The program passes\<close>

interpretation tested_aes: key_creation "nc_create_aes_key (module_client E)" "{128, 256}" "live_world E K" aes_lengths
  by unfold_locales (rule module_create_aes)

interpretation tested_rsa: key_creation "nc_create_rsa_key (module_client E)" "{2048, 4096}" "live_world E K" "rsa_lengths E"
  by unfold_locales (rule module_create_rsa)

interpretation tested: security_service "module_client E" "live_world E K" aes_lengths "rsa_lengths E" K "closed_world E K"
  "module_digest E"
proof (unfold_locales, goal_cases)
  case 1 then show ?case by (simp add: module_client_def)
next
  case 2 then show ?case by (simp add: module_client_def)
next
  case 3 then show ?case by (rule module_open)
next
  case 4 then show ?case by (rule module_close)
next
  case 5 then show ?case by (simp add: live_world_def env_ok_def)
next
  case 6 then show ?case by (intro module_crypt_aes)
next
  case 7 then show ?case by (intro module_crypt_rsa)
next
  case 8 then show ?case by (rule module_digests)
next
  case 9 then show ?case by (simp add: live_world_def env_ok_def digests_ok_def module_digest_def sha_algo_data_lookup_def)
next
  case 10 then show ?case by (simp add: live_world_def env_ok_def digests_ok_def module_digest_def sha_algo_data_lookup_def)
qed

text \<open>
  C40: The whole test program passes: over the module, with libraries and a system that behave as
  documented, every assertion of every test holds, whatever keys an earlier run has left in the
  store's file, as long as there is room for 12 more; and the file the last test leaves is again one
  that the module can open.
\<close>

theorem security_test_program_passes:
  assumes E: "env_ok E K" and f: "saved_file (te_store E) (12 + n) start_file"
  shows "\<exists>w. test_main (module_client E) K \<lparr>tw_sec = security_start, tw_file = start_file, tw_time = 0\<rparr> = Some w \<and>
    saved_file (te_store E) n (tw_file w)"
proof -
  have "closed_world E K (12 + n) \<lparr>tw_sec = security_start, tw_file = start_file, tw_time = 0\<rparr>"
    using E f by (simp add: closed_world_def security_start_def sha_start_ok)
  from tested.main_passes [OF this] show ?thesis by (auto simp: closed_world_def)
qed

section \<open>A concrete environment\<close>

text \<open>Digests of a byte, whose printed forms are the expected ones; an RSA key is as long as its list.\<close>

definition ex_base64 :: "u8 list \<Rightarrow> string" where
  "ex_base64 bs = (if bs = [1] then sha256_foobar else if bs = [2] then sha512_foobar else CHR 0x21 # ex_encode bs)"

definition ex_unbase64 :: "string \<Rightarrow> u8 list" where
  "ex_unbase64 s = (if s = sha256_foobar then [1] else if s = sha512_foobar then [2] else ex_decode (tl s))"

definition ex_test_consts :: test_consts where
  "ex_test_consts = \<lparr>tc_cbc = 1, tc_max_block = 32, tc_max_iv = 16, tc_max_md = 64, tc_sha256 = ''SHA256'', tc_sha512 = ''SHA512'',
     tc_stack = (\<lambda>n. replicate n 170)\<rparr>"

definition ex_test_env :: "(ex_file, ex_file, u8 list, u8 list) test_env" where
  "ex_test_env = \<lparr>
     te_store = ex_store_lib\<lparr>base64_encode := ex_base64, base64_decode := ex_unbase64\<rparr>,
     te_cipher = ex_cipher_lib,
     te_rsa = \<lparr>RSA_size = (\<lambda>r. int (length r)),
       rsa_public_encrypt = (\<lambda>seed r p. if length p < length r then Some (replicate (length r - length p - 1) 0 @ 1 # p) else None),
       rsa_private_decrypt = (\<lambda>r c. Some (drop 1 (dropWhile (\<lambda>b. b = 0) c)))\<rparr>,
     te_md = \<lparr>SN_sha256 = ''SHA256'', SN_sha512 = ''SHA512'', md_init = (\<lambda>m. if m = EVP_sha256 then [1] else [2]),
       md_update = (@), md_final = (\<lambda>h. if take 1 h = [1] then [1] else [2])\<rparr>,
     te_pem = (\<lambda>r. ''PEM''), te_block = (\<lambda>n. replicate 64 (of_nat n)), te_mem = (\<lambda>n k. replicate 64 (of_nat n)),
     te_rand = (\<lambda>n m. (1, replicate m (of_nat n))), te_gen = (\<lambda>n l. (1, replicate (nat (l div 8)) (of_nat n))),
     te_seed = (\<lambda>n. n), te_ctx = (\<lambda>n. 5), te_dev = 4,
     te_aes_order = (\<lambda>t. sorted_list_of_set (dom t)), te_rsa_order = (\<lambda>t. rev (sorted_list_of_set (dom t))),
     te_reload = False\<rparr>"

lemma ex_digest_strings: "sha256_foobar \<noteq> sha512_foobar" "hd sha256_foobar \<noteq> CHR 0x21" "hd sha512_foobar \<noteq> CHR 0x21"
    "plain sha256_foobar" "plain sha512_foobar" "length sha256_foobar = 44" "length sha512_foobar = 88"
  unfolding plain_def by code_simp+

lemma ex_base64_roundtrip: "ex_unbase64 (ex_base64 bs) = bs"
proof -
  have "CHR 0x21 # s \<noteq> sha256_foobar" "CHR 0x21 # s \<noteq> sha512_foobar" for s
    using ex_digest_strings(2,3) by (metis list.sel(1))+
  then show ?thesis using ex_digest_strings(1) by (simp add: ex_base64_def ex_unbase64_def ex_encode_decode)
qed

lemma ex_base64_plain: "plain (ex_base64 bs)"
  using ex_encode_plain [of bs] ex_digest_strings(4,5) by (auto simp: ex_base64_def plain_def)

lemma ex_test_store_ok: "store_lib_ok (te_store ex_test_env)"
  using ex_store_lib_ok unfolding store_lib_ok_def
  by (simp add: ex_test_env_def ex_base64_roundtrip ex_base64_plain)

lemma ex_padding: "dropWhile (\<lambda>b. b = 0) (replicate n 0 @ (1 :: u8) # p) = 1 # p"
  by (induction n) simp_all

lemma ex_test_crypto_ok: "crypto_ok ex_test_env"
  unfolding crypto_ok_def
proof (intro conjI)
  show "cipher_lib_ok (te_cipher ex_test_env)" by (simp add: ex_test_env_def ex_cipher_lib_ok)
  show "rsa_lib_ok (te_rsa ex_test_env)" by (auto simp: rsa_lib_ok_def ex_test_env_def ex_padding split: if_splits)
qed (auto simp: ex_test_env_def ex_cipher_lib_def Let_def)

lemma ex_test_memory_ok: "memory_ok ex_test_env"
  by (simp add: memory_ok_def ex_test_env_def ex_store_lib_def enumerates_def)

lemma ex_test_digests_ok: "digests_ok ex_test_env ex_test_consts"
  using ex_digest_strings(6,7)
  by (simp add: digests_ok_def module_digest_def sha_algo_data_lookup_def ex_test_env_def ex_test_consts_def ex_base64_def)

lemma ex_test_consts_ok: "consts_ok ex_test_consts"
  by (simp add: consts_ok_def ex_test_consts_def test_src_string(2) sizeof_pointer_def)

lemma ex_env_ok: "env_ok ex_test_env ex_test_consts"
  using ex_test_store_ok ex_test_memory_ok ex_test_crypto_ok ex_test_digests_ok ex_test_consts_ok
  by (simp add: env_ok_def) (simp add: ex_test_env_def ex_test_consts_def ex_cipher_lib_def)

theorem security_test_program_passes_witness:
  "\<exists>w. test_main (module_client ex_test_env) ex_test_consts \<lparr>tw_sec = security_start, tw_file = None, tw_time = 0\<rparr> = Some w"
proof -
  have "saved_file (te_store ex_test_env) (12 + 0) None" by (simp add: saved_file_def INT_MAX_def)
  from security_test_program_passes [OF ex_env_ok this] show ?thesis by blast
qed

end
