(* ===== verification/Security_Memory.thy ===== *)
theory Security_Memory
  imports Security_Properties
begin

text \<open>
  The memory of the keys. The tables of keystore.c hold pointers to blocks that the module has
  allocated and that the tables free when a key is replaced or a table destroyed; the model of the
  other theories has the keys themselves in the tables. Here the operations are modelled with
  blocks and pointers: freeing what is not allocated, or twice, is not defined.
\<close>

section \<open>State\<close>

text \<open>
  The tables, and the blocks that are allocated: AES keys; RSA keys, each its length and a pointer
  to an object of OpenSSL, NULL when there is none; these objects; the big numbers.
\<close>

record 'r key_memory =
  km_aes :: "ptr table"
  km_rsa :: "ptr table"
  aes_blocks :: "ptr \<rightharpoonup> aes_key"
  rsa_blocks :: "ptr \<rightharpoonup> int \<times> ptr"
  rsa_objects :: "ptr \<rightharpoonup> 'r"
  bignums :: "ptr set"

definition memory_start :: "'r key_memory" where
  "memory_start = \<lparr>km_aes = Null_Table, km_rsa = Null_Table, aes_blocks = Map.empty, rsa_blocks = Map.empty,
     rsa_objects = Map.empty, bignums = {}\<rparr>"

section \<open>Freeing\<close>

text \<open>\<open>g_free\<close> and \<open>RSA_free\<close> accept NULL.\<close>

definition aes_destroy_key :: "ptr \<Rightarrow> 'r key_memory \<Rightarrow> 'r key_memory option" where
  "aes_destroy_key p m =
     (if p = NULL then Some m
      else if aes_blocks m p = None then None
      else Some (m\<lparr>aes_blocks := (aes_blocks m)(p := None)\<rparr>))"

definition RSA_free :: "ptr \<Rightarrow> 'r key_memory \<Rightarrow> 'r key_memory option" where
  "RSA_free q m =
     (if q = NULL then Some m
      else if rsa_objects m q = None then None
      else Some (m\<lparr>rsa_objects := (rsa_objects m)(q := None)\<rparr>))"

definition rsa_destroy_key :: "ptr \<Rightarrow> 'r key_memory \<Rightarrow> 'r key_memory option" where
  "rsa_destroy_key p m =
     (if p = NULL then Some m
      else case rsa_blocks m p of
        None \<Rightarrow> None
      | Some (_, q) \<Rightarrow> do {
          m1 \<leftarrow> RSA_free q m;
          Some (m1\<lparr>rsa_blocks := (rsa_blocks m1)(p := None)\<rparr>) })"

section \<open>Tables with pointers\<close>

text \<open>\<open>g_hash_table_replace\<close> frees the value that it replaces.\<close>

definition mem_key_replace ::
  "(ptr \<Rightarrow> 'm \<Rightarrow> 'm option) \<Rightarrow> ptr table \<Rightarrow> ptr \<Rightarrow> int \<Rightarrow> 'm \<Rightarrow> (ptr table \<times> int \<times> 'm) option" where
  "mem_key_replace destroy T key index m = do {
     (T', i) \<leftarrow> keystore_key_replace T key index;
     m' \<leftarrow> (case table_map T i of None \<Rightarrow> Some m | Some old \<Rightarrow> destroy old m);
     Some (T', i, m') }"

fun mem_table_destroy ::
  "(ptr \<Rightarrow> 'm \<Rightarrow> 'm option) \<Rightarrow> int list \<Rightarrow> ptr table \<Rightarrow> 'm \<Rightarrow> (ptr table \<times> 'm) option" where
  "mem_table_destroy destroy order Null_Table m = Some (Null_Table, m)"
| "mem_table_destroy destroy order Freed_Table m = None"
| "mem_table_destroy destroy order (Table t) m =
     map_option (Pair Freed_Table) (table_foreach (\<lambda>_. destroy) t order m)"

definition mem_keystore_destroy :: "int list \<Rightarrow> int list \<Rightarrow> 'r key_memory \<Rightarrow> 'r key_memory option" where
  "mem_keystore_destroy aes_order rsa_order m = do {
     (a, m1) \<leftarrow> mem_table_destroy aes_destroy_key aes_order (km_aes m) m;
     let m2 = m1\<lparr>km_aes := a\<rparr>;
     (r, m3) \<leftarrow> mem_table_destroy rsa_destroy_key rsa_order (km_rsa m2) m2;
     Some (m3\<lparr>km_rsa := r\<rparr>) }"

section \<open>Creating keys\<close>

text \<open>\<open>addr\<close>: the result of g_malloc, and \<open>block\<close> what the array of the key holds then.\<close>

definition mem_aes_generate_key ::
  "cipher_lib \<Rightarrow> ptr \<Rightarrow> u8 list \<Rightarrow> (nat \<Rightarrow> int \<times> u8 list) \<Rightarrow> int \<Rightarrow> int \<Rightarrow> 'r key_memory \<Rightarrow>
   (nyx_error \<times> int \<times> 'r key_memory) option" where
  "mem_aes_generate_key C addr block rand keylen index m =
     (if \<not> aes_supported_keylength C keylen then Some (NYX_ERROR_INVALID_VALUE, index, m)
      else if addr = NULL then Some (NYX_ERROR_OUT_OF_MEMORY, index, m)
      else
        (let (ret, bytes) = rand (nat (keylen sdiv 8)) in
         do {
           key \<leftarrow> write_at block 0 bytes;
           let m1 = m\<lparr>aes_blocks := (aes_blocks m)(addr \<mapsto> \<lparr>aes_keylen = keylen, aes_bytes = key\<rparr>)\<rparr>;
           if ret = 0 then do {
             m2 \<leftarrow> aes_destroy_key addr m1;
             Some (NYX_ERROR_GENERIC, index, m2) }
           else do {
             (T, i, m2) \<leftarrow> mem_key_replace aes_destroy_key (km_aes m1) addr index m1;
             Some (NYX_ERROR_NONE, i, m2\<lparr>km_aes := T\<rparr>) } }))"

text \<open>
  \<open>obj\<close> and \<open>bn\<close>: the results of RSA_new and BN_new, which are used unchecked. The big number is only
  freed after a generation that did not give -1.
\<close>

definition mem_rsa_generate_key ::
  "ptr \<Rightarrow> ptr \<Rightarrow> ptr \<Rightarrow> int \<times> 'r \<Rightarrow> int \<Rightarrow> int \<Rightarrow> 'r key_memory \<Rightarrow>
   (nyx_error \<times> int \<times> 'r key_memory) option" where
  "mem_rsa_generate_key addr obj bn gen keylen index m =
     (if keylen \<noteq> 2048 \<and> keylen \<noteq> 4096 then Some (NYX_ERROR_INVALID_VALUE, index, m)
      else if addr = NULL then Some (NYX_ERROR_OUT_OF_MEMORY, index, m)
      else if obj = NULL \<or> bn = NULL then None
      else
        (let m1 = m\<lparr>rsa_blocks := (rsa_blocks m)(addr \<mapsto> (keylen, obj)),
                    rsa_objects := (rsa_objects m)(obj \<mapsto> snd gen), bignums := insert bn (bignums m)\<rparr> in
         if fst gen = -1 then do {
           m2 \<leftarrow> rsa_destroy_key addr m1;
           Some (NYX_ERROR_GENERIC, index, m2) }
         else do {
           let m2 = m1\<lparr>bignums := bignums m1 - {bn}\<rparr>;
           (T, i, m3) \<leftarrow> mem_key_replace rsa_destroy_key (km_rsa m2) addr index m2;
           Some (NYX_ERROR_NONE, i, m3\<lparr>km_rsa := T\<rparr>) }))"

section \<open>Loading keys\<close>

text \<open>
  \<open>alloc\<close>: the addresses of the block and of the object for an entry; g_malloc does not return NULL
  here, it aborts. An RSA key that cannot be decoded is not freed.
\<close>

definition mem_load_aeskey ::
  "('kf, 'd, 'r) store_lib \<Rightarrow> (string \<Rightarrow> u8 list) \<Rightarrow> (string \<Rightarrow> 'r key_memory \<Rightarrow> ptr \<times> ptr) \<Rightarrow> 'kf \<Rightarrow> string \<Rightarrow>
   'r key_memory \<Rightarrow> 'r key_memory option" where
  "mem_load_aeskey L mem alloc keyfile key m =
     (case kf_get L keyfile ''aes'' key of
        Some [l0, l1] \<Rightarrow> do {
          key_index \<leftarrow> atoi key;
          keylen \<leftarrow> atoi l0;
          let keybits = base64_decode L l1;
          if keylen \<noteq> int (length keybits) * 8 then None
          else if EVP_MAX_KEY_LENGTH L < length keybits then None
          else do {
            let p = fst (alloc key m);
            let m1 = m\<lparr>aes_blocks := (aes_blocks m)(p \<mapsto> \<lparr>aes_keylen = keylen,
                aes_bytes = keybits @ drop (length keybits) (take (EVP_MAX_KEY_LENGTH L) (mem key))\<rparr>)\<rparr>;
            (T, _, m2) \<leftarrow> mem_key_replace aes_destroy_key (km_aes m1) p key_index m1;
            Some (m2\<lparr>km_aes := T\<rparr>) } }
      | _ \<Rightarrow> Some m)"

definition mem_load_rsakey ::
  "('kf, 'd, 'r) store_lib \<Rightarrow> (string \<Rightarrow> 'r key_memory \<Rightarrow> ptr \<times> ptr) \<Rightarrow> 'kf \<Rightarrow> string \<Rightarrow>
   'r key_memory \<Rightarrow> 'r key_memory option" where
  "mem_load_rsakey L alloc keyfile key m =
     (case kf_get L keyfile ''rsa'' key of
        Some [l0, l1] \<Rightarrow> do {
          key_index \<leftarrow> atoi key;
          keylen \<leftarrow> atoi l0;
          let (p, q) = alloc key m;
          (case d2i L (base64_decode L l1) of
             None \<Rightarrow> Some (m\<lparr>rsa_blocks := (rsa_blocks m)(p \<mapsto> (keylen, NULL))\<rparr>)
           | Some r \<Rightarrow> do {
               let m1 = m\<lparr>rsa_blocks := (rsa_blocks m)(p \<mapsto> (keylen, q)), rsa_objects := (rsa_objects m)(q \<mapsto> r)\<rparr>;
               (T, _, m2) \<leftarrow> mem_key_replace rsa_destroy_key (km_rsa m1) p key_index m1;
               Some (m2\<lparr>km_rsa := T\<rparr>) }) }
      | _ \<Rightarrow> Some m)"

definition mem_keystore_load ::
  "('kf, 'd, 'r) store_lib \<Rightarrow> (string \<Rightarrow> u8 list) \<Rightarrow> (string \<Rightarrow> 'r key_memory \<Rightarrow> ptr \<times> ptr) \<Rightarrow> 'd option \<Rightarrow>
   'r key_memory \<Rightarrow> (nyx_error \<times> 'r key_memory) option" where
  "mem_keystore_load L mem alloc file m =
     (case file of
        None \<Rightarrow> Some (NYX_ERROR_NONE, m)
      | Some data \<Rightarrow>
          (case kf_load L data of
             None \<Rightarrow> Some (NYX_ERROR_GENERIC, m)
           | Some keyfile \<Rightarrow> do {
               m1 \<leftarrow> (case kf_keys L keyfile ''aes'' of None \<Rightarrow> Some m
                      | Some ks \<Rightarrow> load_all (mem_load_aeskey L mem alloc keyfile) ks m);
               m2 \<leftarrow> (case kf_keys L keyfile ''rsa'' of None \<Rightarrow> Some m1
                      | Some ks \<Rightarrow> load_all (mem_load_rsakey L alloc keyfile) ks m1);
               Some (NYX_ERROR_NONE, m2) }))"

text \<open>
  Initialising and loading the store when the module is opened. The old tables are forgotten, with
  all that they hold; tables that were just created hold nothing to free.
\<close>

definition mem_keystore_open ::
  "('kf, 'd, 'r) store_lib \<Rightarrow> (string \<Rightarrow> u8 list) \<Rightarrow> (string \<Rightarrow> 'r key_memory \<Rightarrow> ptr \<times> ptr) \<Rightarrow> 'd option \<Rightarrow>
   'r key_memory \<Rightarrow> (nyx_error \<times> 'r key_memory) option" where
  "mem_keystore_open L mem alloc file m = do {
     (r, m1) \<leftarrow> mem_keystore_load L mem alloc file (m\<lparr>km_aes := Table Map.empty, km_rsa := Table Map.empty\<rparr>);
     m2 \<leftarrow> (if r \<noteq> NYX_ERROR_NONE then mem_keystore_destroy [] [] m1 else Some m1);
     Some (r, m2) }"

end
