(* ===== verification/Security_Ownership.thy ===== *)
theory Security_Ownership
  imports Security_Memory
begin

text \<open>
  Who owns the blocks of the keys: every live key belongs to exactly one index of its table. Under
  this invariant the operations with pointers do what the model with values says.
\<close>

section \<open>Tables that own their values\<close>

text \<open>\<open>view\<close> reads a value through its pointer; \<open>see\<close> reads a whole table.\<close>

fun see :: "(ptr \<rightharpoonup> 'v) \<Rightarrow> ptr table \<Rightarrow> 'v table" where
  "see view (Table t) = Table (\<lambda>i. Option.bind (t i) view)"
| "see view Null_Table = Null_Table"
| "see view Freed_Table = Freed_Table"

definition owned :: "ptr table \<Rightarrow> (ptr \<rightharpoonup> 'v) \<Rightarrow> bool" where
  "owned T view \<longleftrightarrow> table_ok T \<and> inj_on (table_map T) (dom (table_map T)) \<and> ran (table_map T) = dom view"

lemma ownedE:
  assumes "owned T view"
  obtains t where "T = Table t" and "table_ok (Table t)" and "inj_on t (dom t)" and "ran t = dom view"
  using assms by (cases T) (auto simp: owned_def)

lemma next_free_cong: "(\<And>j. t j = None \<longleftrightarrow> u j = None) \<Longrightarrow> next_free t i = next_free u i"
proof (induction t i rule: next_free.induct)
  case (1 t i)
  then show ?case by (subst (1 2) next_free.simps) auto
qed

lemma owned_None:
  assumes "owned (Table t) view"
  shows "Option.bind (t i) view = None \<longleftrightarrow> t i = None"
  using assms by (cases "t i") (auto simp: owned_def dest: ranI)

text \<open>A new block \<open>p\<close> goes to an index, and the value that was there is freed.\<close>

lemma owned_put:
  fixes view :: "ptr \<rightharpoonup> 'v" and v :: 'v
  assumes o: "owned (Table t) view" and p: "view p = None" and i: "in_i32 i" "i \<noteq> -1"
  defines "view' \<equiv> (case t i of None \<Rightarrow> view(p \<mapsto> v) | Some q \<Rightarrow> (view(p \<mapsto> v))(q := None))"
  shows "owned (Table (t(i \<mapsto> p))) view'"
    and "see view' (Table (t(i \<mapsto> p))) = Table ((\<lambda>j. Option.bind (t j) view)(i \<mapsto> v))"
proof -
  have t: "table_ok (Table t)" "inj_on t (dom t)" "ran t = dom view" using o by (simp_all add: owned_def)
  have live: "\<And>j q. t j = Some q \<Longrightarrow> view q \<noteq> None \<and> q \<noteq> p" using t(3) p by (auto dest: ranI)
  have other: "t j \<noteq> t i" if "j \<noteq> i" "t j = Some q" for j q
    using inj_onD [OF t(2), of j i] that by (metis domI)
  have inj: "inj_on (t(i \<mapsto> p)) (dom (t(i \<mapsto> p)))"
  proof (rule inj_onI)
    fix j k assume "j \<in> dom (t(i \<mapsto> p))" "k \<in> dom (t(i \<mapsto> p))" "(t(i \<mapsto> p)) j = (t(i \<mapsto> p)) k"
    with t(2) live show "j = k" by (auto simp: dom_def inj_on_def split: if_splits)
  qed
  have ran: "ran (t(i \<mapsto> p)) = dom view'"
  proof (cases "t i")
    case None
    then show ?thesis using t(3) by (simp add: view'_def)
  next
    case (Some q)
    have "x \<in> ran (t(i \<mapsto> p)) \<longleftrightarrow> x = p \<or> x \<in> ran t \<and> x \<noteq> q" for x
    proof -
      have "x \<in> ran (t(i \<mapsto> p)) \<longleftrightarrow> x = p \<or> (\<exists>j. j \<noteq> i \<and> t j = Some x)" by (auto simp: ran_def)
      moreover have "(\<exists>j. j \<noteq> i \<and> t j = Some x) \<longleftrightarrow> x \<in> ran t \<and> x \<noteq> q"
        using other Some by (auto simp: ran_def) (metis option.inject)
      ultimately show ?thesis by blast
    qed
    moreover have "x \<in> dom view' \<longleftrightarrow> x = p \<or> x \<in> dom view \<and> x \<noteq> q" for x
      using live [OF Some] by (auto simp: view'_def Some)
    ultimately show ?thesis using t(3) by (simp only: set_eq_iff simp_thms)
  qed
  show "owned (Table (t(i \<mapsto> p))) view'"
    using t(1) i inj ran by (simp add: owned_def)
  show "see view' (Table (t(i \<mapsto> p))) = Table ((\<lambda>j. Option.bind (t j) view)(i \<mapsto> v))"
  proof -
    have "Option.bind ((t(i \<mapsto> p)) j) view' = ((\<lambda>j. Option.bind (t j) view)(i \<mapsto> v)) j" for j
    proof (cases "j = i")
      case True
      then show ?thesis using live by (auto simp: view'_def split: option.split)
    next
      case False
      show ?thesis
      proof (cases "t j")
        case (Some q)
        with False live other [of j q] show ?thesis by (auto simp: view'_def split: option.split)
      qed (use False in simp)
    qed
    then show ?thesis by (simp add: fun_eq_iff)
  qed
qed

section \<open>The interface of freeing\<close>

text \<open>
  Freeing a live value takes it away and nothing else: \<open>ok\<close> is what the memory keeps to, \<open>rest\<close> all
  of it that is not of this kind.
\<close>

locale pool =
  fixes view :: "'m \<Rightarrow> ptr \<rightharpoonup> 'v"
    and destroy :: "ptr \<Rightarrow> 'm \<Rightarrow> 'm option"
    and ok :: "'m \<Rightarrow> bool"
    and rest :: "'m \<Rightarrow> 'f"
  assumes destroy_live: "ok m \<Longrightarrow> view m p \<noteq> None \<Longrightarrow>
    \<exists>m'. destroy p m = Some m' \<and> ok m' \<and> view m' = (view m)(p := None) \<and> rest m' = rest m"
begin

text \<open>Putting a new block \<open>p\<close> into a table is what the model says of its value.\<close>

lemma replace_refines:
  assumes o: "owned T V" and p: "V p = None" and m: "ok m" "view m = V(p \<mapsto> v)" and index: "in_i32 index"
  shows "case keystore_key_replace (see V T) v index of
      None \<Rightarrow> mem_key_replace destroy T p index m = None
    | Some (T', i) \<Rightarrow> \<exists>P m'. mem_key_replace destroy T p index m = Some (P, i, m') \<and>
        see (view m') P = T' \<and> owned P (view m') \<and> ok m' \<and> rest m' = rest m"
proof -
  obtain t where T: "T = Table t" and t: "table_ok (Table t)" "inj_on t (dom t)" "ran t = dom V" by (rule ownedE [OF o])
  note o' = o [unfolded T]
  have nf: "next_free (\<lambda>i. Option.bind (t i) V) 0 = next_free t 0" by (rule next_free_cong) (rule owned_None [OF o'])
  let ?i = "if index = -1 then next_free t 0 else Some index"
  show ?thesis
  proof (cases ?i)
    case None
    then show ?thesis unfolding T by (auto simp: mem_key_replace_def nf split: if_splits)
  next
    case (Some i)
    have i: "in_i32 i" "i \<noteq> -1"
      using Some index next_free_Some [of t 0 i] by (auto simp: in_i32_def INT_MIN_def INT_MAX_def split: if_splits)
    have put: "owned (Table (t(i \<mapsto> p))) (view m')" "see (view m') (Table (t(i \<mapsto> p))) = Table ((\<lambda>j. Option.bind (t j) V)(i \<mapsto> v))"
      if "view m' = (case t i of None \<Rightarrow> V(p \<mapsto> v) | Some q \<Rightarrow> (V(p \<mapsto> v))(q := None))" for m'
      using owned_put [OF o' p i, of v] by (simp_all add: that)
    obtain m' where m': "(case t i of None \<Rightarrow> Some m | Some old \<Rightarrow> destroy old m) = Some m'" "ok m'" "rest m' = rest m"
      "view m' = (case t i of None \<Rightarrow> V(p \<mapsto> v) | Some q \<Rightarrow> (V(p \<mapsto> v))(q := None))"
    proof (cases "t i")
      case None
      then show ?thesis using m by (intro that [of m]) simp_all
    next
      case q: (Some q)
      then have "view m q \<noteq> None" using t(3) p m(2) by (auto dest: ranI)
      from destroy_live [OF m(1) this] show ?thesis using q m(2) that by auto
    qed
    have "mem_key_replace destroy T p index m = Some (Table (t(i \<mapsto> p)), i, m')"
      using Some m'(1) unfolding T by (simp add: mem_key_replace_def)
    moreover have "keystore_key_replace (see V T) v index = Some (Table ((\<lambda>j. Option.bind (t j) V)(i \<mapsto> v)), i)"
      using Some unfolding T by (auto simp: nf split: if_splits)
    ultimately show ?thesis using put [OF m'(4)] m'(2,3) by simp
  qed
qed

text \<open>Destroying a table frees all its values, each once.\<close>

lemma foreach_frees:
  assumes "inj_on t (dom t)" and "distinct order" and "set order \<subseteq> dom t" and "ok m" and "\<forall>i \<in> set order. \<forall>p. t i = Some p \<longrightarrow> view m p \<noteq> None"
  shows "\<exists>m'. table_foreach (\<lambda>_. destroy) t order m = Some m' \<and> ok m' \<and> rest m' = rest m \<and>
    view m' = (\<lambda>p. if \<exists>i \<in> set order. t i = Some p then None else view m p)"
  using assms(2-5)
proof (induction order arbitrary: m)
  case (Cons i order)
  from Cons.prems(2) obtain p where p: "t i = Some p" by auto
  have "view m p \<noteq> None" using Cons.prems(4) p by simp
  from destroy_live [OF Cons.prems(3) this] obtain m1 where
    m1: "destroy p m = Some m1" "ok m1" "view m1 = (view m)(p := None)" "rest m1 = rest m" by blast
  have "\<forall>j \<in> set order. \<forall>q. t j = Some q \<longrightarrow> view m1 q \<noteq> None"
  proof (intro ballI allI impI)
    fix j q assume j: "j \<in> set order" and q: "t j = Some q"
    have "q \<noteq> p" using inj_onD [OF assms(1), of i j] p q j Cons.prems(1) by auto
    then show "view m1 q \<noteq> None" using Cons.prems(4) j q by (simp add: m1)
  qed
  with Cons.IH [of m1] Cons.prems m1 obtain m' where
    "table_foreach (\<lambda>_. destroy) t order m1 = Some m'" "ok m'" "rest m' = rest m1"
    "view m' = (\<lambda>p. if \<exists>i \<in> set order. t i = Some p then None else view m1 p)" by auto
  then show ?case using p m1 by (intro exI [of _ m']) (auto simp: fun_eq_iff)
qed simp

lemma destroy_frees:
  assumes o: "owned T (view m)" and m: "ok m" and order: "distinct order" "set order = dom (table_map T)"
  shows "\<exists>m'. mem_table_destroy destroy order T m = Some (Freed_Table, m') \<and> ok m' \<and> rest m' = rest m \<and> view m' = Map.empty"
proof -
  obtain t where T: "T = Table t" and t: "inj_on t (dom t)" "ran t = dom (view m)" by (rule ownedE [OF o])
  have "\<forall>i \<in> set order. \<forall>p. t i = Some p \<longrightarrow> view m p \<noteq> None" using t(2) by (auto dest: ranI)
  from foreach_frees [OF t(1) order(1) _ m this] order(2) T obtain m' where
    m': "table_foreach (\<lambda>_. destroy) t order m = Some m'" "ok m'" "rest m' = rest m"
    "view m' = (\<lambda>p. if \<exists>i \<in> dom t. t i = Some p then None else view m p)" by auto
  have r: "p \<in> dom (view m) \<longleftrightarrow> (\<exists>i \<in> dom t. t i = Some p)" for p unfolding t(2) [symmetric] by (auto simp: ran_def)
  have "view m' p = None" for p using r [of p] by (cases "view m p") (auto simp: m'(4))
  then have "view m' = Map.empty" by (simp add: fun_eq_iff)
  with m'(1-3) show ?thesis by (auto simp: T)
qed

end

end
