(* ===== verification/Security_Memory_Steps.thy ===== *)
theory Security_Memory_Steps
  imports Security_Ownership
begin

text \<open>Each operation with pointers against the one with values, under the invariant of the memory.\<close>

section \<open>The invariant\<close>

definition rsa_view :: "'r key_memory \<Rightarrow> ptr \<rightharpoonup> 'r rsa_key" where
  "rsa_view m p = (case rsa_blocks m p of
     None \<Rightarrow> None
   | Some (l, q) \<Rightarrow> map_option (\<lambda>r. \<lparr>rsa_keylen = l, rsa_rsa = r\<rparr>) (rsa_objects m q))"

text \<open>Every object belongs to one block; a block without an object is garbage.\<close>

definition objects_ok :: "'r key_memory \<Rightarrow> bool" where
  "objects_ok m \<longleftrightarrow> aes_blocks m NULL = None \<and> rsa_blocks m NULL = None \<and> rsa_objects m NULL = None \<and>
     (\<forall>p p' l l' q. rsa_blocks m p = Some (l, q) \<and> rsa_blocks m p' = Some (l', q) \<and> q \<noteq> NULL \<longrightarrow> p = p') \<and>
     (\<forall>p l q. rsa_blocks m p = Some (l, q) \<and> q \<noteq> NULL \<longrightarrow> rsa_objects m q \<noteq> None) \<and>
     (\<forall>q. rsa_objects m q \<noteq> None \<longrightarrow> (\<exists>p l. rsa_blocks m p = Some (l, q)))"

definition garbage :: "'r key_memory \<Rightarrow> ptr set" where
  "garbage m = {p. \<exists>l. rsa_blocks m p = Some (l, NULL)}"

text \<open>A table that is not there owns nothing, and there is nothing to own.\<close>

definition owns :: "ptr table \<Rightarrow> (ptr \<rightharpoonup> 'v) \<Rightarrow> bool" where
  "owns T view \<longleftrightarrow> (case T of Table _ \<Rightarrow> owned T view | _ \<Rightarrow> view = Map.empty)"

definition key_store :: "'r key_memory \<Rightarrow> 'r keystore" where
  "key_store m = \<lparr>ks_aes = see (aes_blocks m) (km_aes m), ks_rsa = see (rsa_view m) (km_rsa m)\<rparr>"

definition memory_ok :: "'r key_memory \<Rightarrow> bool" where
  "memory_ok m \<longleftrightarrow> objects_ok m \<and> owns (km_aes m) (aes_blocks m) \<and> owns (km_rsa m) (rsa_view m)"

text \<open>The memory implements a store, and has lost \<open>k\<close> blocks and \<open>b\<close> big numbers.\<close>

definition implements :: "nat \<Rightarrow> nat \<Rightarrow> 'r keystore \<Rightarrow> 'r key_memory \<Rightarrow> bool" where
  "implements k b ks m \<longleftrightarrow> memory_ok m \<and> key_store m = ks \<and> finite (garbage m) \<and> card (garbage m) = k \<and>
     finite (bignums m) \<and> card (bignums m) = b"

lemma objects_okD:
  assumes "objects_ok m"
  shows "aes_blocks m NULL = None" "rsa_blocks m NULL = None" "rsa_objects m NULL = None"
    and "rsa_blocks m p = Some (l, q) \<Longrightarrow> rsa_blocks m p' = Some (l', q) \<Longrightarrow> q \<noteq> NULL \<Longrightarrow> p = p'"
    and "rsa_blocks m p = Some (l, q) \<Longrightarrow> q \<noteq> NULL \<Longrightarrow> rsa_objects m q \<noteq> None"
    and "rsa_objects m q \<noteq> None \<Longrightarrow> \<exists>p l. rsa_blocks m p = Some (l, q)"
  using assms unfolding objects_ok_def by blast+

lemma objects_okI:
  assumes "aes_blocks m NULL = None" "rsa_blocks m NULL = None" "rsa_objects m NULL = None"
    and "\<And>p p' l l' q. rsa_blocks m p = Some (l, q) \<Longrightarrow> rsa_blocks m p' = Some (l', q) \<Longrightarrow> q \<noteq> NULL \<Longrightarrow> p = p'"
    and "\<And>p l q. rsa_blocks m p = Some (l, q) \<Longrightarrow> q \<noteq> NULL \<Longrightarrow> rsa_objects m q \<noteq> None"
    and "\<And>q. rsa_objects m q \<noteq> None \<Longrightarrow> \<exists>p l. rsa_blocks m p = Some (l, q)"
  shows "objects_ok m"
  using assms unfolding objects_ok_def by blast

section \<open>Freeing keys\<close>

definition aes_rest :: "'r key_memory \<Rightarrow> ptr table \<times> ptr table \<times> (ptr \<rightharpoonup> int \<times> ptr) \<times> (ptr \<rightharpoonup> 'r) \<times> ptr set" where
  "aes_rest m = (km_aes m, km_rsa m, rsa_blocks m, rsa_objects m, bignums m)"

definition rsa_rest :: "'r key_memory \<Rightarrow> ptr table \<times> ptr table \<times> (ptr \<rightharpoonup> aes_key) \<times> ptr set \<times> ptr set" where
  "rsa_rest m = (km_aes m, km_rsa m, aes_blocks m, garbage m, bignums m)"

lemma aes_destroy_live:
  assumes "objects_ok m" and "aes_blocks m p \<noteq> None"
  shows "\<exists>m'. aes_destroy_key p m = Some m' \<and> objects_ok m' \<and> aes_blocks m' = (aes_blocks m)(p := None) \<and> aes_rest m' = aes_rest m"
proof -
  have "p \<noteq> NULL" using assms(2) objects_okD(1) [OF assms(1)] by metis
  moreover have "objects_ok (m\<lparr>aes_blocks := (aes_blocks m)(p := None)\<rparr>)"
    by (rule objects_okI) (use objects_okD [OF assms(1)] in auto)
  ultimately show ?thesis using assms(2) by (simp add: aes_destroy_key_def aes_rest_def)
qed

lemma rsa_view_Some:
  "rsa_view m p = Some k \<longleftrightarrow> (\<exists>q. rsa_blocks m p = Some (rsa_keylen k, q) \<and> rsa_objects m q = Some (rsa_rsa k))"
  by (cases k) (auto simp: rsa_view_def split: option.split)

lemma rsa_destroy_live:
  assumes m: "objects_ok m" and v: "rsa_view m p \<noteq> None"
  shows "\<exists>m'. rsa_destroy_key p m = Some m' \<and> objects_ok m' \<and> rsa_view m' = (rsa_view m)(p := None) \<and> rsa_rest m' = rsa_rest m"
proof -
  obtain k q where k: "rsa_blocks m p = Some (k, q)" "rsa_objects m q \<noteq> None"
    using v by (auto simp: rsa_view_Some)
  have p: "p \<noteq> NULL" using k(1) objects_okD(2) [OF m] by (metis option.distinct(1))
  have q: "q \<noteq> NULL" using k(2) objects_okD(3) [OF m] by metis
  note null = p q
  have uniq: "\<And>p' l. rsa_blocks m p' = Some (l, q) \<Longrightarrow> p' = p" using objects_okD(4) [OF m _ k(1) q] by blast
  let ?m = "m\<lparr>rsa_objects := (rsa_objects m)(q := None), rsa_blocks := (rsa_blocks m)(p := None)\<rparr>"
  have "rsa_destroy_key p m = Some ?m" using k null by (simp add: rsa_destroy_key_def RSA_free_def)
  moreover have "objects_ok ?m"
  proof (rule objects_okI)
    show "\<exists>p' l. rsa_blocks ?m p' = Some (l, q')" if "rsa_objects ?m q' \<noteq> None" for q'
    proof -
      have q': "q' \<noteq> q" "rsa_objects m q' \<noteq> None" using that by (auto split: if_splits)
      obtain p' l where b: "rsa_blocks m p' = Some (l, q')" using objects_okD(6) [OF m q'(2)] by blast
      with q'(1) k(1) have "p' \<noteq> p" by auto
      with b show ?thesis by auto
    qed
  qed (use objects_okD [OF m] uniq in \<open>auto split: if_splits\<close>)
  moreover have "rsa_view ?m p' = ((rsa_view m)(p := None)) p'" for p'
    using uniq [of p'] by (auto simp: rsa_view_def split: option.splits)
  moreover have "garbage ?m = garbage m" using k(1) null(2) by (auto simp: garbage_def split: if_splits)
  ultimately show ?thesis by (auto simp: rsa_rest_def fun_eq_iff)
qed

interpretation aes_pool: pool aes_blocks aes_destroy_key objects_ok aes_rest
  by unfold_locales (rule aes_destroy_live)

interpretation rsa_pool: pool rsa_view rsa_destroy_key objects_ok rsa_rest
  by unfold_locales (rule rsa_destroy_live)

section \<open>Putting keys into the tables\<close>

lemma rsa_view_cong: "rsa_blocks m' = rsa_blocks m \<Longrightarrow> rsa_objects m' = rsa_objects m \<Longrightarrow> rsa_view m' = rsa_view m"
  by (rule ext) (simp add: rsa_view_def split: option.split)

lemma garbage_cong: "rsa_blocks m' = rsa_blocks m \<Longrightarrow> garbage m' = garbage m"
  by (simp add: garbage_def)

lemma rsa_view_updates [simp]:
  "rsa_view (m\<lparr>km_aes := T\<rparr>) = rsa_view m" "rsa_view (m\<lparr>km_rsa := T\<rparr>) = rsa_view m"
  "rsa_view (m\<lparr>aes_blocks := f\<rparr>) = rsa_view m" "rsa_view (m\<lparr>bignums := B\<rparr>) = rsa_view m"
  by (rule rsa_view_cong; simp)+

lemma garbage_updates [simp]:
  "garbage (m\<lparr>km_aes := T\<rparr>) = garbage m" "garbage (m\<lparr>km_rsa := T\<rparr>) = garbage m"
  "garbage (m\<lparr>aes_blocks := f\<rparr>) = garbage m" "garbage (m\<lparr>bignums := B\<rparr>) = garbage m"
  by (rule garbage_cong; simp)+

lemma objects_ok_updates [simp]:
  "objects_ok (m\<lparr>km_aes := T\<rparr>) = objects_ok m" "objects_ok (m\<lparr>km_rsa := T\<rparr>) = objects_ok m"
  "objects_ok (m\<lparr>bignums := B\<rparr>) = objects_ok m"
  unfolding objects_ok_def by simp_all

lemma mem_replace_not_live: "(\<forall>t. T \<noteq> Table t) \<Longrightarrow> mem_key_replace destroy T p i m = None"
  by (cases T) (simp_all add: mem_key_replace_def)

lemma implementsD:
  assumes "implements k b ks m"
  shows "objects_ok m" "owns (km_aes m) (aes_blocks m)" "owns (km_rsa m) (rsa_view m)"
    and "ks_aes ks = see (aes_blocks m) (km_aes m)" "ks_rsa ks = see (rsa_view m) (km_rsa m)"
    and "ks = \<lparr>ks_aes = see (aes_blocks m) (km_aes m), ks_rsa = see (rsa_view m) (km_rsa m)\<rparr>"
    and "finite (garbage m)" "card (garbage m) = k" "finite (bignums m)" "card (bignums m) = b"
  using assms by (auto simp: implements_def memory_ok_def key_store_def)

lemma owned_owns: "owned T V \<Longrightarrow> owns T V"
  by (cases T) (simp_all add: owns_def owned_def)

lemma put_aes:
  assumes m: "implements k b ks m" and p: "p \<noteq> NULL" "aes_blocks m p = None" and index: "in_i32 index"
  shows "case keystore_key_replace (ks_aes ks) v index of
      None \<Rightarrow> mem_key_replace aes_destroy_key (km_aes m) p index (m\<lparr>aes_blocks := (aes_blocks m)(p \<mapsto> v)\<rparr>) = None
    | Some (T, i) \<Rightarrow> \<exists>P m'. mem_key_replace aes_destroy_key (km_aes m) p index (m\<lparr>aes_blocks := (aes_blocks m)(p \<mapsto> v)\<rparr>) = Some (P, i, m') \<and>
        implements k b (ks\<lparr>ks_aes := T\<rparr>) (m'\<lparr>km_aes := P\<rparr>)"
proof (cases "km_aes m")
  case (Table t)
  note D = implementsD [OF m]
  let ?m = "m\<lparr>aes_blocks := (aes_blocks m)(p \<mapsto> v)\<rparr>"
  have o: "owned (km_aes m) (aes_blocks m)" using D(2) Table by (simp add: owns_def)
  have ok: "objects_ok ?m" by (rule objects_okI) (use objects_okD [OF D(1)] p in auto)
  have v: "aes_blocks ?m = (aes_blocks m)(p \<mapsto> v)" by simp
  note ref = aes_pool.replace_refines [OF o p(2) ok v index, folded D(4)]
  show ?thesis
  proof (cases "keystore_key_replace (ks_aes ks) v index")
    case None
    with ref show ?thesis by simp
  next
    case (Some Ti)
    obtain T i where Ti: "Ti = (T, i)" by (cases Ti)
    from ref Some Ti obtain P m' where r: "mem_key_replace aes_destroy_key (km_aes m) p index ?m = Some (P, i, m')"
      "see (aes_blocks m') P = T" "owned P (aes_blocks m')" "objects_ok m'" "aes_rest m' = aes_rest ?m" by auto
    then have same: "km_rsa m' = km_rsa m" "bignums m' = bignums m" "rsa_view m' = rsa_view m" "garbage m' = garbage m"
      using rsa_view_cong [of m' m] garbage_cong [of m' m] by (simp_all add: aes_rest_def)
    have "implements k b (ks\<lparr>ks_aes := T\<rparr>) (m'\<lparr>km_aes := P\<rparr>)"
      using r(2-4) D same owned_owns by (simp add: implements_def memory_ok_def key_store_def)
    with r(1) Some Ti show ?thesis by auto
  qed
qed (use implementsD(4) [OF m] in \<open>simp_all add: mem_replace_not_live\<close>)

lemma new_rsa_block:
  fixes m :: "'r key_memory" and l :: int and r :: 'r
  assumes m: "objects_ok m" and p: "p \<noteq> NULL" "rsa_blocks m p = None" and q: "q \<noteq> NULL" "rsa_objects m q = None"
  defines "m' \<equiv> m\<lparr>rsa_blocks := (rsa_blocks m)(p \<mapsto> (l, q)), rsa_objects := (rsa_objects m)(q \<mapsto> r)\<rparr>"
  shows "objects_ok m'" and "rsa_view m' = (rsa_view m)(p \<mapsto> \<lparr>rsa_keylen = l, rsa_rsa = r\<rparr>)" and "garbage m' = garbage m"
proof -
  note D = objects_okD [OF m]
  have other: "rsa_blocks m p' \<noteq> Some (l', q)" for p' l'
    using D(5) [of p' l' q] q by auto
  show "objects_ok m'"
  proof (rule objects_okI)
    show "\<exists>p' l. rsa_blocks m' p' = Some (l, q')" if "rsa_objects m' q' \<noteq> None" for q'
    proof (cases "q' = q")
      case True
      then show ?thesis by (auto simp: m'_def)
    next
      case False
      then have "rsa_objects m q' \<noteq> None" using that by (simp add: m'_def)
      then obtain p' l' where "rsa_blocks m p' = Some (l', q')" using D(6) by blast
      with p(2) show ?thesis by (intro exI [of _ p']) (auto simp: m'_def)
    qed
  qed (use D p q other in \<open>auto simp: m'_def split: if_splits\<close>)
  have "rsa_view m' p' = ((rsa_view m)(p \<mapsto> \<lparr>rsa_keylen = l, rsa_rsa = r\<rparr>)) p'" for p'
    using other by (auto simp: m'_def rsa_view_def split: option.split)
  then show "rsa_view m' = (rsa_view m)(p \<mapsto> \<lparr>rsa_keylen = l, rsa_rsa = r\<rparr>)" by (simp add: fun_eq_iff)
  show "garbage m' = garbage m" using p q by (auto simp: m'_def garbage_def split: if_splits)
qed

lemma put_rsa:
  fixes m :: "'r key_memory" and l :: int and r :: 'r
  assumes m: "implements k b ks m" and p: "p \<noteq> NULL" "rsa_blocks m p = None" and q: "q \<noteq> NULL" "rsa_objects m q = None"
    and index: "in_i32 index"
  defines "m1 \<equiv> m\<lparr>rsa_blocks := (rsa_blocks m)(p \<mapsto> (l, q)), rsa_objects := (rsa_objects m)(q \<mapsto> r)\<rparr>"
  shows "case keystore_key_replace (ks_rsa ks) \<lparr>rsa_keylen = l, rsa_rsa = r\<rparr> index of
      None \<Rightarrow> mem_key_replace rsa_destroy_key (km_rsa m) p index m1 = None
    | Some (T, i) \<Rightarrow> \<exists>P m'. mem_key_replace rsa_destroy_key (km_rsa m) p index m1 = Some (P, i, m') \<and>
        implements k b (ks\<lparr>ks_rsa := T\<rparr>) (m'\<lparr>km_rsa := P\<rparr>)"
proof (cases "km_rsa m")
  case (Table t)
  note D = implementsD [OF m] and N = new_rsa_block [OF implementsD(1) [OF m] p q, where l = l and r = r, folded m1_def]
  have o: "owned (km_rsa m) (rsa_view m)" using D(3) Table by (simp add: owns_def)
  have new: "rsa_view m p = None" using p(2) by (simp add: rsa_view_def)
  note ref = rsa_pool.replace_refines [OF o new N(1,2) index, folded D(5)]
  show ?thesis
  proof (cases "keystore_key_replace (ks_rsa ks) \<lparr>rsa_keylen = l, rsa_rsa = r\<rparr> index")
    case None
    with ref show ?thesis by simp
  next
    case (Some Ti)
    obtain T i where Ti: "Ti = (T, i)" by (cases Ti)
    from ref Some Ti obtain P m' where r: "mem_key_replace rsa_destroy_key (km_rsa m) p index m1 = Some (P, i, m')"
      "see (rsa_view m') P = T" "owned P (rsa_view m')" "objects_ok m'" "rsa_rest m' = rsa_rest m1" by auto
    then have same: "km_aes m' = km_aes m" "bignums m' = bignums m" "aes_blocks m' = aes_blocks m" "garbage m' = garbage m"
      using N(3) by (simp_all add: rsa_rest_def m1_def)
    have "implements k b (ks\<lparr>ks_rsa := T\<rparr>) (m'\<lparr>km_rsa := P\<rparr>)"
      using r(2-4) D same owned_owns by (simp add: implements_def memory_ok_def key_store_def)
    with r(1) Some Ti show ?thesis by auto
  qed
qed (use implementsD(5) [OF m] in \<open>simp_all add: mem_replace_not_live\<close>)

end
