(* ===== verification/Security_Memory_Runs.thy ===== *)
theory Security_Memory_Runs
  imports Security_Memory_Steps Security_Load
begin

text \<open>
  Runs of the module with pointers against runs with values: nothing is freed twice or used after it
  is freed, and what is lost is counted.
\<close>

section \<open>Creating keys\<close>

text \<open>A result with pointers follows one with values.\<close>

definition follows ::
  "nat \<Rightarrow> nat \<Rightarrow> (nyx_error \<times> int \<times> 'r keystore) option \<Rightarrow> (nyx_error \<times> int \<times> 'r key_memory) option \<Rightarrow> bool" where
  "follows k b x y \<longleftrightarrow> (case x of None \<Rightarrow> y = None
     | Some (r, i, ks) \<Rightarrow> \<exists>m. y = Some (r, i, m) \<and> implements k b ks m)"

lemma create_aes_follows:
  assumes m: "implements k b ks m" and addr: "aes_blocks m addr = None" and index: "in_i32 index"
  shows "follows k b (aes_generate_key C (if addr = NULL then None else Some block) rand keylen index ks)
    (mem_aes_generate_key C addr block rand keylen index m)"
proof (cases "aes_supported_keylength C keylen \<and> addr \<noteq> NULL")
  case False
  with m show ?thesis by (auto simp: follows_def aes_generate_key_def mem_aes_generate_key_def)
next
  case True
  obtain ret bytes where rand: "rand (nat (keylen sdiv 8)) = (ret, bytes)" by fastforce
  show ?thesis
  proof (cases "write_at block 0 bytes")
    case None
    with True rand show ?thesis by (simp add: follows_def aes_generate_key_def mem_aes_generate_key_def)
  next
    case (Some key)
    have undo: "m\<lparr>aes_blocks := (aes_blocks m)(addr := None)\<rparr> = m" using addr by (cases m) auto
    note put = put_aes [OF m _ addr index, of "\<lparr>aes_keylen = keylen, aes_bytes = key\<rparr>"]
    show ?thesis
      using True rand Some m undo put
      by (cases "ret = 0"; cases "keystore_key_replace (ks_aes ks) \<lparr>aes_keylen = keylen, aes_bytes = key\<rparr> index")
        (auto simp: follows_def aes_generate_key_def mem_aes_generate_key_def aes_destroy_key_def Let_def)
  qed
qed

text \<open>The big numbers that a call loses.\<close>

definition lost_bignum :: "ptr \<Rightarrow> int \<times> 'r \<Rightarrow> int \<Rightarrow> nat" where
  "lost_bignum addr gen keylen =
     (if (keylen = 2048 \<or> keylen = 4096) \<and> addr \<noteq> NULL \<and> fst gen = -1 then 1 else 0)"

lemma create_rsa_follows:
  assumes m: "implements k b ks m" and addr: "rsa_blocks m addr = None" and obj: "obj \<noteq> NULL" "rsa_objects m obj = None"
    and bn: "bn \<noteq> NULL" "bn \<notin> bignums m" and index: "in_i32 index"
  shows "follows k (b + lost_bignum addr gen keylen) (rsa_generate_key (addr \<noteq> NULL) gen keylen index ks)
    (mem_rsa_generate_key addr obj bn gen keylen index m)"
proof (cases "(keylen = 2048 \<or> keylen = 4096) \<and> addr \<noteq> NULL")
  case False
  with m show ?thesis by (auto simp: follows_def rsa_generate_key_def mem_rsa_generate_key_def lost_bignum_def)
next
  case True
  show ?thesis
  proof (cases "fst gen = -1")
    case fail: True
    have "m\<lparr>bignums := insert bn (bignums m), rsa_objects := (rsa_objects m)(obj := None), rsa_blocks := (rsa_blocks m)(addr := None)\<rparr>
        = m\<lparr>bignums := insert bn (bignums m)\<rparr>"
      using addr obj by (cases m) auto
    then have "mem_rsa_generate_key addr obj bn gen keylen index m =
        Some (NYX_ERROR_GENERIC, index, m\<lparr>bignums := insert bn (bignums m)\<rparr>)"
      using True fail obj bn by (auto simp: mem_rsa_generate_key_def rsa_destroy_key_def RSA_free_def)
    moreover have "implements k (Suc b) ks (m\<lparr>bignums := insert bn (bignums m)\<rparr>)"
      using m bn by (auto simp: implements_def memory_ok_def key_store_def)
    ultimately show ?thesis using True fail by (auto simp: follows_def rsa_generate_key_def lost_bignum_def)
  next
    case False
    have undo: "m\<lparr>rsa_blocks := (rsa_blocks m)(addr \<mapsto> (keylen, obj)), rsa_objects := (rsa_objects m)(obj \<mapsto> snd gen),
        bignums := bignums m - {bn}\<rparr> =
        m\<lparr>rsa_blocks := (rsa_blocks m)(addr \<mapsto> (keylen, obj)), rsa_objects := (rsa_objects m)(obj \<mapsto> snd gen)\<rparr>"
      using bn by (cases m) auto
    note put = put_rsa [OF m _ addr obj index, where l = keylen and r = "snd gen"]
    show ?thesis
      using True False obj bn undo put
      by (cases "keystore_key_replace (ks_rsa ks) \<lparr>rsa_keylen = keylen, rsa_rsa = snd gen\<rparr> index")
        (auto simp: follows_def rsa_generate_key_def mem_rsa_generate_key_def lost_bignum_def Let_def)
  qed
qed

section \<open>Destroying the tables\<close>

lemma destroy_table:
  assumes P: "pool view destroy ok (rest :: 'm \<Rightarrow> 'f)" and o: "owns T (view m)" and m: "ok m"
    and order: "enumerates order (table_map T)"
  shows "case table_destroy (see V T) of
      None \<Rightarrow> mem_table_destroy destroy order T m = None
    | Some T' \<Rightarrow> \<exists>P m'. mem_table_destroy destroy order T m = Some (P, m') \<and> see V' P = T' \<and> ok m' \<and> rest m' = rest m \<and>
        view m' = Map.empty \<and> (\<forall>t. P \<noteq> Table t)"
proof (cases T)
  case (Table t)
  then have "owned T (view m)" using o by (simp add: owns_def)
  from pool.destroy_frees [OF P this m] order Table show ?thesis by (auto simp: enumerates_def)
qed (use o m in \<open>auto simp: owns_def\<close>)

lemma destroy_follows:
  assumes m: "implements k b ks m"
    and order: "enumerates ao (table_map (km_aes m))" "enumerates ro (table_map (km_rsa m))"
  shows "case keystore_destroy ks of
      None \<Rightarrow> mem_keystore_destroy ao ro m = None
    | Some ks' \<Rightarrow> \<exists>m'. mem_keystore_destroy ao ro m = Some m' \<and> implements k b ks' m' \<and>
        (\<forall>t. km_aes m' \<noteq> Table t \<and> km_rsa m' \<noteq> Table t)"
proof -
  note D = implementsD [OF m]
  note A = destroy_table [where V = "aes_blocks m" and V' = Map.empty, OF aes_pool.pool_axioms D(2,1) order(1), folded D(4)]
  show ?thesis
  proof (cases "table_destroy (ks_aes ks)")
    case None
    with A show ?thesis by (simp add: keystore_destroy_def mem_keystore_destroy_def)
  next
    case (Some Ta)
    with A obtain P m1 where a: "mem_table_destroy aes_destroy_key ao (km_aes m) m = Some (P, m1)" "see Map.empty P = Ta"
      "objects_ok m1" "aes_rest m1 = aes_rest m" "aes_blocks m1 = Map.empty" "\<forall>t. P \<noteq> Table t" by auto
    let ?m2 = "m1\<lparr>km_aes := P\<rparr>"
    have same: "km_rsa ?m2 = km_rsa m" "bignums ?m2 = bignums m" "rsa_view ?m2 = rsa_view m" "garbage ?m2 = garbage m"
      using a(4) rsa_view_cong [of m1 m] garbage_cong [of m1 m] by (simp_all add: aes_rest_def)
    have o: "owns (km_rsa ?m2) (rsa_view ?m2)" "objects_ok ?m2" "enumerates ro (table_map (km_rsa ?m2))"
      using D(3) order(2) a(3) same by simp_all
    note R = destroy_table [where V = "rsa_view m" and V' = Map.empty, OF rsa_pool.pool_axioms o, unfolded same(1), folded D(5)]
    show ?thesis
    proof (cases "table_destroy (ks_rsa ks)")
      case None
      with R a Some same(1) show ?thesis by (simp add: keystore_destroy_def mem_keystore_destroy_def)
    next
      case rsa: (Some Tr)
      with R obtain Q m3 where r: "mem_table_destroy rsa_destroy_key ro (km_rsa m) ?m2 = Some (Q, m3)" "see Map.empty Q = Tr"
        "objects_ok m3" "rsa_rest m3 = rsa_rest ?m2" "rsa_view m3 = Map.empty" "\<forall>t. Q \<noteq> Table t" by auto
      have same3: "km_aes m3 = P" "aes_blocks m3 = Map.empty" "garbage m3 = garbage m" "bignums m3 = bignums m"
        using r(4) a(5) same by (simp_all add: rsa_rest_def)
      have "owns P Map.empty" "owns Q Map.empty" using a(6) r(6) by (auto simp: owns_def split: table.split)
      then have "implements k b (ks\<lparr>ks_aes := Ta, ks_rsa := Tr\<rparr>) (m3\<lparr>km_rsa := Q\<rparr>)"
        using D(7-10) r(2,3,5) a(2) same3 by (simp add: implements_def memory_ok_def key_store_def)
      moreover have "mem_keystore_destroy ao ro m = Some (m3\<lparr>km_rsa := Q\<rparr>)"
        using a(1) r(1) same(1) by (simp add: mem_keystore_destroy_def)
      ultimately show ?thesis using Some rsa a(6) r(6) same3(1) by (simp add: keystore_destroy_def)
    qed
  qed
qed

section \<open>Loading keys\<close>

text \<open>g_malloc gives a new block, or the process ends; the objects are new, too.\<close>

definition alloc_ok :: "(string \<Rightarrow> 'r key_memory \<Rightarrow> ptr \<times> ptr) \<Rightarrow> bool" where
  "alloc_ok alloc \<longleftrightarrow> (\<forall>key m p q. alloc key m = (p, q) \<and>
     finite (dom (aes_blocks m)) \<and> finite (dom (rsa_blocks m)) \<and> finite (dom (rsa_objects m)) \<longrightarrow>
     p \<noteq> NULL \<and> q \<noteq> NULL \<and> aes_blocks m p = None \<and> rsa_blocks m p = None \<and> rsa_objects m q = None)"

lemma owns_finite: "owns T V \<Longrightarrow> finite (dom V)"
  by (cases T) (auto simp: owns_def elim!: ownedE dest!: finite_ran)

lemma implements_finite:
  assumes m: "implements k b ks m"
  shows "finite (dom (aes_blocks m))" and "finite (dom (rsa_blocks m))" and "finite (dom (rsa_objects m))"
proof -
  note D = implementsD [OF m]
  show "finite (dom (aes_blocks m))" by (rule owns_finite [OF D(2)])
  have "dom (rsa_blocks m) \<subseteq> garbage m \<union> dom (rsa_view m)"
    using objects_okD(5) [OF D(1)] by (fastforce simp: garbage_def rsa_view_def split: option.splits)
  with D(7) owns_finite [OF D(3)] show *: "finite (dom (rsa_blocks m))" by (meson finite_Un finite_subset)
  have "dom (rsa_objects m) \<subseteq> snd ` ran (rsa_blocks m)"
  proof
    fix q assume "q \<in> dom (rsa_objects m)"
    with objects_okD(6) [OF D(1), of q] obtain p l where "rsa_blocks m p = Some (l, q)" by auto
    then show "q \<in> snd ` ran (rsa_blocks m)" by (force dest: ranI)
  qed
  with finite_ran [OF *] show "finite (dom (rsa_objects m))" by (meson finite_imageI finite_subset)
qed

lemma alloc_okD:
  assumes "alloc_ok alloc" and "implements k b ks m" and "alloc key m = (p, q)"
  shows "p \<noteq> NULL" "q \<noteq> NULL" "aes_blocks m p = None" "rsa_blocks m p = None" "rsa_objects m q = None"
  using assms implements_finite [OF assms(2)] unfolding alloc_ok_def by blast+

definition follows_store :: "nat \<Rightarrow> nat \<Rightarrow> 'r keystore option \<Rightarrow> 'r key_memory option \<Rightarrow> bool" where
  "follows_store k b x y \<longleftrightarrow> (case x of None \<Rightarrow> y = None | Some ks \<Rightarrow> \<exists>m. y = Some m \<and> implements k b ks m)"

lemma load_aes_follows:
  assumes m: "implements k b ks m" and alloc: "alloc_ok alloc"
  shows "follows_store k b (keystore_load_aeskey L mem kf key ks) (mem_load_aeskey L mem alloc kf key m)"
proof (cases "\<exists>l0 l1. kf_get L kf ''aes'' key = Some [l0, l1]")
  case False
  then have "keystore_load_aeskey L mem kf key ks = Some ks" "mem_load_aeskey L mem alloc kf key m = Some m"
    by (auto simp: keystore_load_aeskey_def mem_load_aeskey_def split: option.splits list.splits)
  with m show ?thesis by (simp add: follows_store_def)
next
  case True
  then obtain l0 l1 where l: "kf_get L kf ''aes'' key = Some [l0, l1]" by auto
  obtain p q where a: "alloc key m = (p, q)" by fastforce
  note A = alloc_okD [OF alloc m a]
  show ?thesis
  proof (cases "atoi key")
    case (Some i)
    let ?b = "base64_decode L l1"
    let ?k = "\<lparr>aes_keylen = int (length ?b) * 8, aes_bytes = ?b @ drop (length ?b) (take (EVP_MAX_KEY_LENGTH L) (mem key))\<rparr>"
    note put = put_aes [OF m A(1,3) atoi_i32 [OF Some], of ?k]
    show ?thesis
      by (cases "atoi l0"; cases "keystore_key_replace (ks_aes ks) ?k i")
        (use put in \<open>auto simp: follows_store_def keystore_load_aeskey_def mem_load_aeskey_def l Some a Let_def\<close>)
  qed (simp add: follows_store_def keystore_load_aeskey_def mem_load_aeskey_def l)
qed

text \<open>The blocks that loading an entry loses: the key that does not decode.\<close>

definition lost_block :: "('kf, 'd, 'r) store_lib \<Rightarrow> 'kf \<Rightarrow> string \<Rightarrow> nat" where
  "lost_block L kf key = (case kf_get L kf ''rsa'' key of
     Some [l0, l1] \<Rightarrow> if d2i L (base64_decode L l1) = None then 1 else 0
   | _ \<Rightarrow> 0)"

lemma garbage_grows:
  fixes l :: int
  assumes m: "implements k b ks m" and p: "p \<noteq> NULL" "rsa_blocks m p = None"
  shows "implements (Suc k) b ks (m\<lparr>rsa_blocks := (rsa_blocks m)(p \<mapsto> (l, NULL))\<rparr>)"
proof -
  let ?m = "m\<lparr>rsa_blocks := (rsa_blocks m)(p \<mapsto> (l, NULL))\<rparr>"
  note D = implementsD [OF m] and O = objects_okD [OF implementsD(1) [OF m]]
  have ok: "objects_ok ?m"
  proof (rule objects_okI)
    show "\<exists>p' l. rsa_blocks ?m p' = Some (l, q)" if "rsa_objects ?m q \<noteq> None" for q
    proof -
      have "rsa_objects m q \<noteq> None" using that by simp
      then obtain p' l' where "rsa_blocks m p' = Some (l', q)" using O(6) by blast
      with p(2) show ?thesis by (intro exI [of _ p']) auto
    qed
  qed (use O p in \<open>auto split: if_splits\<close>)
  have "rsa_view ?m p' = rsa_view m p'" for p'
    using O(3) p(2) by (auto simp: rsa_view_def split: option.split)
  then have v: "rsa_view ?m = rsa_view m" by (simp add: fun_eq_iff)
  have "garbage ?m = insert p (garbage m)" "p \<notin> garbage m" using p(2) by (auto simp: garbage_def)
  with D ok v show ?thesis by (simp add: implements_def memory_ok_def key_store_def)
qed

lemma load_rsa_follows:
  assumes m: "implements k b ks m" and alloc: "alloc_ok alloc"
  shows "follows_store (k + lost_block L kf key) b (keystore_load_rsakey L kf key ks) (mem_load_rsakey L alloc kf key m)"
proof (cases "\<exists>l0 l1. kf_get L kf ''rsa'' key = Some [l0, l1]")
  case False
  then have "keystore_load_rsakey L kf key ks = Some ks" "mem_load_rsakey L alloc kf key m = Some m" "lost_block L kf key = 0"
    by (auto simp: keystore_load_rsakey_def mem_load_rsakey_def lost_block_def split: option.splits list.splits)
  with m show ?thesis by (simp add: follows_store_def)
next
  case True
  then obtain l0 l1 where l: "kf_get L kf ''rsa'' key = Some [l0, l1]" by auto
  obtain p q where a: "alloc key m = (p, q)" by fastforce
  note A = alloc_okD [OF alloc m a]
  show ?thesis
  proof (cases "atoi key"; cases "atoi l0")
    fix i n assume i: "atoi key = Some i" and n: "atoi l0 = Some n"
    show ?thesis
    proof (cases "d2i L (base64_decode L l1)")
      case None
      with garbage_grows [OF m A(1,4), of n] show ?thesis
        by (simp add: follows_store_def keystore_load_rsakey_def mem_load_rsakey_def lost_block_def l i n a Let_def)
    next
      case (Some r)
      note put = put_rsa [OF m A(1,4,2,5) atoi_i32 [OF i], where l = n and r = r]
      show ?thesis
        by (cases "keystore_key_replace (ks_rsa ks) \<lparr>rsa_keylen = n, rsa_rsa = r\<rparr> i")
          (use put Some in \<open>auto simp: follows_store_def keystore_load_rsakey_def mem_load_rsakey_def lost_block_def l i n a Let_def\<close>)
    qed
  qed (simp_all add: follows_store_def keystore_load_rsakey_def mem_load_rsakey_def l)
qed

text \<open>\<open>w\<close>: what an entry loses.\<close>

lemma load_all_follows:
  assumes step: "\<And>key k ks m. implements k b ks m \<Longrightarrow> follows_store (k + w key) b (f key ks) (g key m)"
    and "implements k b ks m"
  shows "follows_store (k + sum_list (map w keys)) b (load_all f keys ks) (load_all g keys m)"
  using assms(2)
proof (induction keys arbitrary: k ks m)
  case (Cons key keys)
  have one: "follows_store (k + w key) b (f key ks) (g key m)" by (rule step [OF Cons.prems])
  show ?case
  proof (cases "f key ks")
    case None
    with one show ?thesis by (simp add: follows_store_def)
  next
    case (Some ks1)
    with one obtain m1 where "g key m = Some m1" "implements (k + w key) b ks1 m1" by (auto simp: follows_store_def)
    with Cons.IH [OF this(2)] Some show ?thesis by (simp add: add.assoc)
  qed
qed (simp add: follows_store_def)

lemma load_keys_follows:
  assumes step: "\<And>key k ks m. implements k b ks m \<Longrightarrow> follows_store (k + w key) b (f key ks) (g key m)"
    and m: "implements k b ks m"
  shows "follows_store (k + sum_list (map w (concat (option_list keys)))) b
    (case keys of None \<Rightarrow> Some ks | Some l \<Rightarrow> load_all f l ks) (case keys of None \<Rightarrow> Some m | Some l \<Rightarrow> load_all g l m)"
proof (cases keys)
  case None
  with m show ?thesis by (simp add: follows_store_def)
next
  case (Some l)
  with load_all_follows [of b w f g, OF step m] show ?thesis by simp
qed

end
