(* ===== verification/Security_Memory_Safety.thy ===== *)
theory Security_Memory_Safety
  imports Security_Memory_Runs
begin

text \<open>
  Runs of the module with pointers against runs with values: nothing is freed twice, nothing is used
  after it is freed, and what is lost is counted.
\<close>

section \<open>Operations\<close>

text \<open>
  The results of the allocator, of the random numbers and of the key generation are part of an
  operation, and the orders in which closing enumerates the tables.
\<close>

datatype ('d, 'r) key_op =
  Open_Store "'d option"
| Create_AES ptr "u8 list" "nat \<Rightarrow> int \<times> u8 list" int int
| Create_RSA ptr ptr ptr "int \<times> 'r" int int
| Close_Store "int list" "int list"

fun store_op ::
  "('kf, 'd, 'r) store_lib \<Rightarrow> cipher_lib \<Rightarrow> (string \<Rightarrow> u8 list) \<Rightarrow> ('d, 'r) key_op \<Rightarrow> 'r keystore \<Rightarrow>
   (nyx_error \<times> int \<times> 'r keystore) option" where
  "store_op L C mem (Open_Store file) ks = do {
     let (_, ks1) = keystore_init True True ks;
     (r, ks2) \<leftarrow> keystore_load L mem file ks1;
     ks3 \<leftarrow> (if r \<noteq> NYX_ERROR_NONE then keystore_destroy ks2 else Some ks2);
     Some (r, 0, ks3) }"
| "store_op L C mem (Create_AES addr block rand keylen index) ks =
     aes_generate_key C (if addr = NULL then None else Some block) rand keylen index ks"
| "store_op L C mem (Create_RSA addr obj bn gen keylen index) ks =
     rsa_generate_key (addr \<noteq> NULL) gen keylen index ks"
| "store_op L C mem (Close_Store ao ro) ks = map_option (\<lambda>ks'. (NYX_ERROR_NONE, 0, ks')) (keystore_destroy ks)"

fun mem_op ::
  "('kf, 'd, 'r) store_lib \<Rightarrow> cipher_lib \<Rightarrow> (string \<Rightarrow> u8 list) \<Rightarrow> (string \<Rightarrow> 'r key_memory \<Rightarrow> ptr \<times> ptr) \<Rightarrow>
   ('d, 'r) key_op \<Rightarrow> 'r key_memory \<Rightarrow> (nyx_error \<times> int \<times> 'r key_memory) option" where
  "mem_op L C mem alloc (Open_Store file) m = map_option (\<lambda>(r, m'). (r, 0, m')) (mem_keystore_open L mem alloc file m)"
| "mem_op L C mem alloc (Create_AES addr block rand keylen index) m =
     mem_aes_generate_key C addr block rand keylen index m"
| "mem_op L C mem alloc (Create_RSA addr obj bn gen keylen index) m =
     mem_rsa_generate_key addr obj bn gen keylen index m"
| "mem_op L C mem alloc (Close_Store ao ro) m = map_option (\<lambda>m'. (NYX_ERROR_NONE, 0, m')) (mem_keystore_destroy ao ro m)"

text \<open>The answers of a run and its last state.\<close>

fun run_ops :: "('o \<Rightarrow> 's \<Rightarrow> (nyx_error \<times> int \<times> 's) option) \<Rightarrow> 'o list \<Rightarrow> 's \<Rightarrow> ((nyx_error \<times> int) list \<times> 's) option" where
  "run_ops f [] s = Some ([], s)"
| "run_ops f (op # ops) s = do {
     (r, i, s1) \<leftarrow> f op s;
     (answers, s2) \<leftarrow> run_ops f ops s1;
     Some ((r, i) # answers, s2) }"

section \<open>What the environment does\<close>

text \<open>
  Allocated blocks are new, the index is an int, tables are enumerated completely, and the module is
  opened when its tables are not there.
\<close>

definition no_tables :: "'r key_memory \<Rightarrow> bool" where
  "no_tables m \<longleftrightarrow> (\<forall>t. km_aes m \<noteq> Table t) \<and> (\<forall>t. km_rsa m \<noteq> Table t)"

fun op_ok :: "('d, 'r) key_op \<Rightarrow> 'r key_memory \<Rightarrow> bool" where
  "op_ok (Open_Store file) m \<longleftrightarrow> no_tables m"
| "op_ok (Create_AES addr block rand keylen index) m \<longleftrightarrow> aes_blocks m addr = None \<and> in_i32 index"
| "op_ok (Create_RSA addr obj bn gen keylen index) m \<longleftrightarrow> rsa_blocks m addr = None \<and> in_i32 index \<and>
     obj \<noteq> NULL \<and> rsa_objects m obj = None \<and> bn \<noteq> NULL \<and> bn \<notin> bignums m"
| "op_ok (Close_Store ao ro) m \<longleftrightarrow> enumerates ao (table_map (km_aes m)) \<and> enumerates ro (table_map (km_rsa m))"

fun ops_ok :: "(('d, 'r) key_op \<Rightarrow> 'r key_memory \<Rightarrow> (nyx_error \<times> int \<times> 'r key_memory) option) \<Rightarrow>
    ('d, 'r) key_op list \<Rightarrow> 'r key_memory \<Rightarrow> bool" where
  "ops_ok f [] m \<longleftrightarrow> True"
| "ops_ok f (op # ops) m \<longleftrightarrow> op_ok op m \<and> (case f op m of None \<Rightarrow> True | Some (_, _, m1) \<Rightarrow> ops_ok f ops m1)"

section \<open>What is lost\<close>

definition lost_blocks :: "('kf, 'd, 'r) store_lib \<Rightarrow> 'd option \<Rightarrow> nat" where
  "lost_blocks L file = (case Option.bind file (kf_load L) of
     None \<Rightarrow> 0
   | Some kf \<Rightarrow> sum_list (map (lost_block L kf) (concat (option_list (kf_keys L kf ''rsa'')))))"

fun op_blocks :: "('kf, 'd, 'r) store_lib \<Rightarrow> ('d, 'r) key_op \<Rightarrow> nat" where
  "op_blocks L (Open_Store file) = lost_blocks L file"
| "op_blocks L _ = 0"

fun op_bignums :: "('d, 'r) key_op \<Rightarrow> nat" where
  "op_bignums (Create_RSA addr obj bn gen keylen index) = lost_bignum addr gen keylen"
| "op_bignums _ = 0"

section \<open>One operation\<close>

lemma init_implements:
  assumes m: "implements k b ks m" and none: "no_tables m"
  shows "implements k b \<lparr>ks_aes = Table Map.empty, ks_rsa = Table Map.empty\<rparr>
    (m\<lparr>km_aes := Table Map.empty, km_rsa := Table Map.empty\<rparr>)"
proof -
  note D = implementsD [OF m]
  have "aes_blocks m = Map.empty" "rsa_view m = Map.empty"
    using D(2,3) none by (auto simp: owns_def no_tables_def split: table.splits)
  with D show ?thesis
    by (simp add: implements_def memory_ok_def key_store_def owns_def owned_def)
qed

lemma load_follows:
  assumes m: "implements k b ks m" and alloc: "alloc_ok alloc"
  shows "case keystore_load L mem file ks of
      None \<Rightarrow> mem_keystore_load L mem alloc file m = None
    | Some (r, ks') \<Rightarrow> \<exists>m'. mem_keystore_load L mem alloc file m = Some (r, m') \<and>
        implements (k + lost_blocks L file) b ks' m' \<and> (r \<noteq> NYX_ERROR_NONE \<longrightarrow> m' = m)"
proof (cases "Option.bind file (kf_load L)")
  case None
  with m show ?thesis
    by (cases "file") (auto simp: keystore_load_def mem_keystore_load_def lost_blocks_def)
next
  case (Some kf)
  then obtain data where f: "file = Some data" "kf_load L data = Some kf" by (auto elim: bind_eq_SomeE)
  have aes: "implements k b ks m \<Longrightarrow> follows_store (k + (\<lambda>_. 0) key) b (keystore_load_aeskey L mem kf key ks)
      (mem_load_aeskey L mem alloc kf key m)" for key k ks and m
    by (simp add: load_aes_follows [OF _ alloc])
  have rsa: "implements k b ks m \<Longrightarrow> follows_store (k + lost_block L kf key) b (keystore_load_rsakey L kf key ks)
      (mem_load_rsakey L alloc kf key m)" for key k ks and m
    by (rule load_rsa_follows [OF _ alloc])
  let ?x = "case kf_keys L kf ''aes'' of None \<Rightarrow> Some ks | Some l \<Rightarrow> load_all (keystore_load_aeskey L mem kf) l ks"
  let ?y = "case kf_keys L kf ''aes'' of None \<Rightarrow> Some m | Some l \<Rightarrow> load_all (mem_load_aeskey L mem alloc kf) l m"
  have 1: "follows_store k b ?x ?y"
    using load_keys_follows [of b "\<lambda>_. 0" "keystore_load_aeskey L mem kf" "mem_load_aeskey L mem alloc kf", OF aes m] by simp
  show ?thesis
  proof (cases ?x)
    case None
    with 1 show ?thesis by (simp add: follows_store_def keystore_load_def mem_keystore_load_def f)
  next
    case (Some ks1)
    with 1 obtain m1 where y: "?y = Some m1" "implements k b ks1 m1" by (auto simp: follows_store_def)
    from load_keys_follows [of b "lost_block L kf" "keystore_load_rsakey L kf" "mem_load_rsakey L alloc kf", OF rsa y(2), where keys = "kf_keys L kf ''rsa''"] Some y(1)
    show ?thesis
      by (cases "case kf_keys L kf ''rsa'' of None \<Rightarrow> Some ks1 | Some l \<Rightarrow> load_all (keystore_load_rsakey L kf) l ks1")
        (auto simp: follows_store_def keystore_load_def mem_keystore_load_def f lost_blocks_def)
  qed
qed

lemma open_follows:
  assumes m: "implements k b ks m" and alloc: "alloc_ok alloc" and none: "no_tables m"
  shows "follows (k + lost_blocks L file) b (store_op L C mem (Open_Store file) ks) (mem_op L C mem alloc (Open_Store file) m)"
proof -
  let ?ks = "\<lparr>ks_aes = Table Map.empty, ks_rsa = Table Map.empty\<rparr>"
    and ?m = "m\<lparr>km_aes := Table Map.empty, km_rsa := Table Map.empty\<rparr>"
  have init: "keystore_init True True ks = (NYX_ERROR_NONE, ?ks)" by (cases ks) (simp add: keystore_init_def)
  note start = init_implements [OF m none]
  note load = load_follows [OF start alloc, of L mem "file"]
  show ?thesis
  proof (cases "keystore_load L mem file ?ks")
    case None
    with load show ?thesis by (simp add: follows_def init mem_keystore_open_def)
  next
    case (Some rks)
    obtain r ks1 where rks: "rks = (r, ks1)" by (cases rks)
    with load Some obtain m1 where m1: "mem_keystore_load L mem alloc file ?m = Some (r, m1)"
      "implements (k + lost_blocks L file) b ks1 m1" "r \<noteq> NYX_ERROR_NONE \<longrightarrow> m1 = ?m" by auto
    show ?thesis
    proof (cases "r = NYX_ERROR_NONE")
      case True
      with m1 Some rks show ?thesis by (simp add: follows_def init mem_keystore_open_def)
    next
      case False
      with m1(3) have "m1 = ?m" by simp
      then have "enumerates [] (table_map (km_aes m1))" "enumerates [] (table_map (km_rsa m1))"
        by (simp_all add: enumerates_def)
      from destroy_follows [OF m1(2) this] False m1(1) Some rks show ?thesis
        by (cases "keystore_destroy ks1") (auto simp: follows_def init mem_keystore_open_def)
    qed
  qed
qed

lemma op_follows:
  assumes m: "implements k b ks m" and alloc: "alloc_ok alloc" and ok: "op_ok op m"
  shows "follows (k + op_blocks L op) (b + op_bignums op) (store_op L C mem op ks) (mem_op L C mem alloc op m)"
proof (cases op)
  case (Open_Store data)
  with open_follows [OF m alloc, of L data C mem] ok show ?thesis by (simp del: store_op.simps mem_op.simps)
next
  case (Create_AES addr block rand keylen index)
  with create_aes_follows [OF m, of addr index C block rand keylen] ok show ?thesis by simp
next
  case (Create_RSA addr obj bn gen keylen index)
  with create_rsa_follows [OF m, of addr obj bn index gen keylen] ok show ?thesis by simp
next
  case (Close_Store ao ro)
  with destroy_follows [OF m, of ao ro] ok show ?thesis
    by (cases "keystore_destroy ks") (auto simp: follows_def)
qed

section \<open>Runs\<close>

lemma runs_follow:
  assumes alloc: "alloc_ok alloc" and "implements k b ks m" and "ops_ok (mem_op L C mem alloc) ops m"
  shows "case run_ops (store_op L C mem) ops ks of
      None \<Rightarrow> run_ops (mem_op L C mem alloc) ops m = None
    | Some (answers, ks') \<Rightarrow> \<exists>m'. run_ops (mem_op L C mem alloc) ops m = Some (answers, m') \<and>
        implements (k + sum_list (map (op_blocks L) ops)) (b + sum_list (map op_bignums ops)) ks' m'"
  using assms(2,3)
proof (induction ops arbitrary: k b ks m)
  case (Cons op ops)
  have one: "follows (k + op_blocks L op) (b + op_bignums op) (store_op L C mem op ks) (mem_op L C mem alloc op m)"
    by (rule op_follows [OF Cons.prems(1) alloc]) (use Cons.prems(2) in simp)
  show ?case
  proof (cases "store_op L C mem op ks")
    case None
    with one show ?thesis by (simp add: follows_def)
  next
    case (Some x)
    obtain r i ks1 where x: "x = (r, i, ks1)" by (cases x)
    with one Some obtain m1 where m1: "mem_op L C mem alloc op m = Some (r, i, m1)"
      "implements (k + op_blocks L op) (b + op_bignums op) ks1 m1" by (auto simp: follows_def)
    with Cons.prems(2) have "ops_ok (mem_op L C mem alloc) ops m1" by simp
    from Cons.IH [OF m1(2) this] Some x m1(1) show ?thesis
      by (cases "run_ops (store_op L C mem) ops ks1") (auto simp: add.assoc)
  qed
qed simp

lemma start_implements: "implements 0 0 \<lparr>ks_aes = Null_Table, ks_rsa = Null_Table\<rparr> memory_start"
  by (simp add: implements_def memory_ok_def objects_ok_def owns_def key_store_def memory_start_def garbage_def rsa_view_def fun_eq_iff)

text \<open>When the tables are gone, so are the keys.\<close>

lemma closed_memory:
  assumes m: "implements k b ks m" and none: "no_tables m"
  shows "aes_blocks m = Map.empty" and "rsa_objects m = Map.empty" and "card (dom (rsa_blocks m)) = k"
proof -
  note D = implementsD [OF m]
  show "aes_blocks m = Map.empty" using D(2) none by (auto simp: owns_def no_tables_def split: table.splits)
  have v: "rsa_view m = Map.empty" using D(3) none by (auto simp: owns_def no_tables_def split: table.splits)
  have "rsa_objects m q = None" for q
  proof (rule ccontr)
    assume q: "rsa_objects m q \<noteq> None"
    with objects_okD(6) [OF D(1) q] obtain p l where "rsa_blocks m p = Some (l, q)" by auto
    with q have "rsa_view m p \<noteq> None" by (auto simp: rsa_view_def)
    with v show False by simp
  qed
  then show o: "rsa_objects m = Map.empty" by (simp add: fun_eq_iff)
  have "dom (rsa_blocks m) = garbage m"
    using objects_okD(5) [OF D(1)] o by (fastforce simp: garbage_def)
  with D(8) show "card (dom (rsa_blocks m)) = k" by simp
qed

text \<open>
  C31: The keys are freed exactly once. Whatever is opened, created and closed, with
  pointers, blocks and destructors the module does what the model with values says: it has the same
  answers and the same keys, and it is undefined (a block freed twice or used after it was freed,
  among others) only where that is. Every live key belongs to one index of a table, the blocks of
  keys that are in no table are those of the RSA entries that could not be decoded when a store
  was loaded, and a big number is left for every generation that gave -1. When the module is closed,
  nothing else is left.
\<close>

theorem security_memory_refines:
  assumes alloc: "alloc_ok alloc" and ok: "ops_ok (mem_op L C mem alloc) ops memory_start"
  shows "case run_ops (store_op L C mem) ops \<lparr>ks_aes = Null_Table, ks_rsa = Null_Table\<rparr> of
      None \<Rightarrow> run_ops (mem_op L C mem alloc) ops memory_start = None
    | Some (answers, ks) \<Rightarrow> \<exists>m. run_ops (mem_op L C mem alloc) ops memory_start = Some (answers, m) \<and>
        key_store m = ks \<and> owns (km_aes m) (aes_blocks m) \<and> owns (km_rsa m) (rsa_view m) \<and>
        card (garbage m) = sum_list (map (op_blocks L) ops) \<and>
        card (bignums m) = sum_list (map op_bignums ops) \<and>
        (no_tables m \<longrightarrow> aes_blocks m = Map.empty \<and> rsa_objects m = Map.empty \<and>
           card (dom (rsa_blocks m)) = sum_list (map (op_blocks L) ops))"
proof (cases "run_ops (store_op L C mem) ops \<lparr>ks_aes = Null_Table, ks_rsa = Null_Table\<rparr>")
  case None
  with runs_follow [OF alloc start_implements ok] show ?thesis by simp
next
  case (Some x)
  obtain answers ks where x: "x = (answers, ks)" by (cases x)
  with runs_follow [OF alloc start_implements ok] Some obtain m where
    m: "run_ops (mem_op L C mem alloc) ops memory_start = Some (answers, m)"
      "implements (sum_list (map (op_blocks L) ops)) (sum_list (map op_bignums ops)) ks m" by auto
  note D = implementsD [OF m(2)]
  have "key_store m = ks" using m(2) by (simp add: implements_def)
  with D m(1) closed_memory [OF m(2)] Some x show ?thesis by simp
qed

section \<open>At a concrete run\<close>

text \<open>
  A store with an RSA key that does not decode is opened; a key is replaced; a generation fails; the
  module is closed.
\<close>

definition ex_alloc :: "string \<Rightarrow> 'r key_memory \<Rightarrow> ptr \<times> ptr" where
  "ex_alloc key m = (Suc (Max (insert 0 (dom (aes_blocks m) \<union> dom (rsa_blocks m)))), Suc (Max (insert 0 (dom (rsa_objects m)))))"

lemma Suc_Max_new: "finite A \<Longrightarrow> Suc (Max (insert 0 A)) \<notin> A"
  by (metis Max_ge Suc_n_not_le_n finite.insertI insertCI)

lemma ex_alloc_ok: "alloc_ok ex_alloc"
proof -
  have "aes_blocks m p = None \<and> rsa_blocks m p = None \<and> rsa_objects m q = None"
    if "ex_alloc key m = (p, q)" "finite (dom (aes_blocks m))" "finite (dom (rsa_blocks m))" "finite (dom (rsa_objects m))"
    for key m p q
    using Suc_Max_new [of "dom (aes_blocks m) \<union> dom (rsa_blocks m)"] Suc_Max_new [of "dom (rsa_objects m)"] that
    by (auto simp: ex_alloc_def)
  moreover have "p \<noteq> NULL \<and> q \<noteq> NULL" if "ex_alloc key m = (p, q)" for key m p q
    using that by (auto simp: ex_alloc_def)
  ultimately show ?thesis unfolding alloc_ok_def by metis
qed

definition ex_broken_lib :: "(ex_file, ex_file, u8 list) store_lib" where
  "ex_broken_lib = ex_store_lib\<lparr>d2i := (\<lambda>_. None)\<rparr>"

definition ex_run :: "(ex_file, u8 list) key_op list" where
  "ex_run = [Open_Store (Some (ex_set (\<lambda>_ _. None, \<lambda>_. None) ''rsa'' ''0'' [''8'', ''AD''])),
     Create_AES 8 (replicate 64 0) (\<lambda>n. (1, replicate n 7)) 128 3,
     Create_AES 9 (replicate 64 0) (\<lambda>n. (1, replicate n 5)) 128 3,
     Create_RSA 20 21 22 (-1, []) 2048 (-1),
     Close_Store [3] []]"

lemma ex_atoi: "atoi ''0'' = Some 0" "atoi ''8'' = Some 8"
  by code_simp+

definition ex_aes :: "u8 \<Rightarrow> aes_key" where
  "ex_aes b = \<lparr>aes_keylen = 128, aes_bytes = replicate 16 b @ replicate 48 0\<rparr>"

text \<open>The memory after opening, when the tables hold \<open>t\<close> and the blocks are \<open>blocks\<close>.\<close>

definition ex_memory :: "(int \<rightharpoonup> ptr) \<Rightarrow> (ptr \<rightharpoonup> aes_key) \<Rightarrow> u8 list key_memory" where
  "ex_memory t blocks = \<lparr>km_aes = Table t, km_rsa = Table Map.empty, aes_blocks = blocks,
      rsa_blocks = [1 \<mapsto> (8, NULL)], rsa_objects = Map.empty, bignums = {}\<rparr>"

lemma ex_opened: "mem_op ex_broken_lib ex_cipher_lib (\<lambda>_. []) ex_alloc
    (Open_Store (Some (ex_set (\<lambda>_ _. None, \<lambda>_. None) ''rsa'' ''0'' [''8'', ''AD'']))) memory_start =
    Some (NYX_ERROR_NONE, 0, ex_memory Map.empty Map.empty)"
  by (simp add: mem_keystore_open_def mem_keystore_load_def mem_load_rsakey_def ex_broken_lib_def ex_store_lib_def ex_set_def
      memory_start_def ex_atoi ex_alloc_def ex_memory_def)

lemma ex_write: "write_at (replicate 64 (0 :: u8)) 0 (replicate 16 b) = Some (replicate 16 b @ replicate 48 0)"
  by (simp add: write_at_def)

lemma ex_create:
  assumes "p \<noteq> NULL"
  shows "mem_aes_generate_key C p (replicate 64 0) (\<lambda>n. (1, replicate n b)) 128 3 (ex_memory t blocks) =
    (case t 3 of
       None \<Rightarrow> Some (NYX_ERROR_NONE, 3, ex_memory (t(3 \<mapsto> p)) (blocks(p \<mapsto> ex_aes b)))
     | Some q \<Rightarrow> do {
         m \<leftarrow> aes_destroy_key q (ex_memory t (blocks(p \<mapsto> ex_aes b)));
         Some (NYX_ERROR_NONE, 3, m\<lparr>km_aes := Table (t(3 \<mapsto> p))\<rparr>) })"
  using assms
  by (simp add: mem_aes_generate_key_def aes_supported_iff sdiv_nonneg ex_write mem_key_replace_def
      ex_memory_def ex_aes_def split: option.split)

lemma ex_replaced: "aes_destroy_key 8 (ex_memory t [8 \<mapsto> x, 9 \<mapsto> y]) = Some (ex_memory t [9 \<mapsto> y])"
  by (simp add: aes_destroy_key_def ex_memory_def fun_upd_twist)

lemma ex_generation: "mem_rsa_generate_key 20 21 22 (-1, []) 2048 (-1) (ex_memory t blocks) =
    Some (NYX_ERROR_GENERIC, -1, (ex_memory t blocks)\<lparr>bignums := {22}\<rparr>)"
  by (simp add: mem_rsa_generate_key_def rsa_destroy_key_def RSA_free_def ex_memory_def fun_upd_twist)

lemma ex_closed: "mem_keystore_destroy [3] [] ((ex_memory [3 \<mapsto> 9] [9 \<mapsto> y])\<lparr>bignums := B\<rparr>) =
    Some \<lparr>km_aes = Freed_Table, km_rsa = Freed_Table, aes_blocks = Map.empty, rsa_blocks = [1 \<mapsto> (8, NULL)],
      rsa_objects = Map.empty, bignums = B\<rparr>"
  by (simp add: mem_keystore_destroy_def aes_destroy_key_def ex_memory_def)

lemma ex_memory_table: "(ex_memory t blocks)\<lparr>km_aes := Table u\<rparr> = ex_memory u blocks"
  by (simp add: ex_memory_def)

lemmas ex_steps = ex_opened ex_create ex_replaced ex_memory_table ex_generation ex_closed

lemma ex_run_ok:
  "ops_ok (mem_op ex_broken_lib ex_cipher_lib (\<lambda>_. []) ex_alloc) ex_run memory_start"
proof -
  have "no_tables memory_start" by (simp add: no_tables_def memory_start_def)
  moreover have "in_i32 (-1)" by (rule store.minus_one)
  ultimately show ?thesis
    unfolding ex_run_def ops_ok.simps ex_opened
    by (simp add: ex_steps ex_ints del: mem_op.simps(1)) (simp add: enumerates_def ex_memory_def)
qed

lemma ex_run_memory:
  "run_ops (mem_op ex_broken_lib ex_cipher_lib (\<lambda>_. []) ex_alloc) ex_run memory_start = Some
    ([(NYX_ERROR_NONE, 0), (NYX_ERROR_NONE, 3), (NYX_ERROR_NONE, 3), (NYX_ERROR_GENERIC, -1), (NYX_ERROR_NONE, 0)],
     \<lparr>km_aes = Freed_Table, km_rsa = Freed_Table, aes_blocks = Map.empty, rsa_blocks = [1 \<mapsto> (8, NULL)],
      rsa_objects = Map.empty, bignums = {22}\<rparr>)"
  unfolding ex_run_def run_ops.simps ex_opened
  by (simp add: ex_steps del: mem_op.simps(1))

theorem security_memory_refines_witness:
  "\<exists>answers ks m. run_ops (store_op ex_broken_lib ex_cipher_lib (\<lambda>_. [])) ex_run \<lparr>ks_aes = Null_Table, ks_rsa = Null_Table\<rparr> = Some (answers, ks) \<and>
    run_ops (mem_op ex_broken_lib ex_cipher_lib (\<lambda>_. []) ex_alloc) ex_run memory_start = Some (answers, m) \<and>
    answers = [(NYX_ERROR_NONE, 0), (NYX_ERROR_NONE, 3), (NYX_ERROR_NONE, 3), (NYX_ERROR_GENERIC, -1), (NYX_ERROR_NONE, 0)] \<and>
    sum_list (map (op_blocks ex_broken_lib) ex_run) = 1 \<and> dom (rsa_blocks m) = {1} \<and> bignums m = {22}"
  using security_memory_refines [OF ex_alloc_ok ex_run_ok] unfolding ex_run_memory
  by (cases "run_ops (store_op ex_broken_lib ex_cipher_lib (\<lambda>_. [])) ex_run \<lparr>ks_aes = Null_Table, ks_rsa = Null_Table\<rparr>")
    (auto simp: no_tables_def)

end
