(* ===== verification/Info_Read.thy ===== *)
theory Info_Read
  imports Power_Utils
begin

text \<open>
  What os_info.c and device_info_generic.c share: reading the output of a command or a file once,
  with \<open>getdelim\<close>, into a string that is kept. Each has its own copy of the function; the contract
  of both is the interface \<open>cached_read\<close>.
\<close>

section \<open>getdelim with EOF as the delimiter\<close>

text \<open>
  A stream that was opened (None when popen or fopen fails) has contents. At their very end
  getdelim returns -1, and what its buffer pointer is then is not specified: \<open>eof_buf\<close>, None for
  NULL. The delimiter EOF, -1, is the character 255: it ends the reading and is kept.
\<close>

record reading =
  stream :: "string option"
  eof_buf :: "string option"

definition getdelim_eof :: "string \<Rightarrow> string" where
  "getdelim_eof contents =
     (let a = takeWhile (\<lambda>c. c \<noteq> CHR 0xFF) contents in
      if length a < length contents then a @ [CHR 0xFF] else a)"

text \<open>The end of line at the end is overwritten by the end of the string.\<close>

definition chomp :: "string \<Rightarrow> string" where
  "chomp s = (if s \<noteq> [] \<and> last s = CHR 0x0A then butlast s else s)"

section \<open>The contract\<close>

text \<open>
  \<open>read\<close> takes what can be read and the string kept so far: a kept string is never read again, and
  success means that there is one.
\<close>

locale cached_read =
  fixes read :: "'e \<Rightarrow> string option \<Rightarrow> nyx_error \<times> string option"
  assumes kept: "read e (Some s) = (NYX_ERROR_NONE, Some s)"
    and success: "read e t = (NYX_ERROR_NONE, t') \<Longrightarrow> t' \<noteq> None"
    and failure: "read e t = (r, t') \<Longrightarrow> r \<noteq> NYX_ERROR_NONE \<Longrightarrow> t = None"
begin

fun reads :: "'e list \<Rightarrow> string option \<Rightarrow> string option" where
  "reads [] t = t"
| "reads (e # es) t = reads es (snd (read e t))"

lemma reads_kept: "reads es (Some s) = Some s"
  by (induction es) (simp_all add: kept)

text \<open>Whatever is read in between, a string once read is read again.\<close>

lemma read_stable:
  assumes "read e t = (NYX_ERROR_NONE, t')"
  shows "read e' (reads es t') = (NYX_ERROR_NONE, t')"
  using success [OF assms] by (auto simp: reads_kept kept)

end

end
