(* ===== verification/Os_Info.thy ===== *)
theory Os_Info
  imports Info_Read
begin

text \<open>
  os_info.c.in: facts about the system, most of them the output of a command. The values that the
  build writes into the file are a function of their names.
\<close>

section \<open>Data\<close>

datatype os_info_mode = OS_INFO_MODE_PIPE | OS_INFO_MODE_FILE

record os_info_device =
  kernel_version :: "string option"
  kernel_config :: "string option"
  core_os_release :: "string option"
  core_os_name :: "string option"
  core_os_release_codename :: "string option"
  webos_imagename :: "string option"

text \<open>The queries of nyx-lib that the code names, and all other values.\<close>

datatype os_info_query_t =
    NYX_OS_INFO_CORE_OS_KERNEL_VERSION
  | NYX_OS_INFO_CORE_OS_KERNEL_CONFIG
  | NYX_OS_INFO_WEBOS_IMAGENAME
  | NYX_OS_INFO_WEBOS_BUILD_ID
  | NYX_OS_INFO_WEBOS_RELEASE_CODENAME
  | NYX_OS_INFO_WEBOS_API_VERSION
  | NYX_OS_INFO_WEBOS_NAME
  | NYX_OS_INFO_WEBOS_RELEASE
  | NYX_OS_INFO_WEBOS_PRERELEASE
  | NYX_OS_INFO_WEBOS_MANUFACTURING_VERSION
  | NYX_OS_INFO_CORE_OS_NAME
  | NYX_OS_INFO_CORE_OS_RELEASE
  | NYX_OS_INFO_CORE_OS_RELEASE_CODENAME
  | NYX_OS_INFO_ENCRYPTION_KEY_TYPE
  | Other_Os_Info

definition read_kernel_version :: string where "read_kernel_version = ''uname -r''"
definition read_kernel_config :: string where
  "read_kernel_config = ''zgrep -E '' @ [CHR 0x27] @ ''=| is not set$'' @ [CHR 0x27] @ '' /proc/config.gz | sort''"
definition read_core_os_release :: string where "read_core_os_release = ''lsb_release -sr''"
definition read_core_os_name :: string where "read_core_os_name = ''lsb_release -si''"
definition read_core_os_release_codename :: string where "read_core_os_release_codename = ''lsb_release -sc''"
definition webos_image_name_file :: "(string \<Rightarrow> string) \<Rightarrow> string" where
  "webos_image_name_file B = B ''WEBOS_INSTALL_WEBOS_SYSCONFDIR'' @ ''/build/image-name''"

section \<open>Reading\<close>

text \<open>\<open>E command mode\<close> is what can be read.\<close>

definition read_info ::
  "(string \<Rightarrow> os_info_mode \<Rightarrow> reading) \<Rightarrow> string \<Rightarrow> os_info_mode \<Rightarrow> string option \<Rightarrow> nyx_error \<times> string option" where
  "read_info E command mode target =
     (if target \<noteq> None then (NYX_ERROR_NONE, target)
      else case stream (E command mode) of
        None \<Rightarrow> (NYX_ERROR_DEVICE_UNAVAILABLE, target)
      | Some contents \<Rightarrow>
          if contents = [] then (NYX_ERROR_DEVICE_UNAVAILABLE, eof_buf (E command mode))
          else (NYX_ERROR_NONE, Some (chomp (getdelim_eof contents))))"

interpretation os: cached_read "\<lambda>E. read_info E command mode" for command mode
  by unfold_locales (auto simp: read_info_def split: option.splits if_splits)

section \<open>Operations\<close>

text \<open>\<open>*d\<close> on return is the device, None for NULL; the argument is None for a NULL \<open>d\<close>.\<close>

definition os_info_module_open :: "bool \<Rightarrow> unit option \<Rightarrow> nyx_error \<times> os_info_device option" where
  "os_info_module_open mem d =
     (if d = None then (NYX_ERROR_INVALID_VALUE, None)
      else if mem then
        (NYX_ERROR_NONE, Some \<lparr>kernel_version = None, kernel_config = None, core_os_release = None,
           core_os_name = None, core_os_release_codename = None, webos_imagename = None\<rparr>)
      else (NYX_ERROR_OUT_OF_MEMORY, None))"

text \<open>The strings that are freed, in order.\<close>

definition os_info_module_close :: "os_info_device option \<Rightarrow> nyx_error \<times> string list" where
  "os_info_module_close d =
     (case d of None \<Rightarrow> (NYX_ERROR_INVALID_HANDLE, [])
      | Some os_info \<Rightarrow> (NYX_ERROR_NONE,
          option_list (kernel_version os_info) @ option_list (kernel_config os_info) @
          option_list (core_os_release os_info) @ option_list (core_os_release_codename os_info) @
          option_list (core_os_name os_info) @ option_list (webos_imagename os_info)))"

text \<open>One case of the switch that reads: the string is given out on success, else the empty one.\<close>

definition query_read ::
  "(string option \<Rightarrow> nyx_error \<times> string option) \<Rightarrow> string option \<Rightarrow> nyx_error \<times> string \<times> string option" where
  "query_read read target =
     (let (error, t) = read target in
      (error, if error = NYX_ERROR_NONE then c_string (the t) else [], t))"

text \<open>\<open>B\<close>: the values of the build. The result is the error, \<open>*dest\<close> and the device.\<close>

fun os_info_query ::
  "(string \<Rightarrow> string) \<Rightarrow> (string \<Rightarrow> os_info_mode \<Rightarrow> reading) \<Rightarrow> os_info_device option \<Rightarrow> os_info_query_t \<Rightarrow>
   string \<Rightarrow> nyx_error \<times> string \<times> os_info_device option" where
  "os_info_query B E None query dest = (NYX_ERROR_INVALID_HANDLE, dest, None)"
| "os_info_query B E (Some d) query dest =
     (case query of
        NYX_OS_INFO_CORE_OS_KERNEL_VERSION \<Rightarrow>
          (let (e, s, t) = query_read (read_info E read_kernel_version OS_INFO_MODE_PIPE) (kernel_version d)
           in (e, s, Some (d\<lparr>kernel_version := t\<rparr>)))
      | NYX_OS_INFO_CORE_OS_KERNEL_CONFIG \<Rightarrow>
          (let (e, s, t) = query_read (read_info E read_kernel_config OS_INFO_MODE_PIPE) (kernel_config d)
           in (e, s, Some (d\<lparr>kernel_config := t\<rparr>)))
      | NYX_OS_INFO_WEBOS_IMAGENAME \<Rightarrow>
          (let (e, s, t) = query_read (read_info E (webos_image_name_file B) OS_INFO_MODE_FILE) (webos_imagename d)
           in (e, s, Some (d\<lparr>webos_imagename := t\<rparr>)))
      | NYX_OS_INFO_WEBOS_BUILD_ID \<Rightarrow> (NYX_ERROR_NONE, B ''WEBOS_DISTRO_BUILD_ID'', Some d)
      | NYX_OS_INFO_WEBOS_RELEASE_CODENAME \<Rightarrow> (NYX_ERROR_NONE, B ''WEBOS_DISTRO_RELEASE_CODENAME'', Some d)
      | NYX_OS_INFO_WEBOS_API_VERSION \<Rightarrow> (NYX_ERROR_NONE, B ''WEBOS_DISTRO_API_VERSION'', Some d)
      | NYX_OS_INFO_WEBOS_NAME \<Rightarrow> (NYX_ERROR_NONE, B ''DISTRO_NAME'', Some d)
      | NYX_OS_INFO_WEBOS_RELEASE \<Rightarrow> (NYX_ERROR_NONE, B ''DISTRO_VERSION'', Some d)
      | NYX_OS_INFO_WEBOS_PRERELEASE \<Rightarrow> (NYX_ERROR_NONE, B ''WEBOS_DISTRO_PRERELEASE'', Some d)
      | NYX_OS_INFO_WEBOS_MANUFACTURING_VERSION \<Rightarrow>
          (NYX_ERROR_NONE, B ''WEBOS_DISTRO_MANUFACTURING_VERSION'', Some d)
      | NYX_OS_INFO_CORE_OS_NAME \<Rightarrow>
          (let (e, s, t) = query_read (read_info E read_core_os_name OS_INFO_MODE_PIPE) (core_os_name d)
           in (e, s, Some (d\<lparr>core_os_name := t\<rparr>)))
      | NYX_OS_INFO_CORE_OS_RELEASE \<Rightarrow>
          (let (e, s, t) = query_read (read_info E read_core_os_release OS_INFO_MODE_PIPE) (core_os_release d)
           in (e, s, Some (d\<lparr>core_os_release := t\<rparr>)))
      | NYX_OS_INFO_CORE_OS_RELEASE_CODENAME \<Rightarrow>
          (let (e, s, t) = query_read (read_info E read_core_os_release_codename OS_INFO_MODE_PIPE)
                             (core_os_release_codename d)
           in (e, s, Some (d\<lparr>core_os_release_codename := t\<rparr>)))
      | NYX_OS_INFO_ENCRYPTION_KEY_TYPE \<Rightarrow>
          (if B ''ENCRYPTION_KEY_TYPE'' = [] then (NYX_ERROR_NOT_IMPLEMENTED, [], Some d)
           else (NYX_ERROR_NONE, B ''ENCRYPTION_KEY_TYPE'', Some d))
      | Other_Os_Info \<Rightarrow> (NYX_ERROR_INVALID_VALUE, [], Some d))"

end
