(* ===== verification/Device_Info.thy ===== *)
theory Device_Info
  imports Info_Read
begin

text \<open>
  device_info_generic.c.in: the identity of the emulated device. Its id, the nduid, is read from a
  file, or made from random bytes and written there the first time.
\<close>

section \<open>The environment\<close>

text \<open>
  Results of the calls: stat and mkdir of the directory, opening and writing the file, chmod,
  malloc, and /dev/urandom (None: it cannot be opened; the inner option: reading fails).
  fwrite goes to a buffer that fclose writes out: \<open>nd_flush_ok\<close> when that succeeds.
  \<open>nd_partial\<close> is what a failed write leaves. \<open>SHA1\<close> is OpenSSL's.
\<close>

record nduid_env =
  nd_stat_ok :: bool
  nd_mkdir_ok :: bool
  nd_open_ok :: bool
  nd_write_ok :: bool
  nd_flush_ok :: bool
  nd_partial :: string
  nd_chmod_ret :: int
  nd_mem_ok :: bool
  nd_urandom :: "u8 list option option"

definition SHA_DIGEST_LENGTH :: nat where "SHA_DIGEST_LENGTH = 20"

definition NDUID_LEN :: nat where "NDUID_LEN = SHA_DIGEST_LENGTH * 2"

section \<open>The nduid\<close>

text \<open>\<open>file\<close>: the contents of the nduid file, None when it cannot be opened.\<close>

definition read_device_nduid :: "string option \<Rightarrow> nyx_error \<times> string option" where
  "read_device_nduid file =
     (case file of
        None \<Rightarrow> (NYX_ERROR_NOT_FOUND, None)
      | Some contents \<Rightarrow>
          if length contents < NDUID_LEN then (NYX_ERROR_NOT_FOUND, None)
          else (NYX_ERROR_NONE, Some (take NDUID_LEN contents)))"

text \<open>The result of fclose is not looked at.\<close>

definition write_device_nduid :: "nduid_env \<Rightarrow> string \<Rightarrow> string option \<Rightarrow> nyx_error \<times> string option" where
  "write_device_nduid e nduid file =
     (let written = Some (if nd_flush_ok e then take NDUID_LEN nduid else nd_partial e) in
      if \<not> nd_stat_ok e \<and> \<not> nd_mkdir_ok e then (NYX_ERROR_GENERIC, file)
      else if \<not> nd_open_ok e then (NYX_ERROR_NOT_FOUND, file)
      else if \<not> nd_write_ok e then (NYX_ERROR_GENERIC, Some (nd_partial e))
      else if nd_chmod_ret e < 0 then (NYX_ERROR_GENERIC, written)
      else (NYX_ERROR_NONE, written))"

definition salt :: "u8 list" where
  "salt = [0x55, 0xaa, 0x30, 0x08, 0xce, 0xfa, 0xbe, 0xba]"

definition random_bytes :: nat where "random_bytes = 16"

text \<open>\<open>%02x\<close>.\<close>

definition print_hex_lower :: "u8 \<Rightarrow> string" where
  "print_hex_lower b = [''0123456789abcdef'' ! (unat b div 16), ''0123456789abcdef'' ! (unat b mod 16)]"

text \<open>The error, the nduid (None when none was made) and the file.\<close>

definition generate_device_nduid ::
  "(u8 list \<Rightarrow> u8 list) \<Rightarrow> nduid_env \<Rightarrow> string option \<Rightarrow> nyx_error \<times> string option \<times> string option" where
  "generate_device_nduid SHA1 e file =
     (case nd_urandom e of
        None \<Rightarrow> (NYX_ERROR_GENERIC, None, file)
      | Some r \<Rightarrow>
          if \<not> nd_mem_ok e then (NYX_ERROR_OUT_OF_MEMORY, None, file)
          else (case r of
             None \<Rightarrow> (NYX_ERROR_GENERIC, None, file)
           | Some unique_id \<Rightarrow>
               (let result = SHA1 (salt @ take random_bytes unique_id);
                    nduid = concat (map print_hex_lower (take SHA_DIGEST_LENGTH result));
                    (error, file') = write_device_nduid e nduid file in
                (error, Some nduid, file'))))"

definition get_device_nduid ::
  "(u8 list \<Rightarrow> u8 list) \<Rightarrow> nduid_env \<Rightarrow> string option \<Rightarrow> nyx_error \<times> string option \<times> string option" where
  "get_device_nduid SHA1 e file =
     (let (r, nduid) = read_device_nduid file in
      if r \<noteq> NYX_ERROR_NONE then generate_device_nduid SHA1 e file
      else (NYX_ERROR_NONE, nduid, file))"

section \<open>The module\<close>

record device_info_device =
  product_name :: string
  device_name :: string
  nduid_str :: string
  wifi_mac :: "string option"
  bdaddr :: "string option"

text \<open>\<open>mem\<close>: calloc, \<open>nmem\<close>: malloc of the nduid; \<open>B\<close>: the values of the build.\<close>

definition device_info_module_open ::
  "(string \<Rightarrow> string) \<Rightarrow> (u8 list \<Rightarrow> u8 list) \<Rightarrow> nduid_env \<Rightarrow> bool \<Rightarrow> bool \<Rightarrow> string option \<Rightarrow> unit option \<Rightarrow>
   nyx_error \<times> device_info_device option \<times> string option" where
  "device_info_module_open B SHA1 e mem nmem file d =
     (if d = None then (NYX_ERROR_INVALID_VALUE, None, file)
      else if \<not> mem \<or> \<not> nmem then (NYX_ERROR_OUT_OF_MEMORY, None, file)
      else
        (let (error, nduid, file') = get_device_nduid SHA1 e file in
         if error \<noteq> NYX_ERROR_NONE then (error, None, file')
         else (NYX_ERROR_NONE,
               Some \<lparr>product_name = B ''DEVICEINFO_PRODUCT_NAME'', device_name = B ''WEBOS_TARGET_MACHINE'',
                     nduid_str = the nduid, wifi_mac = None, bdaddr = None\<rparr>, file')))"

text \<open>The strings that are freed.\<close>

definition device_info_module_close :: "device_info_device option \<Rightarrow> nyx_error \<times> string list" where
  "device_info_module_close d =
     (case d of None \<Rightarrow> (NYX_ERROR_INVALID_HANDLE, [])
      | Some dev \<Rightarrow> (NYX_ERROR_NONE, option_list (wifi_mac dev) @ option_list (bdaddr dev) @ [nduid_str dev]))"

text \<open>\<open>E command\<close> is what can be read from the command.\<close>

definition execute_read_info ::
  "(string \<Rightarrow> reading) \<Rightarrow> string \<Rightarrow> string option \<Rightarrow> nyx_error \<times> string option" where
  "execute_read_info E command target =
     (if target \<noteq> None then (NYX_ERROR_NONE, target)
      else case stream (E command) of
        None \<Rightarrow> (NYX_ERROR_DEVICE_UNAVAILABLE, target)
      | Some contents \<Rightarrow>
          if contents = [] then (NYX_ERROR_DEVICE_UNAVAILABLE, eof_buf (E command))
          else (NYX_ERROR_NONE, Some (chomp (getdelim_eof contents))))"

interpretation dev: cached_read "\<lambda>E. execute_read_info E command" for command
  by unfold_locales (auto simp: execute_read_info_def split: option.splits if_splits)

text \<open>\<open>dest\<close>: None for NULL, else the buffer of \<open>dest_len\<close> bytes.\<close>

definition copy_line :: "string option \<Rightarrow> string option \<Rightarrow> nat \<Rightarrow> nyx_error \<times> string option" where
  "copy_line src dest dest_len =
     (case src of
        None \<Rightarrow> (NYX_ERROR_OUT_OF_MEMORY, dest)
      | Some s \<Rightarrow>
          if dest = None \<or> dest_len = 0 then (NYX_ERROR_GENERIC, dest)
          else if dest_len \<le> length s then (NYX_ERROR_VALUE_OUT_OF_RANGE, dest)
          else (NYX_ERROR_NONE, Some (s @ replicate (dest_len - length s) (CHR 0x00))))"

datatype device_info_type =
    NYX_DEVICE_INFO_BATT_CH
  | NYX_DEVICE_INFO_BATT_RSP
  | NYX_DEVICE_INFO_BOARD_TYPE
  | NYX_DEVICE_INFO_HARDWARE_ID
  | NYX_DEVICE_INFO_HARDWARE_REVISION
  | NYX_DEVICE_INFO_INSTALLER
  | NYX_DEVICE_INFO_KEYBOARD_TYPE
  | NYX_DEVICE_INFO_LAST_RESET_TYPE
  | NYX_DEVICE_INFO_PRODUCT_ID
  | NYX_DEVICE_INFO_RADIO_TYPE
  | NYX_DEVICE_INFO_SERIAL_NUMBER
  | NYX_DEVICE_INFO_STORAGE_FREE
  | NYX_DEVICE_INFO_RAM_SIZE
  | NYX_DEVICE_INFO_STORAGE_SIZE
  | NYX_DEVICE_INFO_BT_ADDR
  | NYX_DEVICE_INFO_WIFI_ADDR
  | NYX_DEVICE_INFO_MODEM_PRESENT
  | NYX_DEVICE_INFO_DEVICE_NAME
  | NYX_DEVICE_INFO_NDUID
  | Other_Device_Info

definition read_wifi_mac :: string where
  "read_wifi_mac = ''ifconfig eth0 | awk '' @ [CHR 0x27] @ ''/HWaddr/ {print $5}'' @ [CHR 0x27]"

definition read_bdaddr :: string where
  "read_bdaddr = ''hcitool dev | awk '' @ [CHR 0x27] @ ''/hci0/ {print $2}'' @ [CHR 0x27]"

text \<open>The result is the error, \<open>*dest\<close> and the device.\<close>

fun device_info_query ::
  "(string \<Rightarrow> reading) \<Rightarrow> device_info_device option \<Rightarrow> device_info_type \<Rightarrow> string option \<Rightarrow>
   nyx_error \<times> string option \<times> device_info_device option" where
  "device_info_query E None query dest = (NYX_ERROR_INVALID_HANDLE, dest, None)"
| "device_info_query E (Some dev) query dest =
     (case query of
        NYX_DEVICE_INFO_BT_ADDR \<Rightarrow>
          (let (e, t) = execute_read_info E read_bdaddr (bdaddr dev) in
           (e, if e = NYX_ERROR_NONE then map_option c_string t else Some [], Some (dev\<lparr>bdaddr := t\<rparr>)))
      | NYX_DEVICE_INFO_WIFI_ADDR \<Rightarrow>
          (let (e, t) = execute_read_info E read_wifi_mac (wifi_mac dev) in
           (e, if e = NYX_ERROR_NONE then map_option c_string t else Some [], Some (dev\<lparr>wifi_mac := t\<rparr>)))
      | NYX_DEVICE_INFO_MODEM_PRESENT \<Rightarrow> (NYX_ERROR_NONE, Some ''N'', Some dev)
      | NYX_DEVICE_INFO_DEVICE_NAME \<Rightarrow> (NYX_ERROR_NONE, Some (device_name dev), Some dev)
      | NYX_DEVICE_INFO_NDUID \<Rightarrow> (NYX_ERROR_NONE, Some (c_string (nduid_str dev)), Some dev)
      | Other_Device_Info \<Rightarrow> (NYX_ERROR_INVALID_VALUE, Some [], Some dev)
      | _ \<Rightarrow> (NYX_ERROR_NOT_IMPLEMENTED, Some [], Some dev))"

definition device_info_get_info ::
  "(string \<Rightarrow> reading) \<Rightarrow> device_info_device option \<Rightarrow> device_info_type \<Rightarrow> string option \<Rightarrow> nat \<Rightarrow>
   nyx_error \<times> string option \<times> device_info_device option" where
  "device_info_get_info E d type dest dest_len =
     (let (err, tmp_dest, d') = device_info_query E d type None in
      if err = NYX_ERROR_NONE then (let (err', dest') = copy_line tmp_dest dest dest_len in (err', dest', d'))
      else (err, dest, d'))"

end
