(* ===== verification/Info_Properties.thy ===== *)
theory Info_Properties
  imports Os_Info Device_Info
begin

text \<open>The properties of the two information modules.\<close>

section \<open>What was read once is kept\<close>

text \<open>
  \<open>known d d'\<close>: each string that \<open>d\<close> has is in \<open>d'\<close>. Every query of os_info keeps it, since each
  reads under the contract \<open>cached_read\<close>.
\<close>

definition known :: "os_info_device \<Rightarrow> os_info_device \<Rightarrow> bool" where
  "known d d' \<longleftrightarrow>
     kernel_version d \<in> {None, kernel_version d'} \<and> kernel_config d \<in> {None, kernel_config d'} \<and>
     core_os_release d \<in> {None, core_os_release d'} \<and> core_os_name d \<in> {None, core_os_name d'} \<and>
     core_os_release_codename d \<in> {None, core_os_release_codename d'} \<and>
     webos_imagename d \<in> {None, webos_imagename d'}"

lemma known_refl: "known d d"
  by (simp add: known_def)

lemma none_or_trans: "t \<in> {None, u} \<Longrightarrow> u \<in> {None, v} \<Longrightarrow> t \<in> {None, v}"
  by auto

lemma known_trans: "known d d' \<Longrightarrow> known d' d'' \<Longrightarrow> known d d''"
  unfolding known_def by (elim conjE, intro conjI; (rule none_or_trans, assumption, assumption))

lemma read_info_keeps: "t \<noteq> None \<Longrightarrow> read_info E command mode t = (NYX_ERROR_NONE, t)"
  by (auto simp: os.kept)

lemma query_read_some: "query_read (read_info E command mode) (Some s) = (NYX_ERROR_NONE, c_string s, Some s)"
  by (simp add: query_read_def os.kept)

lemma query_read_field: "query_read (read_info E command mode) t = (e, s, t') \<Longrightarrow> t \<in> {None, t'}"
  by (cases t) (simp_all add: query_read_some)

lemma query_read_success:
  assumes "query_read (read_info E command mode) t = (NYX_ERROR_NONE, s, t')"
  shows "\<exists>x. t' = Some x \<and> s = c_string x"
proof -
  obtain r x where r: "read_info E command mode t = (r, x)" by (cases "read_info E command mode t")
  with assms have "r = NYX_ERROR_NONE" "x = t'" "s = c_string (the t')"
    by (auto simp: query_read_def split: if_splits)
  moreover have "x \<noteq> None" using os.success r \<open>r = NYX_ERROR_NONE\<close> by blast
  ultimately show ?thesis by auto
qed

lemma os_info_query_known:
  assumes "os_info_query B E (Some d) q dest = (e, s, d')"
  shows "\<exists>d''. d' = Some d'' \<and> known d d''"
  using assms
  by (cases q) (auto simp: known_def split: prod.splits if_splits dest: query_read_field)

text \<open>A run of queries, each with what can be read at its time.\<close>

fun os_info_queries ::
  "(string \<Rightarrow> string) \<Rightarrow> ((string \<Rightarrow> os_info_mode \<Rightarrow> reading) \<times> os_info_query_t) list \<Rightarrow> os_info_device \<Rightarrow> os_info_device" where
  "os_info_queries B [] d = d"
| "os_info_queries B ((E, q) # qs) d = os_info_queries B qs (the (snd (snd (os_info_query B E (Some d) q []))))"

lemma os_info_queries_known: "known d (os_info_queries B qs d)"
proof (induction qs arbitrary: d)
  case Nil
  then show ?case by (simp add: known_refl)
next
  case (Cons a qs)
  obtain E q where a: "a = (E, q)" by (cases a)
  obtain e s d' where q: "os_info_query B E (Some d) q [] = (e, s, d')" by (cases "os_info_query B E (Some d) q []")
  with os_info_query_known [OF q] Cons.IH show ?case by (auto simp: a intro: known_trans)
qed

lemma known_updated:
  shows "known (d\<lparr>kernel_version := Some t\<rparr>) x \<Longrightarrow> kernel_version x = Some t \<and> x\<lparr>kernel_version := Some t\<rparr> = x"
    and "known (d\<lparr>kernel_config := Some t\<rparr>) x \<Longrightarrow> kernel_config x = Some t \<and> x\<lparr>kernel_config := Some t\<rparr> = x"
    and "known (d\<lparr>core_os_release := Some t\<rparr>) x \<Longrightarrow> core_os_release x = Some t \<and> x\<lparr>core_os_release := Some t\<rparr> = x"
    and "known (d\<lparr>core_os_name := Some t\<rparr>) x \<Longrightarrow> core_os_name x = Some t \<and> x\<lparr>core_os_name := Some t\<rparr> = x"
    and "known (d\<lparr>core_os_release_codename := Some t\<rparr>) x \<Longrightarrow> core_os_release_codename x = Some t \<and> x\<lparr>core_os_release_codename := Some t\<rparr> = x"
    and "known (d\<lparr>webos_imagename := Some t\<rparr>) x \<Longrightarrow> webos_imagename x = Some t \<and> x\<lparr>webos_imagename := Some t\<rparr> = x"
  by (simp_all add: known_def)

lemma os_info_query_again:
  assumes "os_info_query B E (Some d) q dest = (NYX_ERROR_NONE, s, Some d')" and "known d' x"
  shows "os_info_query B E' (Some x) q dest' = (NYX_ERROR_NONE, s, Some x)"
  using assms
  by (cases q) (auto simp: query_read_some split: prod.splits if_splits dest!: query_read_success known_updated)

section \<open>The nduid\<close>

lemma length_print_hex: "length (concat (map print_hex_lower bs)) = 2 * length bs"
  by (induction bs) (simp_all add: print_hex_lower_def)

lemma print_hex_digits: "set (print_hex_lower b) \<subseteq> set ''0123456789abcdef''"
proof -
  have "unat b < 2 ^ LENGTH(8)" by (rule unsigned_less)
  then have "unat b div 16 < length ''0123456789abcdef''" "unat b mod 16 < length ''0123456789abcdef''" by simp_all
  then show ?thesis unfolding print_hex_lower_def by (metis empty_subsetI insert_subset list.set(1,2) nth_mem)
qed

lemma write_success:
  "write_device_nduid e nduid file = (NYX_ERROR_NONE, file') \<Longrightarrow> nd_flush_ok e \<Longrightarrow> file' = Some (take NDUID_LEN nduid)"
  by (simp add: write_device_nduid_def Let_def split: if_splits)

lemma generate_success:
  assumes "generate_device_nduid SHA1 e file = (NYX_ERROR_NONE, n, file')" and "nd_flush_ok e"
    and "\<And>x. length (SHA1 x) = SHA_DIGEST_LENGTH"
  shows "\<exists>r. nd_urandom e = Some (Some r) \<and> n = Some (concat (map print_hex_lower (SHA1 (salt @ take random_bytes r)))) \<and> file' = n"
  using assms
  by (auto simp: generate_device_nduid_def length_print_hex NDUID_LEN_def Let_def split: option.splits if_splits prod.splits
      dest!: write_success)

lemma get_success:
  assumes "get_device_nduid SHA1 e file = (NYX_ERROR_NONE, n, file')" and "nd_flush_ok e"
    and "\<And>x. length (SHA1 x) = SHA_DIGEST_LENGTH"
  shows "\<exists>s. n = Some s \<and> length s = NDUID_LEN \<and> read_device_nduid file' = (NYX_ERROR_NONE, Some s) \<and>
    (fst (read_device_nduid file) \<noteq> NYX_ERROR_NONE \<longrightarrow>
      (\<exists>r. nd_urandom e = Some (Some r) \<and> s = concat (map print_hex_lower (SHA1 (salt @ take random_bytes r)))))"
proof (cases "fst (read_device_nduid file) = NYX_ERROR_NONE")
  case True
  with assms(1) show ?thesis
    by (auto simp: get_device_nduid_def read_device_nduid_def split: option.splits if_splits)
next
  case False
  with assms(1) have "generate_device_nduid SHA1 e file = (NYX_ERROR_NONE, n, file')"
    by (simp add: get_device_nduid_def split: prod.splits)
  from generate_success [OF this assms(2,3)] show ?thesis
    by (auto simp: read_device_nduid_def length_print_hex assms(3) NDUID_LEN_def)
qed

section \<open>The properties\<close>

text \<open>
  C37: A query of os_info that succeeds answers the same ever after, without reading again: whatever
  other queries come in between, whatever the commands and files would then give.
\<close>

theorem os_info_query_cached:
  assumes "os_info_query B E (Some d) q dest = (NYX_ERROR_NONE, s, Some d')"
  shows "os_info_query B E' (Some (os_info_queries B qs d')) q dest' = (NYX_ERROR_NONE, s, Some (os_info_queries B qs d'))"
  by (rule os_info_query_again [OF assms os_info_queries_known])

text \<open>
  C38: The nduid is a device's for good. When SHA1 gives 20 bytes, an opening of device_info that
  succeeds, where closing the file writes it out, has an nduid of 40 characters, which the file then starts with: the one it had, or where
  it had none the hexadecimal digits of the hash of the salt and 16 random bytes. Every later opening with
  memory, whatever else fails, gives the same nduid and leaves the file, and so does the query.
\<close>

theorem device_info_nduid_stable:
  assumes sha: "\<And>x. length (SHA1 x) = SHA_DIGEST_LENGTH"
    and flush: "nd_flush_ok e"
    and opened: "device_info_module_open B SHA1 e mem nmem file d = (NYX_ERROR_NONE, Some dev, file')"
  shows "length (nduid_str dev) = 40 \<and>
    (fst (read_device_nduid file) \<noteq> NYX_ERROR_NONE \<longrightarrow>
      (\<exists>r. nd_urandom e = Some (Some r) \<and>
        nduid_str dev = concat (map print_hex_lower (SHA1 (salt @ take 16 r))) \<and>
        set (nduid_str dev) \<subseteq> set ''0123456789abcdef'')) \<and>
    (\<exists>rest. file' = Some (nduid_str dev @ rest)) \<and>
    (\<exists>dev'. device_info_module_open B' SHA1' e' True True file' (Some ()) = (NYX_ERROR_NONE, Some dev', file') \<and>
      nduid_str dev' = nduid_str dev \<and>
      device_info_query E (Some dev') NYX_DEVICE_INFO_NDUID dest =
        (NYX_ERROR_NONE, Some (c_string (nduid_str dev)), Some dev'))"
proof -
  from opened obtain n where g: "get_device_nduid SHA1 e file = (NYX_ERROR_NONE, n, file')" and dev: "nduid_str dev = the n"
    by (auto simp: device_info_module_open_def split: if_splits prod.splits)
  from get_success [OF g flush sha] obtain s where s: "n = Some s" "length s = NDUID_LEN"
      "read_device_nduid file' = (NYX_ERROR_NONE, Some s)"
    and fresh: "fst (read_device_nduid file) \<noteq> NYX_ERROR_NONE \<longrightarrow>
      (\<exists>r. nd_urandom e = Some (Some r) \<and> s = concat (map print_hex_lower (SHA1 (salt @ take random_bytes r))))" by blast
  have "nduid_str dev = s" using dev s(1) by simp
  moreover have "length s = 40" using s(2) by (simp add: NDUID_LEN_def SHA_DIGEST_LENGTH_def)
  moreover have "\<exists>rest. file' = Some (s @ rest)"
    using s(3) by (auto simp: read_device_nduid_def split: option.splits if_splits) (metis append_take_drop_id)
  moreover have "set (concat (map print_hex_lower (SHA1 x))) \<subseteq> set ''0123456789abcdef''" for x
    using print_hex_digits by fastforce
  ultimately show ?thesis
    using fresh s(3) by (auto simp: random_bytes_def device_info_module_open_def get_device_nduid_def)
qed

section \<open>Witnesses\<close>

theorem os_info_query_cached_witness:
  "let gnu = (\<lambda>c m. \<lparr>stream = Some (''3.8'' @ [CHR 0x0A]), eof_buf = None\<rparr>);
       gone = (\<lambda>c m. \<lparr>stream = None, eof_buf = None\<rparr>);
       d = \<lparr>kernel_version = None, kernel_config = None, core_os_release = None, core_os_name = None,
            core_os_release_codename = None, webos_imagename = None\<rparr>;
       d' = d\<lparr>kernel_version := Some ''3.8''\<rparr> in
   os_info_query id gone (Some (os_info_queries id [(gone, NYX_OS_INFO_CORE_OS_NAME)] d')) NYX_OS_INFO_CORE_OS_KERNEL_VERSION [] =
     (NYX_ERROR_NONE, ''3.8'', Some (os_info_queries id [(gone, NYX_OS_INFO_CORE_OS_NAME)] d'))"
  unfolding Let_def
  by (rule os_info_query_cached [where E = "\<lambda>c m. \<lparr>stream = Some (''3.8'' @ [CHR 0x0A]), eof_buf = None\<rparr>" and dest = "[]"
      and d = "\<lparr>kernel_version = None, kernel_config = None, core_os_release = None, core_os_name = None,
            core_os_release_codename = None, webos_imagename = None\<rparr>"]) code_simp

theorem device_info_nduid_stable_witness:
  "let sha = (\<lambda>x. replicate 20 (of_nat (length x)));
       e = \<lparr>nd_stat_ok = True, nd_mkdir_ok = False, nd_open_ok = True, nd_write_ok = True, nd_flush_ok = True,
            nd_partial = [],
            nd_chmod_ret = 0, nd_mem_ok = True, nd_urandom = Some (Some (replicate 16 7))\<rparr>;
       n = concat (replicate 20 ''18'') in
   device_info_module_open id sha e True True None (Some ()) =
     (NYX_ERROR_NONE, Some \<lparr>product_name = ''DEVICEINFO_PRODUCT_NAME'', device_name = ''WEBOS_TARGET_MACHINE'',
        nduid_str = n, wifi_mac = None, bdaddr = None\<rparr>, Some n) \<and>
   (\<exists>rest. Some n = Some (n @ rest))"
proof -
  let ?sha = "\<lambda>x :: u8 list. replicate 20 (of_nat (length x)) :: u8 list"
  let ?e = "\<lparr>nd_stat_ok = True, nd_mkdir_ok = False, nd_open_ok = True, nd_write_ok = True, nd_flush_ok = True,
            nd_partial = [],
            nd_chmod_ret = 0, nd_mem_ok = True, nd_urandom = Some (Some (replicate 16 7))\<rparr>"
  let ?n = "concat (replicate 20 ''18'')"
  have sha: "length (?sha x) = SHA_DIGEST_LENGTH" for x by (simp add: SHA_DIGEST_LENGTH_def)
  have op: "device_info_module_open id ?sha ?e True True None (Some ()) =
     (NYX_ERROR_NONE, Some \<lparr>product_name = ''DEVICEINFO_PRODUCT_NAME'', device_name = ''WEBOS_TARGET_MACHINE'',
        nduid_str = ?n, wifi_mac = None, bdaddr = None\<rparr>, Some ?n)" by code_simp
  have flush: "nd_flush_ok ?e" by simp
  from device_info_nduid_stable [OF sha flush op] op show ?thesis by (simp add: Let_def)
qed

section \<open>When nothing is read or written\<close>

text \<open>
  A disk that is full when the file is closed goes unnoticed: opening succeeds, and the next one
  draws another nduid.
\<close>

lemma nduid_lost:
  assumes "nd_urandom e = Some (Some r)" "nd_mem_ok e" "nd_stat_ok e" "nd_open_ok e" "nd_write_ok e"
    and "nd_chmod_ret e = 0" and "\<not> nd_flush_ok e" and "length (nd_partial e) < NDUID_LEN"
  shows "fst (device_info_module_open B SHA1 e True True None (Some ())) = NYX_ERROR_NONE"
    and "get_device_nduid SHA1 e' (snd (snd (device_info_module_open B SHA1 e True True None (Some ())))) =
      generate_device_nduid SHA1 e' (Some (nd_partial e))"
  using assms by (simp_all add: device_info_module_open_def get_device_nduid_def read_device_nduid_def
      generate_device_nduid_def write_device_nduid_def Let_def)

text \<open>
  A command without output: the first query says that the device is unavailable, but where getdelim
  has left a buffer the next one reports success with whatever is in it.
\<close>

lemma os_info_empty_output:
  assumes "E command mode = \<lparr>stream = Some [], eof_buf = Some junk\<rparr>"
  shows "query_read (read_info E command mode) None = (NYX_ERROR_DEVICE_UNAVAILABLE, [], Some junk)"
    and "query_read (read_info E command mode) (Some junk) = (NYX_ERROR_NONE, c_string junk, Some junk)"
  using assms by (simp_all add: query_read_some) (simp add: query_read_def read_info_def)

end
