(* ===== verification/Display.thy ===== *)
theory Display
  imports C_Float
begin

text \<open>
  display.c: the metrics of the frame buffer, read when the module is opened. The type of the
  metrics' resolution fields is nyx-lib's, so the conversion to it is a parameter.
\<close>

record fb_var_screeninfo =
  xres :: u32
  yres :: u32
  scr_width :: u32
  scr_height :: u32

record 'a display_metrics =
  horizontal_pixels :: u32
  vertical_pixels :: u32
  horizontal_dpi :: 'a
  vertical_dpi :: 'a

text \<open>The descriptor is kept in 16 bits.\<close>

definition to_int16 :: "int \<Rightarrow> int" where
  "to_int16 v = (v + 32768) mod 65536 - 32768"

text \<open>\<open>25.4f\<close>, and \<open>(float) n * MM_PER_INCH / (float) mm\<close>.\<close>

definition MM_PER_INCH :: "rat option" where
  "MM_PER_INCH = f32 (254 / 10)"

definition dpi :: "u32 \<Rightarrow> u32 \<Rightarrow> rat option" where
  "dpi n mm = f32_div (f32_mul (f32 (of_nat (unat n))) MM_PER_INCH) (f32 (of_nat (unat mm)))"

text \<open>
  \<open>d\<close>: None for a NULL pointer, else what \<open>*d\<close> is on entry (the inner None is NULL). \<open>open_ret\<close>:
  the result of open; \<open>screen fd\<close>: what the ioctl answers on a descriptor, None for a failure.
  \<open>zero\<close> is a cleared field. The results are the error, \<open>*d\<close> on return (NULL where there is no
  \<open>d\<close>) and the descriptors that are closed.
\<close>

definition display_module_open ::
  "(rat option \<Rightarrow> 'a) \<Rightarrow> 'a \<Rightarrow> bool \<Rightarrow> int \<Rightarrow> (int \<Rightarrow> fb_var_screeninfo option) \<Rightarrow>
   'a display_metrics option option \<Rightarrow> nyx_error \<times> 'a display_metrics option \<times> int list" where
  "display_module_open conv zero mem open_ret screen d =
     (case d of None \<Rightarrow> (NYX_ERROR_INVALID_VALUE, None, [])
      | Some (Some x) \<Rightarrow> (NYX_ERROR_INVALID_VALUE, Some x, [])
      | Some None \<Rightarrow>
         if \<not> mem then (NYX_ERROR_OUT_OF_MEMORY, None, [])
         else
           (let device = \<lparr>horizontal_pixels = 0, vertical_pixels = 0, horizontal_dpi = zero, vertical_dpi = zero\<rparr>;
                fd = to_int16 open_ret in
            if fd < 0 then (NYX_ERROR_INVALID_FILE_ACCESS, None, [])
            else case screen fd of
              None \<Rightarrow> (NYX_ERROR_INVALID_OPERATION, Some device, [fd])
            | Some scr \<Rightarrow>
                if xres scr = 0 \<or> yres scr = 0 then (NYX_ERROR_VALUE_OUT_OF_RANGE, Some device, [fd])
                else if scr_width scr = 0 \<or> scr_height scr = 0 then (NYX_ERROR_VALUE_OUT_OF_RANGE, Some device, [fd])
                else (NYX_ERROR_NONE,
                      Some \<lparr>horizontal_pixels = xres scr, vertical_pixels = yres scr,
                            horizontal_dpi = conv (dpi (xres scr) (scr_width scr)),
                            vertical_dpi = conv (dpi (yres scr) (scr_height scr))\<rparr>, [fd])))"

text \<open>The device that is freed, None for NULL, whatever it is.\<close>

definition display_module_close :: "'a display_metrics option \<Rightarrow> nyx_error \<times> 'a display_metrics list" where
  "display_module_close d = (NYX_ERROR_NONE, (case d of None \<Rightarrow> [] | Some device \<Rightarrow> [device]))"

end
