(* ===== verification/Display_Properties.thy ===== *)
theory Display_Properties
  imports Display Float_Error
begin

text \<open>The properties of the display module.\<close>

lemma u32_rat:
  fixes n :: u32
  assumes "n \<noteq> 0"
  shows "(1 :: rat) \<le> of_nat (unat n)" and "(of_nat (unat n) :: rat) \<le> 4294967296"
proof -
  have "unat n < 2 ^ LENGTH(32)" by (rule unsigned_less)
  then have "unat n \<le> 4294967296" by simp
  then have "(of_nat (unat n) :: rat) \<le> of_nat 4294967296" by (simp only: of_nat_le_iff)
  then show "(of_nat (unat n) :: rat) \<le> 4294967296" by (simp only: of_nat_numeral)
  have "1 \<le> unat n" using assms unat_gt_0 [of n] by linarith
  then have "of_nat 1 \<le> (of_nat (unat n) :: rat)" by (simp only: of_nat_le_iff)
  then show "(1 :: rat) \<le> of_nat (unat n)" by (simp only: of_nat_1)
qed

text \<open>A screen's resolution is within a relative error of 2^-21 of the exact one.\<close>

lemma dpi_near_rat:
  fixes N W :: rat
  assumes N: "1 \<le> N" "N \<le> 4294967296" and W: "1 \<le> W" "W \<le> 4294967296"
  shows "\<exists>r. f32_div (f32_mul (f32 N) MM_PER_INCH) (f32 W) = Some r \<and> near (1 / 2097152) r (N * (254 / 10) / W)"
proof -
  obtain a where a: "f32 N = Some a" "near (1 / 16777216) a N" by (rule f32_int_near [OF N])
  obtain b where b: "f32 W = Some b" "near (1 / 16777216) b W" by (rule f32_int_near [OF W])
  obtain m where m: "f32 (254 / 10) = Some m" "near (1 / 16777216) m (254 / 10)"
    by (rule f32_int_near [of "254 / 10"]) simp_all
  have 1: "mid_range (N * (254 / 10))" using N by (simp add: mid_range_def)
  obtain p where p: "f32_mul (Some a) (Some m) = Some p" "near (1 / 5000000) p (N * (254 / 10))"
    by (rule f32_mul_near [OF a(2) m(2) _ _ _ _ 1 float_errors(1)]) simp_all
  have "1 * (254 / 10) / 4294967296 \<le> N * (254 / 10) / W" "N * (254 / 10) / W \<le> 4294967296 * (254 / 10) / 1"
    using N W by (intro frac_le mult_mono; simp)+
  then have 2: "mid_range (N * (254 / 10) / W)" unfolding mid_range_def by linarith
  obtain r where r: "f32_div (Some p) (Some b) = Some r" "near (1 / 2097152) r (N * (254 / 10) / W)"
    by (rule f32_div_near [OF p(2) b(2) _ _ _ _ 2 float_errors(3)]) simp_all
  then show ?thesis unfolding MM_PER_INCH_def m(1) a(1) b(1) p(1) by blast
qed

lemma dpi_near:
  assumes "n \<noteq> 0" and "mm \<noteq> 0"
  shows "\<exists>r. dpi n mm = Some r \<and> near (1 / 2097152) r (of_nat (unat n) * (254 / 10) / of_nat (unat mm))"
  unfolding dpi_def by (intro dpi_near_rat u32_rat assms)

section \<open>The property\<close>

text \<open>
  C39: What opening the display module does with a descriptor below 32768 and a display that answers:
  with a size and dimensions that are not zero it succeeds, the metrics have the pixels, and the
  resolutions are finite and within a relative error of 2^-21 of pixels * 25.4 / millimetres;
  otherwise it fails but stores a device with cleared metrics all the same. Either way the
  descriptor is closed. A descriptor from 32768 to 65535 turns negative in its 16 bits: opening
  fails and leaks it.
\<close>

theorem display_open_metrics:
  assumes fd: "0 \<le> fd" "fd < 65536"
    and scr: "screen fd = Some scr"
  shows "if 32768 \<le> fd then
      display_module_open conv zero True fd screen (Some None) = (NYX_ERROR_INVALID_FILE_ACCESS, None, [])
    else if 0 \<in> {xres scr, yres scr, scr_width scr, scr_height scr} then
      \<exists>m. display_module_open conv zero True fd screen (Some None) = (NYX_ERROR_VALUE_OUT_OF_RANGE, Some m, [fd]) \<and>
        horizontal_pixels m = 0 \<and> vertical_pixels m = 0
    else \<exists>m h v. display_module_open conv zero True fd screen (Some None) = (NYX_ERROR_NONE, Some m, [fd]) \<and>
        horizontal_pixels m = xres scr \<and> vertical_pixels m = yres scr \<and>
        horizontal_dpi m = conv (Some h) \<and> vertical_dpi m = conv (Some v) \<and>
        near (1 / 2097152) h (of_nat (unat (xres scr)) * (254 / 10) / of_nat (unat (scr_width scr))) \<and>
        near (1 / 2097152) v (of_nat (unat (yres scr)) * (254 / 10) / of_nat (unat (scr_height scr)))"
proof -
  consider (high) "32768 \<le> fd" | (zero) "fd < 32768" "0 \<in> {xres scr, yres scr, scr_width scr, scr_height scr}"
    | (good) "fd < 32768" "0 \<notin> {xres scr, yres scr, scr_width scr, scr_height scr}" by linarith
  then show ?thesis
  proof cases
    case high
    have "(fd + 32768) mod 65536 = (fd - 32768 + 65536) mod 65536" by (rule arg_cong [where f = "\<lambda>x. x mod 65536"]) simp
    also have "\<dots> = fd - 32768" using high fd by (simp only: mod_add_self2 mod_pos_pos_trivial)
    finally have "to_int16 fd = fd - 65536" by (simp add: to_int16_def)
    with high fd show ?thesis by (simp add: display_module_open_def)
  next
    case zero
    then have f: "to_int16 fd = fd" using fd by (simp add: to_int16_def)
    from zero show ?thesis using fd by (auto simp: display_module_open_def f scr Let_def)
  next
    case good
    then have f: "to_int16 fd = fd" using fd by (simp add: to_int16_def)
    obtain h v where h: "dpi (xres scr) (scr_width scr) = Some h"
        "near (1 / 2097152) h (of_nat (unat (xres scr)) * (254 / 10) / of_nat (unat (scr_width scr)))"
      and v: "dpi (yres scr) (scr_height scr) = Some v"
        "near (1 / 2097152) v (of_nat (unat (yres scr)) * (254 / 10) / of_nat (unat (scr_height scr)))"
      using dpi_near [of "xres scr" "scr_width scr"] dpi_near [of "yres scr" "scr_height scr"] good by auto
    from good have "xres scr \<noteq> 0" "yres scr \<noteq> 0" "scr_width scr \<noteq> 0" "scr_height scr \<noteq> 0" by auto
    with good have op: "display_module_open conv zero True fd screen (Some None) = (NYX_ERROR_NONE,
        Some \<lparr>horizontal_pixels = xres scr, vertical_pixels = yres scr,
          horizontal_dpi = conv (Some h), vertical_dpi = conv (Some v)\<rparr>, [fd])"
      using fd by (simp add: display_module_open_def f scr h v)
    have low: "\<not> 32768 \<le> fd" using good(1) by simp
    show ?thesis unfolding op if_not_P [OF good(2)] if_not_P [OF low]
      by (intro exI conjI, rule refl) (simp_all only: display_metrics.select_convs, rule h(2), rule v(2))
  qed
qed

theorem display_open_metrics_witness:
  "\<exists>m h v. display_module_open id None True 5 (\<lambda>_. Some \<lparr>xres = 1024, yres = 768, scr_width = 200, scr_height = 150\<rparr>) (Some None)
      = (NYX_ERROR_NONE, Some m, [5]) \<and> horizontal_pixels m = 1024 \<and> horizontal_dpi m = Some h \<and>
      near (1 / 2097152) h (1024 * (254 / 10) / 200)"
  using display_open_metrics [of 5 "\<lambda>_. Some \<lparr>xres = 1024, yres = 768, scr_width = 200, scr_height = 150\<rparr>"
      "\<lparr>xres = 1024, yres = 768, scr_width = 200, scr_height = 150\<rparr>" id None] by simp blast

end
