(* ===== verification/Log_Blame.thy ===== *)
theory Log_Blame
  imports Power_Utils
begin

text \<open>
  rockhopper/system/util.c: the report of the processes that have files below a prefix open. The
  messages are the result. None stands for the NULL pointers that the code hands to glib: a
  directory of descriptors that cannot be opened, a link that cannot be read.
\<close>

section \<open>Data\<close>

record proc_fs =
  pf_proc :: "string list option"
  pf_is_dir :: "string \<Rightarrow> bool"
  pf_is_symlink :: "string \<Rightarrow> bool"
  pf_dir :: "string \<Rightarrow> string list option"
  pf_link :: "string \<Rightarrow> string option"

datatype blame_message =
    Scan_Failed
  | Has_Open "string option" string
  | Open_File string

definition g_build_path :: "string list \<Rightarrow> string" where
  "g_build_path es = concat (map (\<lambda>e. CHR 0x2F # e) es)"

definition g_ascii_lower :: "char \<Rightarrow> char" where
  "g_ascii_lower c = (if 65 \<le> (of_char c :: nat) \<and> (of_char c :: nat) \<le> 90 then char_of (of_char c + 32 :: nat) else c)"

text \<open>\<open>g_ascii_strncasecmp (link, prefix, strlen (prefix)) == 0\<close>.\<close>

definition has_prefix :: "string \<Rightarrow> string \<Rightarrow> bool" where
  "has_prefix prefix link \<longleftrightarrow> map g_ascii_lower (take (length prefix) link) = map g_ascii_lower prefix"

section \<open>The code\<close>

fun isNumber :: "string \<Rightarrow> bool" where
  "isNumber [] = True"
| "isNumber (c # name) = (if \<not> is_digit c then False else isNumber name)"

text \<open>The name of the program: asked for at the first file, and again while it is NULL.\<close>

definition exe_name :: "proc_fs \<Rightarrow> string \<Rightarrow> string option" where
  "exe_name F entry =
     (let epath = g_build_path [''proc'', entry, ''exe''] in
      if pf_is_symlink F epath then pf_link F epath
      else Some (''(unknown PID='' @ entry @ '')''))"

fun blame_files :: "proc_fs \<Rightarrow> string \<Rightarrow> string \<Rightarrow> string list \<Rightarrow> string option \<Rightarrow> blame_message list option" where
  "blame_files F prefix entry [] exe = Some []"
| "blame_files F prefix entry (nentry # names) exe =
     (let lnpath = g_build_path [''proc'', entry, ''fd'', nentry] in
      if \<not> pf_is_symlink F lnpath then blame_files F prefix entry names exe
      else (case pf_link F lnpath of
          None \<Rightarrow> None
        | Some link \<Rightarrow>
            if has_prefix prefix link then
              (let exe' = (if exe = None then exe_name F entry else exe);
                   head = (if exe = None then [Has_Open exe' entry] else []) in
               map_option (\<lambda>ms. head @ Open_File link # ms) (blame_files F prefix entry names exe'))
            else blame_files F prefix entry names exe))"

definition blame_entry :: "proc_fs \<Rightarrow> string \<Rightarrow> string \<Rightarrow> blame_message list option" where
  "blame_entry F prefix entry =
     (if isNumber entry then
        (let fdpath = g_build_path [''proc'', entry, ''fd''] in
         if pf_is_dir F fdpath then
           (case pf_dir F fdpath of None \<Rightarrow> None | Some names \<Rightarrow> blame_files F prefix entry names None)
         else Some [])
      else Some [])"

fun blame_entries :: "proc_fs \<Rightarrow> string \<Rightarrow> string list \<Rightarrow> blame_message list option" where
  "blame_entries F prefix [] = Some []"
| "blame_entries F prefix (entry # es) =
     (case blame_entry F prefix entry of
        None \<Rightarrow> None
      | Some ms \<Rightarrow> map_option (\<lambda>ms'. ms @ ms') (blame_entries F prefix es))"

definition log_blame :: "proc_fs \<Rightarrow> string \<Rightarrow> blame_message list option" where
  "log_blame F prefix =
     (case pf_proc F of None \<Rightarrow> Some [Scan_Failed] | Some es \<Rightarrow> blame_entries F prefix es)"

section \<open>What is reported\<close>

lemma isNumber_digits: "isNumber s \<longleftrightarrow> list_all is_digit s"
  by (induction s) auto

text \<open>The files of a process whose links are all readable.\<close>

definition open_files :: "proc_fs \<Rightarrow> string \<Rightarrow> string \<Rightarrow> string list \<Rightarrow> string list" where
  "open_files F prefix entry names =
     filter (has_prefix prefix)
       (map (\<lambda>n. the (pf_link F (g_build_path [''proc'', entry, ''fd'', n])))
         (filter (\<lambda>n. pf_is_symlink F (g_build_path [''proc'', entry, ''fd'', n])) names))"

definition links_readable :: "proc_fs \<Rightarrow> bool" where
  "links_readable F \<longleftrightarrow> (\<forall>p. pf_is_symlink F p \<longrightarrow> pf_link F p \<noteq> None)"

lemma exe_name_readable: "links_readable F \<Longrightarrow> exe_name F entry \<noteq> None"
  by (simp add: links_readable_def exe_name_def Let_def)

lemma blame_files_named:
  "links_readable F \<Longrightarrow> exe \<noteq> None \<Longrightarrow>
   blame_files F prefix entry names exe = Some (map Open_File (open_files F prefix entry names))"
  by (induction names) (auto simp: open_files_def links_readable_def Let_def split: option.splits)

text \<open>One line with the program's name, before the files that match, and none when none matches.\<close>

lemma blame_files_report:
  assumes "links_readable F"
  shows "blame_files F prefix entry names None =
    Some (if open_files F prefix entry names = [] then []
          else Has_Open (exe_name F entry) entry # map Open_File (open_files F prefix entry names))"
proof (induction names)
  case Nil
  then show ?case by (simp add: open_files_def)
next
  case (Cons n names)
  let ?p = "g_build_path [''proc'', entry, ''fd'', n]"
  show ?case
  proof (cases "pf_is_symlink F ?p")
    case False
    then show ?thesis using Cons by (simp add: open_files_def Let_def)
  next
    case True
    with assms obtain l where l: "pf_link F ?p = Some l" by (auto simp: links_readable_def)
    have step: "open_files F prefix entry (n # names) =
        (if has_prefix prefix l then l # open_files F prefix entry names else open_files F prefix entry names)"
      using True l by (simp add: open_files_def)
    show ?thesis using True l Cons blame_files_named [OF assms exe_name_readable [OF assms]]
      by (simp add: step Let_def)
  qed
qed

end
