(* ===== verification/Vbox_Touchpanel.thy ===== *)
theory Vbox_Touchpanel
  imports Nyx_Prelude
begin

text \<open>
  \<open>init_vbox_touchpanel\<close> of rockhopper/touchpanel/emulator/touchpanel.c: two requests to the driver
  of VirtualBox, which show the mouse pointer. Nothing else of the module depends on it.
\<close>

section \<open>The requests\<close>

record VMMdev_request_header =
  vh_size :: u32
  vh_version :: u32
  vh_requestType :: u32
  vh_rc :: int
  vh_reserved1 :: u32
  vh_reserved2 :: u32

record VMMdev_req_mouse_status =
  ms_header :: VMMdev_request_header
  mouseFeatures :: u32
  pointerXPos :: int
  pointerYPos :: int

record VMMdev_req_mouse_pointer =
  mp_header :: VMMdev_request_header
  fFlags :: u32
  xHot :: u32
  yHot :: u32
  mp_width :: u32
  mp_height :: u32
  pointerData :: "int list"

datatype vbox_request = Mouse_Status VMMdev_req_mouse_status | Mouse_Pointer VMMdev_req_mouse_pointer

text \<open>The structures are packed at 4 bytes: six fields of 4 bytes, and three or five more and 4 chars.\<close>

definition sizeof_header :: u32 where "sizeof_header = 6 * 4"
definition sizeof_mouse_status :: u32 where "sizeof_mouse_status = sizeof_header + 3 * 4"
definition sizeof_mouse_pointer :: u32 where "sizeof_mouse_pointer = sizeof_header + 5 * 4 + 4"

text \<open>\<open>_IOC (dir, type, nr, size)\<close> of Linux: 2, 14, 8 and 8 bits.\<close>

definition IOC :: "u32 \<Rightarrow> u32 \<Rightarrow> u32 \<Rightarrow> u32 \<Rightarrow> u32" where
  "IOC dir type nr sz = or (or (push_bit 30 dir) (push_bit 8 type)) (or nr (push_bit 16 sz))"

definition VBOXGUEST_IOCTL_VMMREQUEST :: "u32 \<Rightarrow> u32" where
  "VBOXGUEST_IOCTL_VMMREQUEST sz = IOC 3 86 (or 3 0) sz"

section \<open>The function\<close>

text \<open>
  \<open>ioctl fd code request\<close> answers the result and what the hypervisor leaves in \<open>rc\<close>. The result is
  the calls that are made, in order, and the descriptors that are closed.
\<close>

definition mouse_status_request :: VMMdev_req_mouse_status where
  "mouse_status_request = \<lparr>ms_header = \<lparr>vh_size = sizeof_mouse_status, vh_version = 0x10001,
     vh_requestType = 2, vh_rc = -1, vh_reserved1 = 0, vh_reserved2 = 0\<rparr>,
     mouseFeatures = push_bit 2 1, pointerXPos = 0, pointerYPos = 0\<rparr>"

definition mouse_pointer_request :: VMMdev_req_mouse_pointer where
  "mouse_pointer_request = \<lparr>mp_header = \<lparr>vh_size = sizeof_mouse_pointer, vh_version = 0x10001,
     vh_requestType = 3, vh_rc = -1, vh_reserved1 = 0, vh_reserved2 = 0\<rparr>,
     fFlags = 1, xHot = 0, yHot = 0, mp_width = 0, mp_height = 0, pointerData = [0, 0, 0, 0]\<rparr>"

type_synonym vbox_call = "int \<times> u32 \<times> vbox_request"

definition init_vbox_touchpanel ::
  "int \<Rightarrow> (int \<Rightarrow> u32 \<Rightarrow> vbox_request \<Rightarrow> int \<times> int) \<Rightarrow> vbox_call list \<times> int list" where
  "init_vbox_touchpanel vbox_fd ioctl =
     (let close = (if 0 \<le> vbox_fd then [vbox_fd] else []) in
      if vbox_fd < 0 then ([], close)
      else
        (let code1 = VBOXGUEST_IOCTL_VMMREQUEST (vh_size (ms_header mouse_status_request));
             req1 = Mouse_Status mouse_status_request;
             (ret1, rc1) = ioctl vbox_fd code1 req1 in
         if ret1 < 0 then ([(vbox_fd, code1, req1)], close)
         else if rc1 < 0 then ([(vbox_fd, code1, req1)], close)
         else
           (let code2 = VBOXGUEST_IOCTL_VMMREQUEST (vh_size (mp_header mouse_pointer_request));
                req2 = Mouse_Pointer mouse_pointer_request;
                (ret2, rc2) = ioctl vbox_fd code2 req2 in
            if ret2 < 0 then ([(vbox_fd, code1, req1), (vbox_fd, code2, req2)], close)
            else if rc2 < 0 then ([(vbox_fd, code1, req1), (vbox_fd, code2, req2)], close)
            else ([(vbox_fd, code1, req1), (vbox_fd, code2, req2)], []))))"

section \<open>Its descriptor\<close>

lemma vbox_sizes: "sizeof_mouse_status = 36" "sizeof_mouse_pointer = 48"
  by (simp_all add: sizeof_mouse_status_def sizeof_mouse_pointer_def sizeof_header_def)

lemma vbox_codes:
  "VBOXGUEST_IOCTL_VMMREQUEST sizeof_mouse_status = 0xC0245603"
  "VBOXGUEST_IOCTL_VMMREQUEST sizeof_mouse_pointer = 0xC0305603"
  by (simp_all add: vbox_sizes VBOXGUEST_IOCTL_VMMREQUEST_def IOC_def)

text \<open>
  The descriptor is closed exactly when a call fails. On success it stays open and nothing keeps
  it, so each opening of the module leaks one.
\<close>

lemma vbox_closed:
  "snd (init_vbox_touchpanel fd ioctl) =
     (if 0 \<le> fd \<and> (\<exists>c \<in> set (fst (init_vbox_touchpanel fd ioctl)).
         case c of (f, code, r) \<Rightarrow> fst (ioctl f code r) < 0 \<or> snd (ioctl f code r) < 0)
      then [fd] else [])"
  by (auto simp: init_vbox_touchpanel_def Let_def split: prod.splits)

lemma vbox_success:
  "(\<And>f c r. ioctl f c r = (0, 0)) \<Longrightarrow> 0 \<le> fd \<Longrightarrow>
   init_vbox_touchpanel fd ioctl =
     ([(fd, 0xC0245603, Mouse_Status mouse_status_request), (fd, 0xC0305603, Mouse_Pointer mouse_pointer_request)], [])"
  by (simp add: init_vbox_touchpanel_def mouse_status_request_def mouse_pointer_request_def vbox_codes)

end
