(* ===== verification/Spec2Isabelle.thy ===== *)
theory Spec2Isabelle
  imports Gesture_Memory_Safety Touchpanel_Endtoend Keys_Liveness System_Alarms
    Battery_Clients Charger_Clients Security_Test_Passes Security_Memory_Safety Info_Properties Display_Properties
    Log_Blame Vbox_Touchpanel
begin

text \<open>
  A verification development for nyx-modules, the device modules (touchpanel, keys, system,
  battery, charger, security, display, information) that nyx-lib loads. Each module is a C file
  with static variables and functions of a fixed interface: open and close, and operations that
  take a device handle and return an error code.

  \<^bold>\<open>How the code is modelled.\<close> A C function is a HOL function on its arguments and the static
  variables it uses, which form a record per module. An out parameter is an extra result.
  Undefined behaviour (signed overflow, an index outside an array, a NULL or dangling pointer, a
  failed assertion) is the value \<open>None\<close> of an option; the checked operations are in Nyx_Prelude.
  Answers of the environment (malloc, open, ioctl, poll, read, the clock, drivers, constants of
  nyx-lib) are arguments. Log messages are left out. Files are given below src/.

  \<^bold>\<open>Theories.\<close>

  Nyx_Prelude: pointers, error codes, checked C arithmetic and arrays, the interface
  \<open>handle_guarded\<close> (an operation that refuses every handle but the module's own).

  Coord_Buffer (rockhopper/touchpanel/emulator/touchpanel_gestures.c): the ring buffer of a
  finger. \<open>hist\<close> reads it as a list; the operations refine list operations; the interface
  \<open>bounded_history\<close> is interpreted by the code's functions.

  Touch_Event (touchpanel_common.c and touchpanel_gestures.h): raw events, \<open>set_event_params\<close>.

  Gestures (touchpanel_gestures.c): the finger tracker, one function per C function and one per
  loop of \<open>gesture_state_machine\<close>. Gesture_Tracking (matching), Gesture_Scan (update and new
  fingers), Gesture_Events (events, the invariant \<open>gsm_inv\<close>, the whole scan) and Gesture_Single
  (scans of at most one touch) hold its lemmas, Gesture_Properties its properties.
  Gesture_Memory: the same operations with what they allocate, the nodes of the list, the blocks of the
  fingers and the coordinate arrays, and pointers between them. Gesture_Heap: which block belongs to
  which, and what each step does to that. Gesture_Memory_Safety: runs with pointers give the answers of runs with
  values.

  C_Float: binary floating-point rounding on rationals. Touchpanel (touchpanel.c): raw mouse
  events, scaling, scans, the event queue and touch events. Touchpanel_Refinement and
  Touchpanel_Mouse prove that all of this, tracker included, refines an abstract mouse;
  Touchpanel_Properties holds the properties. Touchpanel_Scaling bounds the error of the scaled
  coordinates, and Touchpanel_Endtoend follows events from opening the device, with the scales
  computed there, to the touches of the client. Vbox_Touchpanel: the requests to VirtualBox that opening
  makes on the side.

  Keys (rockhopper/keys/emulator/keys.c): batches of raw key events, the read loop as a
  \<open>partial_function\<close>. Keys_Properties: the interface \<open>batch_source\<close>, interpreted by the module, and
  the properties. Keys_Liveness: a client that keeps calling.

  C_Time: \<open>gmtime_r\<close> and \<open>timegm\<close>. Rtc (rockhopper/system/rtc.c): the clock helpers over a driver
  given as a record of functions. System_Module (rockhopper/system/emulator/system.c): the
  operations. System_Properties: the properties of both. System_Alarms: the module with a clock that
  keeps time and a main loop that watches it.

  Power_Utils (rockhopper/utils/utils.c): the file helpers and the search for a power supply, over
  a record of the file system. Battery_Backends (battery/device/battery.c and
  battery/emulator/fake_battery.c): the readings of both, with the interface \<open>battery_backend\<close> that
  batterylib.c relies on, interpreted by both. Battery_Lib (battery/batterylib.c and the
  initialisation and udev handler of the device). Battery_Properties: their properties. Watchers: a
  client that asks and is called back, over the interfaces \<open>notifier\<close> and \<open>asked_notifier\<close>;
  Battery_Clients interprets the first by the battery device, Charger_Clients the second by the charger.

  Charger (charger/chargerlib.c, charger/device/charger.c, charger/emulator/charger.c): the library
  over a backend, and the two backends. Charger_Emulator (charger/emulator/chargerlib.c): the module
  in one file, and runs of client calls. Charger_Events: what one udev event and runs of them do to
  the event word. Charger_Properties: the reachable states and the properties.

  C_Numbers: printing and reading ints. Security_Store (generic/security/keystore.c): the key tables
  as finite maps, their save and load over a key file library given as a record of functions.
  Security_Tables: the interface \<open>key_table\<close> the rest of the module relies on, interpreted by the
  tables. Security_Crypto (aes.c, rsa.c, sha.c): what the code does around OpenSSL, whose functions
  are parameters. Security_Module (security.c): the module. Security_Roundtrip: the documented laws
  of the libraries (\<open>store_lib_ok\<close>), the invariant of a store and its way through the file.
  Security_Properties and Security_Witnesses: the properties, and the same at concrete libraries.
  Security_Load: opening with a file that nobody saved. Security_Test
  (generic/security/test/test_security.c): the test program over the functions of nyx-lib, given as
  a record, and the record whose functions call the module. Security_Test_Service: the interfaces
  \<open>key_creation\<close> and \<open>security_service\<close>, inside which every test passes; Security_Test_Passes
  interprets them by the module. Security_Memory: the operations on keys once more, with pointers,
  allocated blocks, and the functions that free them. Security_Ownership: tables that own their
  values, and the interface \<open>pool\<close> of freeing; Security_Memory_Steps interprets it by both kinds of keys;
  Security_Memory_Runs and Security_Memory_Safety prove that pointers do what values say.

  Info_Read: reading a command's output or a file once, with the interface \<open>cached_read\<close>, which
  Os_Info (generic/os_info/os_info.c.in) and Device_Info (generic/device_info/emulator/
  device_info_generic.c.in) interpret with their own copies of the function; Info_Properties has
  their properties. Display (generic/display/display.c) and its Display_Properties, over
  Float_Error, the error bounds of C_Float's rounding. Log_Blame (rockhopper/system/util.c): the
  report of open files, and what it contains.

  \<^bold>\<open>What the lemmas show.\<close> Tracker: a scan never has undefined behaviour, keeps its invariant and
  its finger structures, matches nearest fingers injectively and emits well-formed blocks of
  events; with pointers it follows none that is freed, and stopping it frees everything once, but leaves
  \<open>sFingers\<close> dangling when a finger is down. Touchpanel: for any sequence of raw events the touch events a client gets are those of
  the abstract mouse, so touches are properly opened and closed; their coordinates are on the screen
  for whatever the kernel delivers, and a touch ends after the button is released. Keys: batches
  are delivered completely and in order, every key event to a client that keeps calling, and the
  read loop returns exactly when some read is decisive.
  System: alarms are set at least two seconds ahead, read back as they were set, and delivered once,
  in the second they are due. Battery: a
  status is consistent with either backend, and a client that asks when it is called back misses no
  change of presence or percentage.
  Charger: the event word never contradicts itself, the connected bits follow the supplies through
  any run of udev events, a client that asks and is called back in any order knows what the module
  knows, and the two ways to build the emulator are the same module. Security:
  new keys get the least free index and disturb no other, closing and reopening the module cannot
  be told from leaving it open, encryption and decryption undo each other under the laws of the
  ciphers, which bound what they write by more than what they report, digest contexts are neither leaked nor used after their end, keys are freed exactly once
  but for the blocks and big numbers that two error paths lose, which are counted, and the whole test program
  passes whatever keys earlier runs left. Information: an answer
  once given is given again, and a device keeps its nduid. Display: the resolutions are within a
  relative error of 2^-21. Several theorems state defects of the
  code as they are (freed fingers after closing, a touch at the
  origin, an ignored display error, finger numbers that overflow, reads at end of file that
  never return, alarms that are not armed again, a failed alarm query reported as success, a
  percentage of 0 or 1, a callback through NULL, battery changes that are skipped, charger events
  that a status query swallows, and failed RSA keys that are stored).

  \<^bold>\<open>Bounds.\<close> Panel coordinates are 0 to 32767, so that squared distances fit an int; a scan has at
  most 1000 touches, so that its time stamps fit; five events per finger structure and one more
  fit the event array. Finger ids up to 2147000 keep id times 1000 an int. Structure sizes are
  those of a 64-bit platform. Buffers of the security module are shorter than 2^31 bytes. There is
  no fuel: the only loop that may not end is the read loop of the keys, and its termination is
  characterised exactly; the search for a free key index ends by a measure.

  \<^bold>\<open>Not modelled.\<close> The answers of VirtualBox, of \<open>gettimeofday\<close> and of drivers are inputs
  only. The limits of time_t are left out, and so is the desktop variant of rtc.c, which does not
  compile (\<open>rtc_read_alarm_time\<close> calls a function that is left out there) and which no build file
  selects. The error queue of OpenSSL, the failure result of \<open>i2d_RSAPrivateKey\<close> and the paths under
  which the test program registers its tests with GLib (one is used twice) are left out, and so is the
  release of memory other than that of keys, digest contexts, and the fingers, list nodes and
  coordinates of the tracker: strings and buffers that a function allocates and frees itself.
  Opening the security module while it is open forgets its keys; the runs with
  pointers open it only when its tables are not there. A callback that calls back into a module while a
  handler runs is modelled as calling it after the handler. The
  code of device_info_generic.c.in under #if 0 is not compiled. All other code that is built is modelled.
\<close>

end
